(* ===== verification/Drv_Prelude.thy ===== *)
theory Drv_Prelude
  imports Main "HOL-Library.Word" "HOL-Library.State_Monad"
begin

text \<open>
  Shared notation, control flow and proof automation of the development.

  C code that has effects is a value of the state monad of
  HOL-Library.State_Monad and is written in its do-notation. The C loops of the
  driver come in two shapes: a counted loop (\<open>for_each\<close> over the list of the
  loop variable's values) and a bounded loop with a break (\<open>poll_loop\<close>).
  \<open>wp\<close> is the weakest-precondition view of a monadic program; its equations
  are collected in \<open>wp_simps\<close> and are simp rules, so that a property of a
  program is simplified to a condition on its start state.
\<close>

unbundle bit_operations_syntax

type_synonym u8 = "8 word"
type_synonym u16 = "16 word"
type_synonym u32 = "32 word"

named_theorems wp_simps \<open>weakest preconditions of the primitives\<close>
named_theorems wp_intros \<open>introduction rules for weakest preconditions\<close>

section \<open>Words\<close>

lemma mask_numerals:
  "(0xf :: u32) = mask 4" "(0x1f :: u32) = mask 5" "(0x3f :: u32) = mask 6" "(0x7f :: u32) = mask 7"
  "(0xff :: u32) = mask 8" "(0x1ff :: u32) = mask 9" "(0xfff :: u32) = mask 12" "(0xffff :: u32) = mask 16"
  by (simp_all add: mask_eq_exp_minus_1)

lemma ucast_low16 [simp]: "ucast (v AND 0xffff :: u32) = (ucast v :: u16)"
  by (rule bit_word_eqI) (auto simp: mask_numerals bit_simps)

lemma ucast_ucast_u16 [simp]: "ucast (ucast (v :: u16) :: u32) = v"
  by (rule bit_word_eqI) (auto simp: bit_simps)

lemma unat_ucast_16_32 [simp]: "unat (ucast (w :: u16) :: u32) = unat w"
  using unsigned_less [of w, where ?'a = nat] by (simp add: unsigned_ucast_eq take_bit_nat_eq_self_iff)

lemma ucast_two_bytes [simp]:
  "ucast (drop_bit 8 (push_bit 8 (ucast (hi :: u8)) :: u32) OR drop_bit 8 (ucast (lo :: u8))) = hi"
  "ucast (push_bit 8 (ucast (hi :: u8)) OR ucast (lo :: u8) :: u32) = lo"
  by (rule bit_word_eqI, auto simp: bit_simps dest: bit_imp_le_length)+

section \<open>Monadic programs\<close>

abbreviation ret :: "'a \<Rightarrow> ('s, 'a) state" where
  "ret \<equiv> State_Monad.return"

abbreviation modify :: "('s \<Rightarrow> 's) \<Rightarrow> ('s, unit) state" where
  "modify \<equiv> State_Monad.update"

definition gets :: "('s \<Rightarrow> 'a) \<Rightarrow> ('s, 'a) state" where
  "gets f = State (\<lambda>s. (f s, s))"

definition when_do :: "bool \<Rightarrow> ('s, unit) state \<Rightarrow> ('s, unit) state" where
  "when_do b m = (if b then m else ret ())"

definition exec :: "('s, 'a) state \<Rightarrow> 's \<Rightarrow> 's" where
  "exec m s = snd (run_state m s)"

definition result :: "('s, 'a) state \<Rightarrow> 's \<Rightarrow> 'a" where
  "result m s = fst (run_state m s)"

definition wp :: "('s, 'a) state \<Rightarrow> ('a \<Rightarrow> 's \<Rightarrow> bool) \<Rightarrow> 's \<Rightarrow> bool" where
  "wp m Q s = Q (result m s) (exec m s)"

text \<open>\<open>for (i = ...; ...; i++) body(i)\<close>, over the list of the values of \<open>i\<close>.\<close>

primrec for_each :: "'i list \<Rightarrow> ('i \<Rightarrow> ('s, unit) state) \<Rightarrow> ('s, unit) state" where
  "for_each [] body = ret ()"
| "for_each (i # is) body = do { body i; for_each is body }"

text \<open>
  \<open>for (; i < i0 + n; i++) { v = body(v); if (ok(v)) break; wait(); }\<close>: the
  result holds the value of \<open>i\<close> after the loop (\<open>i0 + n\<close> exactly when the
  loop ran out) and the last \<open>v\<close>.
\<close>

primrec poll_loop ::
  "('v \<Rightarrow> ('s, 'v) state) \<Rightarrow> ('v \<Rightarrow> bool) \<Rightarrow> ('s, unit) state \<Rightarrow> nat \<Rightarrow> nat \<Rightarrow> 'v
    \<Rightarrow> ('s, nat \<times> 'v) state" where
  "poll_loop body ok wait 0 i v = ret (i, v)"
| "poll_loop body ok wait (Suc n) i v =
     do { v' \<leftarrow> body v;
          if ok v' then ret (i, v')
          else do { wait; poll_loop body ok wait n (Suc i) v' } }"

section \<open>Equations of exec, result and wp\<close>

lemma result_simps [simp]:
  "result (ret x) s = x"
  "result (State_Monad.bind m f) s = result (f (result m s)) (exec m s)"
  "result (gets g) s = g s"
  "result (modify h) s = ()"
  by (simp_all add: result_def exec_def gets_def State_Monad.update_def split: prod.splits)

lemma exec_simps [simp]:
  "exec (ret x) s = s"
  "exec (State_Monad.bind m f) s = exec (f (result m s)) (exec m s)"
  "exec (gets g) s = s"
  "exec (modify h) s = h s"
  by (simp_all add: result_def exec_def gets_def State_Monad.update_def split: prod.splits)

lemma run_state_conv: "run_state m s = (result m s, exec m s)"
  by (simp add: result_def exec_def)

text \<open>These rules also rewrite where the state argument is still missing.\<close>

lemma wp_ret [simp, wp_simps]: "wp (ret x) Q = Q x"
  by (rule ext) (simp add: wp_def)

lemma wp_bind [simp, wp_simps]: "wp (State_Monad.bind m f) Q = wp m (\<lambda>r. wp (f r) Q)"
  by (rule ext) (simp add: wp_def)

lemma wp_gets [simp, wp_simps]: "wp (gets f) Q = (\<lambda>s. Q (f s) s)"
  by (rule ext) (simp add: wp_def)

lemma wp_modify [simp, wp_simps]: "wp (modify f) Q = (\<lambda>s. Q () (f s))"
  by (rule ext) (simp add: wp_def)

lemma wp_if [simp, wp_simps]: "wp (if b then m else n) Q s = (if b then wp m Q s else wp n Q s)"
  by simp

lemma wp_when_do [simp, wp_simps]: "wp (when_do b m) Q s = (if b then wp m Q s else Q () s)"
  by (simp add: when_do_def)

lemma wp_when_do_cases [simp]:
  "wp (when_do True m) Q = wp m Q" "wp (when_do False m) Q = Q ()"
  by (auto simp: when_do_def)

lemma wp_for_each_Nil [simp, wp_simps]: "wp (for_each [] body) Q s = Q () s"
  by simp

lemma wp_for_each_Cons [simp, wp_simps]:
  "wp (for_each (i # is) body) Q s = wp (body i) (\<lambda>_. wp (for_each is body) Q) s"
  by simp

lemma wp_resultI: "wp m (\<lambda>r _. Q r) s \<Longrightarrow> Q (result m s)"
  by (simp add: wp_def)

lemma wp_execI: "wp m (\<lambda>_. Q) s \<Longrightarrow> Q (exec m s)"
  by (simp add: wp_def)

lemma wp_mono:
  assumes "wp m Q s" and "\<And>r t. Q r t \<Longrightarrow> R r t"
  shows "wp m R s"
  using assms by (simp add: wp_def)

lemma wp_any: "(\<And>r t. Q r t) \<Longrightarrow> wp m Q s"
  by (simp add: wp_def)

lemma wp_conjI: "wp m Q s \<Longrightarrow> wp m R s \<Longrightarrow> wp m (\<lambda>r t. Q r t \<and> R r t) s"
  by (simp add: wp_def)

section \<open>What a program leaves alone\<close>

text \<open>\<open>keeps f m\<close>: the part f of the state is the same after m, from any start.\<close>

definition keeps :: "('s \<Rightarrow> 'v) \<Rightarrow> ('s, 'a) state \<Rightarrow> bool" where
  "keeps f m \<longleftrightarrow> (\<forall>s. f (exec m s) = f s)"

named_theorems keeps_rules \<open>programs that keep a part of the state\<close>

lemma keeps_exec: "keeps f m \<Longrightarrow> f (exec m s) = f s"
  by (simp add: keeps_def)

lemma keeps_ret [keeps_rules]: "keeps f (ret x)"
  by (simp add: keeps_def)

lemma keeps_gets [keeps_rules]: "keeps f (gets g)"
  by (simp add: keeps_def)

lemma keeps_bind [keeps_rules]:
  "keeps f m \<Longrightarrow> (\<And>x. keeps f (k x)) \<Longrightarrow> keeps f (State_Monad.bind m k)"
  by (simp add: keeps_def)

lemma keeps_modify [keeps_rules]: "(\<And>s. f (g s) = f s) \<Longrightarrow> keeps f (modify g)"
  by (simp add: keeps_def)

lemma keeps_if [keeps_rules]: "keeps f m \<Longrightarrow> keeps f n \<Longrightarrow> keeps f (if b then m else n)"
  by simp

lemma keeps_when_do [keeps_rules]: "keeps f m \<Longrightarrow> keeps f (when_do b m)"
  by (simp add: when_do_def keeps_def)

lemma keeps_case_prod [keeps_rules]:
  "(\<And>a b. keeps f (g a b)) \<Longrightarrow> keeps f (case p of (a, b) \<Rightarrow> g a b)"
  by (cases p) simp

lemma keeps_for_each [keeps_rules]:
  assumes "\<And>i. keeps f (body i)"
  shows "keeps f (for_each is body)"
  by (induction "is") (simp_all add: keeps_ret keeps_bind assms)

lemma keeps_poll_loop [keeps_rules]:
  assumes "\<And>v. keeps f (body v)" and "keeps f wait"
  shows "keeps f (poll_loop body ok wait n i v)"
  by (induction n arbitrary: i v) (simp_all add: keeps_ret keeps_bind keeps_if assms)

section \<open>Loop rules\<close>

lemma for_each_append [simp]:
  "for_each (xs @ ys) body = do { for_each xs body; for_each ys body }"
  by (induction xs) simp_all

lemma wp_for_upto:
  assumes "I 0 s"
    and "\<And>i t. i < n \<Longrightarrow> I i t \<Longrightarrow> wp (body i) (\<lambda>_. I (Suc i)) t"
    and "\<And>t. I n t \<Longrightarrow> Q () t"
  shows "wp (for_each [0..<n] body) Q s"
proof -
  have "k \<le> n \<Longrightarrow> wp (for_each [0..<k] body) (\<lambda>_. I k) s" for k
  proof (induction k)
    case 0
    then show ?case using assms(1) by simp
  next
    case (Suc k)
    then have "wp (for_each [0..<k] body) (\<lambda>_. I k) s" by simp
    then have "wp (for_each [0..<k] body) (\<lambda>_. wp (body k) (\<lambda>_. I (Suc k))) s"
      by (rule wp_mono) (use assms(2) Suc.prems in simp)
    then show ?case by simp
  qed
  then have "wp (for_each [0..<n] body) (\<lambda>_. I n) s" by simp
  then show ?thesis by (rule wp_mono) (use assms(3) in simp)
qed

lemma wp_for_each_inv:
  assumes "I s" and "\<And>i t. i \<in> set is \<Longrightarrow> I t \<Longrightarrow> wp (body i) (\<lambda>_. I) t"
  shows "wp (for_each is body) (\<lambda>_. I) s"
  using assms
proof (induction "is" arbitrary: s)
  case Nil
  then show ?case by simp
next
  case (Cons i "is")
  then have "wp (body i) (\<lambda>_. I) s" by simp
  then have "wp (body i) (\<lambda>_. wp (for_each is body) (\<lambda>_. I)) s"
    by (rule wp_mono) (use Cons in simp)
  then show ?case by simp
qed

text \<open>
  The bounded loop with a break, as a rule: \<open>I i v\<close> holds before each test;
  the loop ends with a value that is \<open>ok\<close> or with \<open>i = i0 + n\<close>.
\<close>

lemma wp_poll_loop:
  assumes "I i v s"
    and step: "\<And>j u t. i \<le> j \<Longrightarrow> j < i + n \<Longrightarrow> I j u t \<Longrightarrow>
      wp (body u) (\<lambda>u' t'. if ok u' then Q (j, u') t' else wp wait (\<lambda>_. I (Suc j) u') t') t"
    and stop: "\<And>u t. I (i + n) u t \<Longrightarrow> Q (i + n, u) t"
  shows "wp (poll_loop body ok wait n i v) Q s"
  using assms
proof (induction n arbitrary: i v s)
  case 0
  then show ?case by simp
next
  case (Suc n)
  have more: "wp (poll_loop body ok wait n (Suc i) u') Q t'" if "I (Suc i) u' t'" for u' t'
    by (rule Suc.IH [OF that]) (use Suc.prems(2,3) in \<open>simp_all\<close>)
  from Suc.prems(2) [of i v s] Suc.prems(1)
  have "wp (body v) (\<lambda>u' t'. if ok u' then Q (i, u') t' else wp wait (\<lambda>_. I (Suc i) u') t') s"
    by simp
  then have "wp (body v) (\<lambda>u' t'. wp (if ok u' then ret (i, u')
      else do { wait; poll_loop body ok wait n (Suc i) u' }) Q t') s"
    by (rule wp_mono) (auto split: if_splits elim!: wp_mono intro: more)
  then show ?case by (simp only: poll_loop.simps wp_bind)
qed

lemma poll_loop_index:
  "wp (poll_loop body ok wait n i v) (\<lambda>(k, u) _. i \<le> k \<and> k \<le> i + n \<and> (k < i + n \<longrightarrow> ok u)) s"
  by (rule wp_poll_loop [where I = "\<lambda>_ _ _. True"]) (auto simp: wp_def)

section \<open>Bounded polling\<close>

text \<open>
  A wait loop tests something it can see (\<open>view\<close>: for a hardware register,
  the history), each test and each delay changing what it sees. \<open>poll_view k\<close>
  is what the loop sees after k tests that failed.
\<close>

primrec poll_view :: "('h \<Rightarrow> 'h) \<Rightarrow> ('h \<Rightarrow> 'h) \<Rightarrow> nat \<Rightarrow> 'h \<Rightarrow> 'h" where
  "poll_view looked waited 0 h = h"
| "poll_view looked waited (Suc k) h = poll_view looked waited k (waited (looked h))"

locale polling =
  fixes body :: "'v \<Rightarrow> ('s, 'v) state"
    and ok :: "'v \<Rightarrow> bool"
    and wait :: "('s, unit) state"
    and view :: "'s \<Rightarrow> 'h"
    and look :: "'h \<Rightarrow> 'v"
    and looked :: "'h \<Rightarrow> 'h"
    and waited :: "'h \<Rightarrow> 'h"
  assumes body_result: "result (body u) s = look (view s)"
    and body_view: "view (exec (body u) s) = looked (view s)"
    and wait_view: "view (exec wait s) = waited (view s)"
begin

lemma first_success:
  assumes "k < n" and "ok (look (poll_view looked waited k (view s)))"
    and "\<And>j. j < k \<Longrightarrow> \<not> ok (look (poll_view looked waited j (view s)))"
  shows "result (poll_loop body ok wait n i v) s =
    (i + k, look (poll_view looked waited k (view s)))"
  using assms
proof (induction n arbitrary: i k v s)
  case 0
  then show ?case by simp
next
  case (Suc n)
  show ?case
  proof (cases k)
    case 0
    with Suc.prems show ?thesis by (simp add: body_result)
  next
    case (Suc k')
    have not_now: "\<not> ok (look (view s))" using Suc.prems(3) [of 0] Suc by simp
    have later: "\<not> ok (look (poll_view looked waited j (waited (looked (view s)))))"
      if "j < k'" for j
      using Suc.prems(3) [of "Suc j"] Suc that by simp
    have "result (poll_loop body ok wait n (Suc i) (look (view s))) (exec wait (exec (body v) s)) =
      (Suc i + k', look (poll_view looked waited k' (waited (looked (view s)))))"
      using Suc.IH [of k' "exec wait (exec (body v) s)" "Suc i"] Suc.prems(1,2) Suc later
      by (simp add: body_view wait_view)
    then show ?thesis using Suc not_now by (simp add: body_result)
  qed
qed

lemma no_success:
  assumes "\<And>j. j < n \<Longrightarrow> \<not> ok (look (poll_view looked waited j (view s)))"
  shows "fst (result (poll_loop body ok wait n i v) s) = i + n"
  using assms
proof (induction n arbitrary: i v s)
  case 0
  then show ?case by simp
next
  case (Suc n)
  have "\<not> ok (look (poll_view looked waited j (waited (looked (view s)))))" if "j < n" for j
    using Suc.prems [of "Suc j"] that by simp
  then show ?case
    using Suc.IH [of "exec wait (exec (body v) s)" "Suc i" "look (view s)"] Suc.prems [of 0]
    by (simp add: body_view wait_view body_result)
qed

lemma success_iff:
  "fst (result (poll_loop body ok wait n i v) s) < i + n \<longleftrightarrow>
    (\<exists>k<n. ok (look (poll_view looked waited k (view s))))"
proof (cases "\<exists>k<n. ok (look (poll_view looked waited k (view s)))")
  case True
  define k where "k = (LEAST k. ok (look (poll_view looked waited k (view s))))"
  obtain k0 where k0: "k0 < n" "ok (look (poll_view looked waited k0 (view s)))" using True by blast
  have "ok (look (poll_view looked waited k (view s)))" unfolding k_def by (rule LeastI, rule k0)
  moreover have "k \<le> k0" unfolding k_def by (rule Least_le, rule k0)
  moreover have "\<not> ok (look (poll_view looked waited j (view s)))" if "j < k" for j
    using that unfolding k_def by (rule not_less_Least)
  ultimately show ?thesis using True k0(1) first_success [of k n s i v] by simp
next
  case False
  then show ?thesis using no_success [of n s i v] by simp
qed

end

end
