(* ===== verification/Platform.thy ===== *)
theory Platform
  imports Drv_Prelude
begin

text \<open>
  The driver's environment: libpayload and the hardware. None of it is under
  src/, so it is the parameter \<open>platform\<close> of every definition that touches it.
  The hardware answers as a function of the history of everything the driver did
  to it, which covers every deterministic device and, because theorems hold for
  every \<open>platform\<close>, every sequence of answers. The history is kept newest
  event first; the console is a separate log that no device sees.
\<close>

section \<open>Events and the environment\<close>

text \<open>TX packet descriptor and RX free descriptor, as in ipq4019.h.\<close>

record edma_tpd =
  tpd_len :: u16
  tpd_svlan_tag :: u16
  tpd_word1 :: u32
  tpd_addr :: u32
  tpd_word3 :: u32

record edma_rfd =
  buffer_addr :: u32

text \<open>
  DMA descriptor of the older driver reference/depthcharge-ipq806x.c: the fields
  it uses, as 32-bit words (its declaration is not in the repository).
\<close>

record gmac_desc =
  gd_status :: u32
  gd_length :: u32
  gd_buffer1 :: u32
  gd_data1 :: u32
  gd_extstatus :: u32
  gd_reserved1 :: u32
  gd_timestamplow :: u32
  gd_timestamphigh :: u32

text \<open>
  What the driver does that the hardware, the memory system or the allocator can
  see: register accesses, delays in microseconds, cache maintenance, the DSB
  barrier, stores to descriptors (index and value), allocations and frees, the
  registration of a device with the network stack, calls, with their results,
  of the clock and reset functions that the drivers under reference/ use, and
  stores to a GMAC descriptor (receive ring or not, index, value).
\<close>

datatype event =
    Rd u32 u32
  | Wr u32 u32
  | Udelay nat
  | Clean u32 nat
  | Inval u32 nat
  | Dsb
  | StTpd nat edma_tpd
  | StRfd nat edma_rfd
  | Memalign nat nat u32
  | NetAddDevice
  | NetPollerInsert
  | Free u32
  | Call string int
  | StGmac bool nat gmac_desc

datatype parg = Num u32 | Str string

text \<open>
  \<open>bus_read\<close> is readl's answer; \<open>mem_load\<close> the byte the CPU loads from
  memory a device may write; \<open>memalign_ptr\<close> the address xmemalign returns (0
  for NULL); \<open>phys\<close> is virt_to_phys; \<open>line_bytes\<close> dcache_line_bytes();
  \<open>sysinfo_mac\<close> is lib_sysinfo.macs[0].mac_addr.
\<close>

record platform =
  bus_read :: "event list \<Rightarrow> u32 \<Rightarrow> u32"
  mem_load :: "event list \<Rightarrow> u32 \<Rightarrow> u8"
  memalign_ptr :: "event list \<Rightarrow> nat \<Rightarrow> nat \<Rightarrow> u32"
  phys :: "u32 \<Rightarrow> u32"
  line_bytes :: nat
  sysinfo_mac :: "nat \<Rightarrow> u8"

text \<open>
  The part of the machine state every component shares. \<open>ub\<close> is set when the
  code indexes an array out of range: from there on C gives the run no meaning.
\<close>

record io =
  hist :: "event list"
  console :: "(string \<times> parg list) list"
  ub :: bool

text \<open>Updates in one order, so that states built along different paths compare.\<close>

lemma io_update_order [simp]:
  "hist_update f (console_update g s) = console_update g (hist_update f s)"
  "hist_update f (ub_update b s) = ub_update b (hist_update f s)"
  "console_update g (ub_update b s) = ub_update b (console_update g s)"
  by (cases s, simp)+

section \<open>Primitives\<close>

definition emit :: "event \<Rightarrow> ('z io_scheme, unit) state" where
  "emit e = modify (\<lambda>s. s\<lparr>hist := e # hist s\<rparr>)"

definition readl :: "platform \<Rightarrow> u32 \<Rightarrow> ('z io_scheme, u32) state" where
  "readl P a = do {
     v \<leftarrow> gets (\<lambda>s. bus_read P (hist s) a);
     emit (Rd a v);
     ret v }"

definition writel :: "u32 \<Rightarrow> u32 \<Rightarrow> ('z io_scheme, unit) state" where
  "writel v a = emit (Wr a v)"

definition udelay :: "nat \<Rightarrow> ('z io_scheme, unit) state" where
  "udelay us = emit (Udelay us)"

definition mdelay :: "nat \<Rightarrow> ('z io_scheme, unit) state" where
  "mdelay ms = emit (Udelay (1000 * ms))"

definition dcache_clean_invalidate_by_mva :: "u32 \<Rightarrow> nat \<Rightarrow> ('z io_scheme, unit) state" where
  "dcache_clean_invalidate_by_mva a n = emit (Clean a n)"

definition dcache_invalidate_by_mva :: "u32 \<Rightarrow> nat \<Rightarrow> ('z io_scheme, unit) state" where
  "dcache_invalidate_by_mva a n = emit (Inval a n)"

definition dsb_sy :: "('z io_scheme, unit) state" where
  "dsb_sy = emit Dsb"

definition xmemalign :: "platform \<Rightarrow> nat \<Rightarrow> nat \<Rightarrow> ('z io_scheme, u32) state" where
  "xmemalign P al n = do {
     p \<leftarrow> gets (\<lambda>s. memalign_ptr P (hist s) al n);
     emit (Memalign al n p);
     ret p }"

definition printf :: "string \<Rightarrow> parg list \<Rightarrow> ('z io_scheme, unit) state" where
  "printf fmt args = modify (\<lambda>s. s\<lparr>console := (fmt, args) # console s\<rparr>)"

text \<open>An access outside an array's bounds.\<close>

definition undefined_behaviour :: "('z io_scheme, unit) state" where
  "undefined_behaviour = modify (\<lambda>s. s\<lparr>ub := True\<rparr>)"

lemma wp_prims [simp, wp_simps]:
  "wp (emit e) Q s = Q () (s\<lparr>hist := e # hist s\<rparr>)"
  "wp (writel v a) Q s = Q () (s\<lparr>hist := Wr a v # hist s\<rparr>)"
  "wp (udelay n) Q s = Q () (s\<lparr>hist := Udelay n # hist s\<rparr>)"
  "wp (mdelay n) Q s = Q () (s\<lparr>hist := Udelay (1000 * n) # hist s\<rparr>)"
  "wp (dcache_clean_invalidate_by_mva a n) Q s = Q () (s\<lparr>hist := Clean a n # hist s\<rparr>)"
  "wp (dcache_invalidate_by_mva a n) Q s = Q () (s\<lparr>hist := Inval a n # hist s\<rparr>)"
  "wp dsb_sy Q s = Q () (s\<lparr>hist := Dsb # hist s\<rparr>)"
  "wp (printf f xs) Q s = Q () (s\<lparr>console := (f, xs) # console s\<rparr>)"
  "wp undefined_behaviour Q s = Q () (s\<lparr>ub := True\<rparr>)"
  by (simp_all add: emit_def writel_def udelay_def mdelay_def dsb_sy_def printf_def
      dcache_clean_invalidate_by_mva_def dcache_invalidate_by_mva_def undefined_behaviour_def)

lemma wp_readl [wp_simps]:
  "wp (readl P a) Q s =
    Q (bus_read P (hist s) a) (s\<lparr>hist := Rd a (bus_read P (hist s) a) # hist s\<rparr>)"
  by (simp add: readl_def)

text \<open>
  The value read, as a new variable: keeps the goals of long register sequences
  small, since the history would otherwise occur in every value read from it.
\<close>

lemma wp_readlI [wp_intros]:
  assumes "\<And>v. v = bus_read P (hist s) a \<Longrightarrow> Q v (s\<lparr>hist := Rd a v # hist s\<rparr>)"
  shows "wp (readl P a) Q s"
  using assms by (simp add: wp_readl)

lemma wp_xmemalign [wp_simps]:
  "wp (xmemalign P al n) Q s =
    Q (memalign_ptr P (hist s) al n)
      (s\<lparr>hist := Memalign al n (memalign_ptr P (hist s) al n) # hist s\<rparr>)"
  by (simp add: xmemalign_def)

section \<open>Reading a history\<close>

text \<open>The value most recently written to a register, if any.\<close>

fun last_write :: "event list \<Rightarrow> u32 \<Rightarrow> u32 option" where
  "last_write [] a = None"
| "last_write (Wr b v # es) a = (if b = a then Some v else last_write es a)"
| "last_write (_ # es) a = last_write es a"

text \<open>The register writes of a history segment, oldest first.\<close>

fun writes :: "event list \<Rightarrow> (u32 \<times> u32) list" where
  "writes [] = []"
| "writes (Wr a v # es) = writes es @ [(a, v)]"
| "writes (_ # es) = writes es"

fun reads :: "event list \<Rightarrow> (u32 \<times> u32) list" where
  "reads [] = []"
| "reads (Rd a v # es) = reads es @ [(a, v)]"
| "reads (_ # es) = reads es"

text \<open>Microseconds spent in delays.\<close>

fun delay_us :: "event list \<Rightarrow> nat" where
  "delay_us [] = 0"
| "delay_us (Udelay n # es) = n + delay_us es"
| "delay_us (_ # es) = delay_us es"

lemma writes_append [simp]: "writes (xs @ ys) = writes ys @ writes xs"
  by (induction xs rule: writes.induct) simp_all

lemma reads_append [simp]: "reads (xs @ ys) = reads ys @ reads xs"
  by (induction xs rule: reads.induct) simp_all

lemma delay_us_append [simp]: "delay_us (xs @ ys) = delay_us xs + delay_us ys"
  by (induction xs rule: delay_us.induct) simp_all

lemma last_write_append:
  "last_write (xs @ ys) a = (case last_write xs a of None \<Rightarrow> last_write ys a | Some v \<Rightarrow> Some v)"
  by (induction xs a rule: last_write.induct) simp_all

text \<open>The allocations of a history, oldest first: alignment, size, pointer.\<close>

fun allocs :: "event list \<Rightarrow> (nat \<times> nat \<times> u32) list" where
  "allocs [] = []"
| "allocs (Memalign al n p # es) = allocs es @ [(al, n, p)]"
| "allocs (_ # es) = allocs es"

lemma allocs_append [simp]: "allocs (xs @ ys) = allocs ys @ allocs xs"
  by (induction xs rule: allocs.induct) simp_all

text \<open>The pointers freed in a history, oldest first.\<close>

fun freed :: "event list \<Rightarrow> u32 list" where
  "freed [] = []"
| "freed (Free a # es) = freed es @ [a]"
| "freed (_ # es) = freed es"

lemma freed_append [simp]: "freed (xs @ ys) = freed ys @ freed xs"
  by (induction xs rule: freed.induct) simp_all

section \<open>What the primitives leave alone\<close>

lemma keeps_prims [keeps_rules]:
  "(\<And>s. f (s\<lparr>hist := e # hist s\<rparr>) = f s) \<Longrightarrow> keeps f (emit e)"
  "(\<And>s. f (s\<lparr>hist := Wr a v # hist s\<rparr>) = f s) \<Longrightarrow> keeps f (writel v a)"
  "(\<And>s v. f (s\<lparr>hist := Rd a v # hist s\<rparr>) = f s) \<Longrightarrow> keeps f (readl P a)"
  "(\<And>s. f (s\<lparr>hist := Udelay n # hist s\<rparr>) = f s) \<Longrightarrow> keeps f (udelay n)"
  "(\<And>s. f (s\<lparr>hist := Udelay (1000 * n) # hist s\<rparr>) = f s) \<Longrightarrow> keeps f (mdelay n)"
  "(\<And>s. f (s\<lparr>hist := Clean a k # hist s\<rparr>) = f s) \<Longrightarrow> keeps f (dcache_clean_invalidate_by_mva a k)"
  "(\<And>s. f (s\<lparr>hist := Inval a k # hist s\<rparr>) = f s) \<Longrightarrow> keeps f (dcache_invalidate_by_mva a k)"
  "(\<And>s. f (s\<lparr>hist := Dsb # hist s\<rparr>) = f s) \<Longrightarrow> keeps f dsb_sy"
  "(\<And>s p. f (s\<lparr>hist := Memalign al k p # hist s\<rparr>) = f s) \<Longrightarrow> keeps f (xmemalign P al k)"
  "(\<And>s. f (s\<lparr>console := (fmt, xs) # console s\<rparr>) = f s) \<Longrightarrow> keeps f (printf fmt xs)"
  "(\<And>s. f (s\<lparr>ub := True\<rparr>) = f s) \<Longrightarrow> keeps f undefined_behaviour"
  by (simp_all add: keeps_def emit_def writel_def readl_def udelay_def mdelay_def dsb_sy_def printf_def
      dcache_clean_invalidate_by_mva_def dcache_invalidate_by_mva_def xmemalign_def undefined_behaviour_def)

section \<open>Programs that only touch the hardware and the console\<close>

text \<open>
  \<open>io_within E m\<close>: whatever m does is in the events and the console lines it
  adds, every event it adds satisfies E, and every other field of the state is
  left alone.
\<close>

definition io_within :: "(event \<Rightarrow> bool) \<Rightarrow> ('z io_scheme, 'a) state \<Rightarrow> bool" where
  "io_within E m \<longleftrightarrow> (\<forall>s. \<exists>es cs. list_all E es \<and>
     exec m s = s\<lparr>hist := es @ hist s, console := cs @ console s\<rparr>)"

named_theorems io_within_rules \<open>footprints of programs\<close>

lemma io_withinI:
  assumes "\<And>s. \<exists>es cs. list_all E es \<and> exec m s = s\<lparr>hist := es @ hist s, console := cs @ console s\<rparr>"
  shows "io_within E m"
  using assms by (simp add: io_within_def)

lemma io_withinE:
  assumes "io_within E m"
  obtains es cs where "list_all E es" and "exec m s = s\<lparr>hist := es @ hist s, console := cs @ console s\<rparr>"
  using assms unfolding io_within_def by blast

lemma io_within_mono:
  assumes "io_within E m" and "\<And>e. E e \<Longrightarrow> E' e"
  shows "io_within E' m"
proof (rule io_withinI)
  fix s
  obtain es cs where 1: "list_all E es" "exec m s = s\<lparr>hist := es @ hist s, console := cs @ console s\<rparr>"
    using assms(1) by (rule io_withinE)
  from 1(1) have "list_all E' es" by (rule list.pred_mono_strong) (rule assms(2))
  with 1(2) show "\<exists>es cs. list_all E' es \<and> exec m s = s\<lparr>hist := es @ hist s, console := cs @ console s\<rparr>"
    by blast
qed

lemma io_within_ret [io_within_rules]: "io_within E (ret x)"
proof (rule io_withinI)
  fix s :: "'z io_scheme"
  show "\<exists>es cs. list_all E es \<and> exec (ret x) s = s\<lparr>hist := es @ hist s, console := cs @ console s\<rparr>"
    by (rule exI [of _ "[]"], rule exI [of _ "[]"]) (cases s, simp)
qed

lemma io_within_gets [io_within_rules]: "io_within E (gets f)"
  using io_within_ret [of E undefined] by (simp add: io_within_def)

lemma io_within_bind [io_within_rules]:
  assumes "io_within E m" and "\<And>x. io_within E (f x)"
  shows "io_within E (State_Monad.bind m f)"
proof (rule io_withinI)
  fix s :: "'a io_scheme"
  obtain es cs where 1: "list_all E es" "exec m s = s\<lparr>hist := es @ hist s, console := cs @ console s\<rparr>"
    using assms(1) by (rule io_withinE)
  obtain es' cs' where 2: "list_all E es'" "exec (f (result m s)) (exec m s)
      = (exec m s)\<lparr>hist := es' @ hist (exec m s), console := cs' @ console (exec m s)\<rparr>"
    using assms(2) by (rule io_withinE)
  show "\<exists>es cs. list_all E es \<and>
      exec (State_Monad.bind m f) s = s\<lparr>hist := es @ hist s, console := cs @ console s\<rparr>"
    by (rule exI [of _ "es' @ es"], rule exI [of _ "cs' @ cs"])
      (simp only: exec_simps 2(2), simp add: 1 2(1))
qed

lemma io_within_emit [io_within_rules]:
  fixes e :: event
  assumes "E e"
  shows "io_within E (emit e)"
proof (rule io_withinI)
  fix s :: "'z io_scheme"
  show "\<exists>es cs. list_all E es \<and> exec (emit e) s = s\<lparr>hist := es @ hist s, console := cs @ console s\<rparr>"
    by (rule exI [of _ "[e]"], rule exI [of _ "[]"]) (cases s, simp add: assms emit_def)
qed

lemma io_within_printf [io_within_rules]: "io_within E (printf f xs)"
proof (rule io_withinI)
  fix s :: "'z io_scheme"
  show "\<exists>es cs. list_all E es \<and> exec (printf f xs) s = s\<lparr>hist := es @ hist s, console := cs @ console s\<rparr>"
    by (rule exI [of _ "[]"], rule exI [of _ "[(f, xs)]"]) (cases s, simp add: printf_def)
qed

lemma io_within_readl [io_within_rules]: "(\<And>v. E (Rd a v)) \<Longrightarrow> io_within E (readl P a)"
  unfolding readl_def by (intro io_within_rules)

lemma io_within_writes [io_within_rules]:
  "E (Wr a v) \<Longrightarrow> io_within E (writel v a)"
  "E (Udelay n) \<Longrightarrow> io_within E (udelay n)"
  "E (Udelay (1000 * n)) \<Longrightarrow> io_within E (mdelay n)"
  "E (Clean a k) \<Longrightarrow> io_within E (dcache_clean_invalidate_by_mva a k)"
  "E (Inval a k) \<Longrightarrow> io_within E (dcache_invalidate_by_mva a k)"
  "E Dsb \<Longrightarrow> io_within E dsb_sy"
  by (simp_all add: io_within_emit writel_def udelay_def mdelay_def dsb_sy_def
      dcache_clean_invalidate_by_mva_def dcache_invalidate_by_mva_def)

lemma io_within_if [io_within_rules]:
  "io_within E m \<Longrightarrow> io_within E n \<Longrightarrow> io_within E (if b then m else n)"
  by simp

lemma io_within_when_do [io_within_rules]: "io_within E m \<Longrightarrow> io_within E (when_do b m)"
  by (simp add: when_do_def io_within_ret)

lemma io_within_case_prod [io_within_rules]:
  "(\<And>a b. io_within E (f a b)) \<Longrightarrow> io_within E (case p of (a, b) \<Rightarrow> f a b)"
  by (cases p) simp

lemma io_within_for_each [io_within_rules]:
  assumes "\<And>i. io_within E (body i)"
  shows "io_within E (for_each is body)"
  by (induction "is") (simp_all add: io_within_ret io_within_bind assms)

lemma io_within_poll_loop [io_within_rules]:
  assumes "\<And>v. io_within E (body v)" and "io_within E wait"
  shows "io_within E (poll_loop body ok wait n i v)"
  by (induction n arbitrary: i v)
    (simp_all add: io_within_ret io_within_bind io_within_if assms)

lemma io_within_wp:
  assumes "io_within E m"
    and "\<And>r es cs. list_all E es \<Longrightarrow> Q r (s\<lparr>hist := es @ hist s, console := cs @ console s\<rparr>)"
  shows "wp m Q s"
proof -
  obtain es cs where "list_all E es" "exec m s = s\<lparr>hist := es @ hist s, console := cs @ console s\<rparr>"
    using assms(1) by (rule io_withinE)
  then show ?thesis using assms(2) by (simp add: wp_def)
qed

text \<open>Register reads only.\<close>

fun is_read :: "event \<Rightarrow> bool" where
  "is_read (Rd a v) = True"
| "is_read _ = False"

lemma is_read_events:
  assumes "list_all is_read es"
  shows "writes es = []" and "delay_us es = 0" and "last_write (es @ h) a = last_write h a"
proof -
  have "list_all is_read es \<Longrightarrow> writes es = [] \<and> delay_us es = 0 \<and> last_write (es @ h) a = last_write h a" for es
  proof (induction es)
    case (Cons e es)
    then show ?case by (cases e) simp_all
  qed simp
  with assms show "writes es = []" and "delay_us es = 0" and "last_write (es @ h) a = last_write h a"
    by blast+
qed

text \<open>
  A state reached by adding events and console lines. The rules walk through a
  straight-line program and collect what it adds, each value read as a new
  variable.
\<close>

definition grown :: "'z io_scheme \<Rightarrow> event list \<Rightarrow> (string \<times> parg list) list \<Rightarrow> 'z io_scheme" where
  "grown s es cs = s\<lparr>hist := es @ hist s, console := cs @ console s\<rparr>"

named_theorems grown_rules \<open>walking through a program\<close>

lemma grown_start: "wp m Q (grown s [] []) \<Longrightarrow> wp m Q s"
  by (simp add: grown_def)

lemma grown_steps [grown_rules]:
  "wp m (\<lambda>r. wp (f r) Q) (grown s es cs) \<Longrightarrow> wp (State_Monad.bind m f) Q (grown s es cs)"
  "(\<And>v. R v (grown s (Rd a v # es) cs)) \<Longrightarrow> wp (readl P a) R (grown s es cs)"
  "U () (grown s (Wr a v # es) cs) \<Longrightarrow> wp (writel v a) U (grown s es cs)"
  "U () (grown s (Udelay n # es) cs) \<Longrightarrow> wp (udelay n) U (grown s es cs)"
  "U () (grown s (Udelay (1000 * n) # es) cs) \<Longrightarrow> wp (mdelay n) U (grown s es cs)"
  "U () (grown s es ((fmt, xs) # cs)) \<Longrightarrow> wp (printf fmt xs) U (grown s es cs)"
  "(b \<Longrightarrow> wp k U (grown s es cs)) \<Longrightarrow> (\<not> b \<Longrightarrow> U () (grown s es cs)) \<Longrightarrow> wp (when_do b k) U (grown s es cs)"
  by (auto simp: grown_def wp_readl)

text \<open>Any event at all.\<close>

definition io_only :: "('z io_scheme, 'a) state \<Rightarrow> bool" where
  "io_only m \<longleftrightarrow> io_within (\<lambda>_. True) m"

named_theorems io_only_rules \<open>programs that are io_only\<close>

lemma io_only_of_within: "io_within E m \<Longrightarrow> io_only m"
  unfolding io_only_def by (erule io_within_mono) simp

lemma io_only_basic [io_only_rules]:
  "io_only (ret x)" "io_only (gets f)" "io_only (emit e)" "io_only (printf fmt xs)"
  "io_only (readl P a)" "io_only (writel v a)" "io_only (udelay n)" "io_only (mdelay n)"
  "io_only (dcache_clean_invalidate_by_mva a k)" "io_only (dcache_invalidate_by_mva a k)"
  "io_only dsb_sy"
  unfolding io_only_def by (intro io_within_rules TrueI)+

lemma io_only_combine [io_only_rules]:
  "io_only m \<Longrightarrow> (\<And>x. io_only (f x)) \<Longrightarrow> io_only (State_Monad.bind m f)"
  "io_only m \<Longrightarrow> io_only n \<Longrightarrow> io_only (if b then m else n)"
  "io_only m' \<Longrightarrow> io_only (when_do b m')"
  "(\<And>a b. io_only (g a b)) \<Longrightarrow> io_only (case p of (a, b) \<Rightarrow> g a b)"
  "(\<And>i. io_only (body i)) \<Longrightarrow> io_only (for_each is body)"
  "(\<And>v. io_only (body' v)) \<Longrightarrow> io_only wait \<Longrightarrow> io_only (poll_loop body' ok wait k j v)"
  unfolding io_only_def by (intro io_within_rules; assumption)+

lemma io_only_exec:
  "io_only m \<Longrightarrow> \<exists>es cs. exec m s = s\<lparr>hist := es @ hist s, console := cs @ console s\<rparr>"
  unfolding io_only_def by (erule io_withinE) blast

lemma io_only_wp_frame:
  assumes "io_only m"
    and "\<And>r es cs. Q r (s\<lparr>hist := es @ hist s, console := cs @ console s\<rparr>)"
  shows "wp m Q s"
  using assms(1) unfolding io_only_def by (rule io_within_wp) (rule assms(2))

section \<open>Polling a register\<close>

text \<open>What a loop that polls register \<open>a\<close> every \<open>us\<close> microseconds sees.\<close>

definition reg_look :: "platform \<Rightarrow> u32 \<Rightarrow> event list \<Rightarrow> u32" where
  "reg_look P a h = bus_read P h a"

definition reg_looked :: "platform \<Rightarrow> u32 \<Rightarrow> event list \<Rightarrow> event list" where
  "reg_looked P a h = Rd a (bus_read P h a) # h"

definition polled :: "platform \<Rightarrow> u32 \<Rightarrow> nat \<Rightarrow> nat \<Rightarrow> event list \<Rightarrow> u32" where
  "polled P a us k h = reg_look P a (poll_view (reg_looked P a) ((#) (Udelay us)) k h)"

lemma readl_exec_result:
  "result (readl P a) s = bus_read P (hist s) a"
  "exec (readl P a) s = s\<lparr>hist := Rd a (bus_read P (hist s) a) # hist s\<rparr>"
  by (simp_all add: readl_def emit_def)

lemma udelay_exec: "exec (udelay n) s = s\<lparr>hist := Udelay n # hist s\<rparr>"
  by (simp add: udelay_def emit_def)

text \<open>The events of such a loop: reads of the register and the delays between them.\<close>

fun poll_events :: "u32 \<Rightarrow> nat \<Rightarrow> event list \<Rightarrow> bool" where
  "poll_events a us [] = True"
| "poll_events a us (Rd b v # es) = (b = a \<and> poll_events a us es)"
| "poll_events a us (Udelay n # es) = (n = us \<and> poll_events a us es)"
| "poll_events a us (_ # es) = False"

lemma poll_events_append [simp]:
  "poll_events a us (xs @ ys) = (poll_events a us xs \<and> poll_events a us ys)"
  by (induction a us xs rule: poll_events.induct) simp_all

lemma poll_events_writes: "poll_events a us es \<Longrightarrow> writes es = []"
  by (induction a us es rule: poll_events.induct) simp_all

lemma poll_events_last_write: "poll_events a us es \<Longrightarrow> last_write (es @ h) b = last_write h b"
  by (induction a us es rule: poll_events.induct) simp_all

lemma wp_poll_reg:
  assumes "\<And>i v es. poll_events a us es \<Longrightarrow> length (reads es) \<le> n \<Longrightarrow> delay_us es \<le> us * n \<Longrightarrow>
      i \<le> n \<Longrightarrow> (if i < n then ok v \<and> (\<exists>es'. es = Rd a v # es') else True) \<Longrightarrow>
      Q (i, v) (s\<lparr>hist := es @ hist s\<rparr>)"
  shows "wp (poll_loop (\<lambda>_. readl P a) ok (udelay us) n 0 v0) Q s"
proof (rule wp_poll_loop [where I = "\<lambda>j _ t. \<exists>es. t = s\<lparr>hist := es @ hist s\<rparr> \<and>
    poll_events a us es \<and> length (reads es) = j \<and> delay_us es = us * j"])
  show "\<exists>es. s = s\<lparr>hist := es @ hist s\<rparr> \<and> poll_events a us es \<and> length (reads es) = 0 \<and>
      delay_us es = us * 0"
    by (rule exI [of _ "[]"]) simp
next
  fix j :: nat and u and t :: "'a io_scheme"
  assume j: "j < 0 + n" and "\<exists>es. t = s\<lparr>hist := es @ hist s\<rparr> \<and> poll_events a us es \<and>
    length (reads es) = j \<and> delay_us es = us * j"
  then obtain es where es: "t = s\<lparr>hist := es @ hist s\<rparr>" "poll_events a us es"
    "length (reads es) = j" "delay_us es = us * j" by blast
  show "wp (readl P a) (\<lambda>u' t'. if ok u' then Q (j, u') t'
      else wp (udelay us) (\<lambda>_ t''. \<exists>es. t'' = s\<lparr>hist := es @ hist s\<rparr> \<and> poll_events a us es \<and>
        length (reads es) = Suc j \<and> delay_us es = us * Suc j) t') t"
  proof (rule wp_readlI)
    fix v
    let ?es = "Rd a v # es"
    show "if ok v then Q (j, v) (t\<lparr>hist := Rd a v # hist t\<rparr>)
      else wp (udelay us) (\<lambda>_ t''. \<exists>es. t'' = s\<lparr>hist := es @ hist s\<rparr> \<and> poll_events a us es \<and>
        length (reads es) = Suc j \<and> delay_us es = us * Suc j) (t\<lparr>hist := Rd a v # hist t\<rparr>)"
      using assms [of ?es j v] es j by (auto intro!: exI [of _ "Udelay us # ?es"] simp: mult_le_mono2)
  qed
next
  fix u and t :: "'a io_scheme"
  assume "\<exists>es. t = s\<lparr>hist := es @ hist s\<rparr> \<and> poll_events a us es \<and>
    length (reads es) = 0 + n \<and> delay_us es = us * (0 + n)"
  then show "Q (0 + n, u) t" using assms by fastforce
qed

section \<open>A silent environment\<close>

text \<open>
  An environment to run the code in: registers and memory read as 0, every
  allocation succeeds, addresses are physical, cache lines have 64 bytes.
\<close>

definition silent :: platform where
  "silent = \<lparr>bus_read = \<lambda>_ _. 0, mem_load = \<lambda>_ _. 0, memalign_ptr = \<lambda>_ _ _. 0x40000000,
     phys = \<lambda>a. a, line_bytes = 64, sysinfo_mac = \<lambda>_. 0\<rparr>"

definition boot_io :: io where
  "boot_io = \<lparr>hist = [], console = [], ub = False\<rparr>"

lemma silent_simps [simp]:
  "bus_read silent h a = 0" "mem_load silent h a = 0" "memalign_ptr silent h al n = 0x40000000"
  "phys silent a = a" "line_bytes silent = 64" "sysinfo_mac silent k = 0"
  by (simp_all add: silent_def)

end
