(* ===== verification/Ipq4019_Regs.thy ===== *)
theory Ipq4019_Regs
  imports Platform
begin

text \<open>
  The register map, bit fields and descriptor layouts of ipq4019.h, under the
  header's names. Register numbers, addresses and values are words of the width
  the driver uses them at; shift amounts and counts are naturals.
\<close>

text \<open>SoC block base addresses (gale / IPQ4019; see docs/hardware.md).\<close>
definition IPQ4019_EDMA_BASE :: "u32" where [simp]: "IPQ4019_EDMA_BASE = 0x0c080000"
definition IPQ4019_ESS_BASE :: "u32" where [simp]: "IPQ4019_ESS_BASE = 0x0c000000"
definition IPQ4019_PSGMII_BASE :: "u32" where [simp]: "IPQ4019_PSGMII_BASE = 0x00098000"
definition IPQ4019_MDIO_BASE :: "u32" where [simp]: "IPQ4019_MDIO_BASE = 0x00090000"
definition RGMII_TCSR_ESS_CFG :: "u32" where [simp]: "RGMII_TCSR_ESS_CFG = 0x01953000"

text \<open>MDIO controller (offsets from IPQ4019_MDIO_BASE).\<close>
definition MDIO_MODE_REG :: "u32" where [simp]: "MDIO_MODE_REG = 0x40"
definition MDIO_ADDR_REG :: "u32" where [simp]: "MDIO_ADDR_REG = 0x44"
definition MDIO_DATA_WRITE_REG :: "u32" where [simp]: "MDIO_DATA_WRITE_REG = 0x48"
definition MDIO_DATA_READ_REG :: "u32" where [simp]: "MDIO_DATA_READ_REG = 0x4c"
definition MDIO_CMD_REG :: "u32" where [simp]: "MDIO_CMD_REG = 0x50"
definition MDIO_CMD_ACCESS_BUSY :: "u32" where [simp]: "MDIO_CMD_ACCESS_BUSY = push_bit 16 1"
definition MDIO_CMD_ACCESS_START :: "u32" where [simp]: "MDIO_CMD_ACCESS_START = push_bit 8 1"
definition MDIO_CMD_ACCESS_CODE_READ :: "u32" where [simp]: "MDIO_CMD_ACCESS_CODE_READ = 0"
definition MDIO_CMD_ACCESS_CODE_WRITE :: "u32" where [simp]: "MDIO_CMD_ACCESS_CODE_WRITE = 1"
definition MDIO_MODE_C45 :: "u32" where [simp]: "MDIO_MODE_C45 = push_bit 8 1"

text \<open>ESS switch registers (offsets from IPQ4019_ESS_BASE).\<close>
definition ESS_PORTS_NUM :: "nat" where [simp]: "ESS_PORTS_NUM = 6"
definition ESS_RGMII_CTRL :: "u32" where [simp]: "ESS_RGMII_CTRL = 0x4"
definition ESS_GLOBAL_FW_CTRL1 :: "u32" where [simp]: "ESS_GLOBAL_FW_CTRL1 = 0x624"
definition ESS_PORT0_STATUS :: "u32" where [simp]: "ESS_PORT0_STATUS = 0x7c"
definition ESS_PORT_SPEED_MASK :: "u32" where [simp]: "ESS_PORT_SPEED_MASK = 0x3"
definition ESS_PORT_SPEED_1000 :: "u32" where [simp]: "ESS_PORT_SPEED_1000 = 3"
definition ESS_PORT_SPEED_100 :: "u32" where [simp]: "ESS_PORT_SPEED_100 = 2"
definition ESS_PORT_SPEED_10 :: "u32" where [simp]: "ESS_PORT_SPEED_10 = 1"
definition ESS_PORT_TXMAC_EN :: "u32" where [simp]: "ESS_PORT_TXMAC_EN = push_bit 2 1"
definition ESS_PORT_RXMAC_EN :: "u32" where [simp]: "ESS_PORT_RXMAC_EN = push_bit 3 1"
definition ESS_PORT_TX_FLOW_EN :: "u32" where [simp]: "ESS_PORT_TX_FLOW_EN = push_bit 4 1"
definition ESS_PORT_RX_FLOW_EN :: "u32" where [simp]: "ESS_PORT_RX_FLOW_EN = push_bit 5 1"
definition ESS_PORT_DUPLEX_MODE :: "u32" where [simp]: "ESS_PORT_DUPLEX_MODE = push_bit 6 1"
definition ESS_PORT_LOOKUP_CTRL :: "nat \<Rightarrow> u32" where [simp]: "ESS_PORT_LOOKUP_CTRL p = 0x660 + of_nat p * 12"
definition ESS_PORT_LOOP_BACK_EN :: "u32" where [simp]: "ESS_PORT_LOOP_BACK_EN = push_bit 21 1"
definition ESS_PORT_VID_MEM_MASK :: "u32" where [simp]: "ESS_PORT_VID_MEM_MASK = 0x7f"
definition ESS_PORT_HOL_CTRL0 :: "nat \<Rightarrow> u32" where [simp]: "ESS_PORT_HOL_CTRL0 p = 0x970 + of_nat p * 8"
definition ESS_PORT_HOL_CTRL1 :: "nat \<Rightarrow> u32" where [simp]: "ESS_PORT_HOL_CTRL1 p = 0x974 + of_nat p * 8"
definition ESS_ING_BUF_NUM_0_MASK :: "u32" where [simp]: "ESS_ING_BUF_NUM_0_MASK = 0xf"

text \<open>HOL_CTRL0 sub-fields (shifts).\<close>
definition EG_PORT_QUEUE_NUM_SHIFT :: "nat" where [simp]: "EG_PORT_QUEUE_NUM_SHIFT = 24"
definition EG_PRI5_QUEUE_NUM_SHIFT :: "nat" where [simp]: "EG_PRI5_QUEUE_NUM_SHIFT = 20"
definition EG_PRI4_QUEUE_NUM_SHIFT :: "nat" where [simp]: "EG_PRI4_QUEUE_NUM_SHIFT = 16"
definition EG_PRI3_QUEUE_NUM_SHIFT :: "nat" where [simp]: "EG_PRI3_QUEUE_NUM_SHIFT = 12"
definition EG_PRI2_QUEUE_NUM_SHIFT :: "nat" where [simp]: "EG_PRI2_QUEUE_NUM_SHIFT = 8"
definition EG_PRI1_QUEUE_NUM_SHIFT :: "nat" where [simp]: "EG_PRI1_QUEUE_NUM_SHIFT = 4"
definition EG_PRI0_QUEUE_NUM_SHIFT :: "nat" where [simp]: "EG_PRI0_QUEUE_NUM_SHIFT = 0"

text \<open>QCA807x PHY registers (clause 22 + MMD).\<close>
definition QCA807X_CHIP_CONFIGURATION :: "u8" where [simp]: "QCA807X_CHIP_CONFIGURATION = 0x1f"
definition QCA807X_MEDIA_PAGE_SELECT :: "u16" where [simp]: "QCA807X_MEDIA_PAGE_SELECT = push_bit 15 1"
definition QCA807X_POWER_DOWN :: "u16" where [simp]: "QCA807X_POWER_DOWN = push_bit 11 1"
definition QCA807X_FUNCTION_CONTROL :: "u8" where [simp]: "QCA807X_FUNCTION_CONTROL = 0x10"
definition QCA807X_MDI_CROSSOVER_MODE_MASK :: "u16" where [simp]: "QCA807X_MDI_CROSSOVER_MODE_MASK = push_bit 5 3"
definition QCA807X_MDI_CROSSOVER_MODE_MANUAL_MDI :: "u16" where [simp]: "QCA807X_MDI_CROSSOVER_MODE_MANUAL_MDI = 0"
definition QCA807X_POLARITY_REVERSAL :: "u16" where [simp]: "QCA807X_POLARITY_REVERSAL = push_bit 1 1"
definition QCA807X_PHY_SPECIFIC :: "u8" where [simp]: "QCA807X_PHY_SPECIFIC = 0x11"
definition QCA807X_PHY_SPECIFIC_LINK :: "u16" where [simp]: "QCA807X_PHY_SPECIFIC_LINK = push_bit 10 1"
definition QCA807X_MMD7_CRC_PACKET_COUNTER :: "u16" where [simp]: "QCA807X_MMD7_CRC_PACKET_COUNTER = 0x8029"
definition QCA807X_MMD7_PACKET_COUNTER_SELFCLR :: "u16" where [simp]: "QCA807X_MMD7_PACKET_COUNTER_SELFCLR = push_bit 1 1"
definition QCA807X_MMD7_CRC_PACKET_COUNTER_EN :: "u16" where [simp]: "QCA807X_MMD7_CRC_PACKET_COUNTER_EN = push_bit 0 1"
definition QCA807X_MMD7_VALID_EGRESS_COUNTER_2 :: "u16" where [simp]: "QCA807X_MMD7_VALID_EGRESS_COUNTER_2 = 0x802e"

text \<open>MMD device addresses.\<close>
definition MDIO_MMD_PMAPMD :: "u8" where [simp]: "MDIO_MMD_PMAPMD = 1"
definition MDIO_MMD_AN :: "u8" where [simp]: "MDIO_MMD_AN = 7"

text \<open>standard clause-22 regs.\<close>
definition MII_BMCR :: "u8" where [simp]: "MII_BMCR = 0x00"

text \<open>PSGMII calibration registers (offsets from IPQ4019_PSGMII_BASE).\<close>
definition PSGMIIPHY_VCO_CALIBRATION_CTRL_REGISTER_1 :: "u32" where [simp]: "PSGMIIPHY_VCO_CALIBRATION_CTRL_REGISTER_1 = 0x9c"
definition PSGMIIPHY_VCO_VAL :: "u32" where [simp]: "PSGMIIPHY_VCO_VAL = 0x4ada"
definition PSGMIIPHY_VCO_RST_VAL :: "u32" where [simp]: "PSGMIIPHY_VCO_RST_VAL = 0x0ada"
definition PSGMIIPHY_VCO_CALIBRATION_CTRL_REGISTER_2 :: "u32" where [simp]: "PSGMIIPHY_VCO_CALIBRATION_CTRL_REGISTER_2 = 0xa0"
definition PSGMIIPHY_PLL_VCO_RELATED_CTRL :: "u32" where [simp]: "PSGMIIPHY_PLL_VCO_RELATED_CTRL = 0x78c"
definition PSGMIIPHY_PLL_VCO_VAL :: "u32" where [simp]: "PSGMIIPHY_PLL_VCO_VAL = 0x2803"

text \<open>EDMA registers (offsets from IPQ4019_EDMA_BASE).\<close>
definition IPQ4019_EDMA_TX_RING_SIZE :: "nat" where [simp]: "IPQ4019_EDMA_TX_RING_SIZE = 8"
definition IPQ4019_EDMA_RSS_TYPE_NONE :: "u32" where [simp]: "IPQ4019_EDMA_RSS_TYPE_NONE = 0x1"
definition EDMA_TPD_EOP_SHIFT :: "nat" where [simp]: "EDMA_TPD_EOP_SHIFT = 31"
definition EDMA_TPD_PORT_BITMAP_SHIFT :: "nat" where [simp]: "EDMA_TPD_PORT_BITMAP_SHIFT = 18"
definition EDMA_PORT_ENABLE_ALL :: "u32" where [simp]: "EDMA_PORT_ENABLE_ALL = 0x3E"
definition EDMA_REG_RX_SW_CONS_IDX_Q :: "nat \<Rightarrow> u32" where [simp]: "EDMA_REG_RX_SW_CONS_IDX_Q x = 0x220 + push_bit 2 (of_nat x)"
definition EDMA_REG_TX_SW_CONS_IDX_Q :: "nat \<Rightarrow> u32" where [simp]: "EDMA_REG_TX_SW_CONS_IDX_Q x = 0x240 + push_bit 2 (of_nat x)"
definition EDMA_REG_TPD_IDX_Q :: "nat \<Rightarrow> u32" where [simp]: "EDMA_REG_TPD_IDX_Q x = 0x460 + push_bit 2 (of_nat x)"
definition EDMA_REG_TPD_RING_SIZE :: "u32" where [simp]: "EDMA_REG_TPD_RING_SIZE = 0x41C"
definition EDMA_TPD_RING_SIZE_MASK :: "u32" where [simp]: "EDMA_TPD_RING_SIZE_MASK = 0xFFFF"
definition EDMA_REG_TPD_BASE_ADDR_Q :: "nat \<Rightarrow> u32" where [simp]: "EDMA_REG_TPD_BASE_ADDR_Q x = 0x420 + push_bit 2 (of_nat x)"
definition EDMA_TPD_PROD_IDX_MASK :: "u32" where [simp]: "EDMA_TPD_PROD_IDX_MASK = 0xFFFF"
definition EDMA_TPD_CONS_IDX_SHIFT :: "nat" where [simp]: "EDMA_TPD_CONS_IDX_SHIFT = 16"
definition EDMA_TPD_CONS_IDX_MASK :: "u32" where [simp]: "EDMA_TPD_CONS_IDX_MASK = 0xFFFF"
definition EDMA_REG_TX_SRAM_PART :: "u32" where [simp]: "EDMA_REG_TX_SRAM_PART = 0x400"
definition EDMA_LOAD_PTR_SHIFT :: "nat" where [simp]: "EDMA_LOAD_PTR_SHIFT = 16"
definition EDMA_REG_TXQ_CTRL :: "u32" where [simp]: "EDMA_REG_TXQ_CTRL = 0x404"
definition EDMA_TXQ_CTRL_TXQ_EN :: "u32" where [simp]: "EDMA_TXQ_CTRL_TXQ_EN = 0x20"
definition EDMA_TXQ_CTRL_TPD_BURST_EN :: "u32" where [simp]: "EDMA_TXQ_CTRL_TPD_BURST_EN = 0x100"
definition EDMA_TXQ_NUM_TPD_BURST_SHIFT :: "nat" where [simp]: "EDMA_TXQ_NUM_TPD_BURST_SHIFT = 0"
definition EDMA_TXQ_TXF_BURST_NUM_SHIFT :: "nat" where [simp]: "EDMA_TXQ_TXF_BURST_NUM_SHIFT = 16"
definition EDMA_TXF_BURST :: "u32" where [simp]: "EDMA_TXF_BURST = 0x100"
definition EDMA_TPD_BURST :: "u32" where [simp]: "EDMA_TPD_BURST = 5"
definition EDMA_REG_TXF_WATER_MARK :: "u32" where [simp]: "EDMA_REG_TXF_WATER_MARK = 0x408"
definition EDMA_REG_RSS_TYPE :: "u32" where [simp]: "EDMA_REG_RSS_TYPE = 0x894"
definition EDMA_REG_RFD_BASE_ADDR_Q :: "nat \<Rightarrow> u32" where [simp]: "EDMA_REG_RFD_BASE_ADDR_Q x = 0x950 + push_bit 2 (of_nat x)"
definition EDMA_RFD_BURST :: "u32" where [simp]: "EDMA_RFD_BURST = 8"
definition EDMA_RFD_THR :: "u32" where [simp]: "EDMA_RFD_THR = 16"
definition EDMA_RFD_LTHR :: "u32" where [simp]: "EDMA_RFD_LTHR = 0"
definition EDMA_REG_RFD_IDX_Q :: "nat \<Rightarrow> u32" where [simp]: "EDMA_REG_RFD_IDX_Q x = 0x9B0 + push_bit 2 (of_nat x)"
definition EDMA_RFD_CONS_IDX_SHIFT :: "nat" where [simp]: "EDMA_RFD_CONS_IDX_SHIFT = 16"
definition EDMA_RFD_CONS_IDX_MASK :: "u32" where [simp]: "EDMA_RFD_CONS_IDX_MASK = 0xFFF"
definition EDMA_REG_RX_DESC0 :: "u32" where [simp]: "EDMA_REG_RX_DESC0 = 0xA10"
definition EDMA_RFD_RING_SIZE_MASK :: "u32" where [simp]: "EDMA_RFD_RING_SIZE_MASK = 0xFFF"
definition EDMA_RX_BUF_SIZE_MASK :: "u32" where [simp]: "EDMA_RX_BUF_SIZE_MASK = 0xFFFF"
definition EDMA_RFD_RING_SIZE_SHIFT :: "nat" where [simp]: "EDMA_RFD_RING_SIZE_SHIFT = 0"
definition EDMA_RX_BUF_SIZE_SHIFT :: "nat" where [simp]: "EDMA_RX_BUF_SIZE_SHIFT = 16"
definition EDMA_REG_RX_DESC1 :: "u32" where [simp]: "EDMA_REG_RX_DESC1 = 0xA14"
definition EDMA_RXQ_RFD_BURST_NUM_SHIFT :: "nat" where [simp]: "EDMA_RXQ_RFD_BURST_NUM_SHIFT = 0"
definition EDMA_RXQ_RFD_PF_THRESH_SHIFT :: "nat" where [simp]: "EDMA_RXQ_RFD_PF_THRESH_SHIFT = 8"
definition EDMA_RXQ_RFD_LOW_THRESH_SHIFT :: "nat" where [simp]: "EDMA_RXQ_RFD_LOW_THRESH_SHIFT = 16"
definition EDMA_REG_RXQ_CTRL :: "u32" where [simp]: "EDMA_REG_RXQ_CTRL = 0xA18"
definition EDMA_FIFO_THRESH_128_BYTE :: "u32" where [simp]: "EDMA_FIFO_THRESH_128_BYTE = 0x0"
definition EDMA_RXQ_CTRL_RMV_VLAN :: "u32" where [simp]: "EDMA_RXQ_CTRL_RMV_VLAN = 0x00000002"
definition EDMA_RXQ_CTRL_EN :: "u32" where [simp]: "EDMA_RXQ_CTRL_EN = 0x0000FF00"
definition REG_MAC_CTRL0 :: "u32" where [simp]: "REG_MAC_CTRL0 = 0xC20"
definition REG_MAC_CTRL1 :: "u32" where [simp]: "REG_MAC_CTRL1 = 0xC24"

text \<open>RSS indirection (disabled but must be written).\<close>
definition EDMA_REG_RSS_IDT :: "nat \<Rightarrow> u32" where [simp]: "EDMA_REG_RSS_IDT x = 0x840 + push_bit 2 (of_nat x)"
definition EDMA_NUM_IDT :: "nat" where [simp]: "EDMA_NUM_IDT = 16"
definition EDMA_RSS_IDT_VALUE :: "u32" where [simp]: "EDMA_RSS_IDT_VALUE = 0x64206420"

text \<open>descriptors.\<close>
definition EDMA_RRD7_DESC_VALID :: "u16" where [simp]: "EDMA_RRD7_DESC_VALID = push_bit 15 1"

text \<open>PHY topology (QCA8075): 5 port PHYs at MDIO 0..4, PSGMII PHY at 5.\<close>
definition IPQ4019_PHY_PSGMII_ADDR :: "u8" where [simp]: "IPQ4019_PHY_PSGMII_ADDR = 5"
definition IPQ4019_NUM_PORT_PHY :: "nat" where [simp]: "IPQ4019_NUM_PORT_PHY = 5"

section \<open>Receive return descriptor\<close>

text \<open>
  The hardware puts a packed 16-byte descriptor of eight little-endian halfwords
  in front of each received frame.
\<close>

record edma_rrd =
  rrd0 :: u16
  rrd1 :: u16
  rrd2 :: u16
  rrd3 :: u16
  rrd4 :: u16
  rrd5 :: u16
  rrd6 :: u16
  rrd7 :: u16

definition EDMA_RRD_SIZE :: nat where [simp]: "EDMA_RRD_SIZE = 16"

definition halfword :: "(nat \<Rightarrow> u8) \<Rightarrow> nat \<Rightarrow> u16" where
  "halfword m k = ucast (m k) OR push_bit 8 (ucast (m (k + 1)))"

text \<open>\<open>(edma_rrd *)rx_pkt\<close>: the descriptor in the bytes at a buffer's start.\<close>

definition load_rrd :: "(nat \<Rightarrow> u8) \<Rightarrow> edma_rrd" where
  "load_rrd m = \<lparr>rrd0 = halfword m 0, rrd1 = halfword m 2, rrd2 = halfword m 4,
     rrd3 = halfword m 6, rrd4 = halfword m 8, rrd5 = halfword m 10,
     rrd6 = halfword m 12, rrd7 = halfword m 14\<rparr>"

definition halfword_bytes :: "u16 \<Rightarrow> u8 list" where
  "halfword_bytes h = [ucast h, ucast (drop_bit 8 h)]"

text \<open>The 16 bytes the hardware stores for a descriptor.\<close>

definition rrd_bytes :: "edma_rrd \<Rightarrow> u8 list" where
  "rrd_bytes r = concat (map halfword_bytes
     [rrd0 r, rrd1 r, rrd2 r, rrd3 r, rrd4 r, rrd5 r, rrd6 r, rrd7 r])"

lemma halfword_halfword_bytes:
  "ucast (ucast h :: u8) OR push_bit 8 (ucast (ucast (drop_bit 8 h) :: u8)) = (h :: u16)"
  by (rule bit_word_eqI) (auto simp: bit_simps)

lemma length_rrd_bytes [simp]: "length (rrd_bytes r) = EDMA_RRD_SIZE"
  by (simp add: rrd_bytes_def halfword_bytes_def)

lemma load_rrd_cong:
  assumes "\<And>k. k < 16 \<Longrightarrow> m k = m' k"
  shows "load_rrd m = load_rrd m'"
  using assms by (simp add: load_rrd_def halfword_def)

end
