(* ===== verification/Ipq4019_Mdio.thy ===== *)
theory Ipq4019_Mdio
  imports Ipq4019_Regs
begin

text \<open>
  ipq4019_mdio.c: the MDIO controller (clause 22), MMD access tunnelled over it
  (clause 45 indirect) and the controller's initialisation.

  The functions are followed by the bounded-polling interface every hardware
  wait of the driver is an instance of, by what each function does on every
  branch, and by a refinement: the register writes of a call are read as the
  frames the controller puts on the wire, and the frames are run on the
  PHY-side register file that the comment at ipq4019_mdio.c:66 describes.
\<close>

section \<open>The code\<close>

definition MDIO_BUSY_TIMEOUT_US :: nat where [simp]: "MDIO_BUSY_TIMEOUT_US = 100000"
definition MDIO_POLL_US :: nat where [simp]: "MDIO_POLL_US = 10"

definition mdio_base :: u32 where [simp]: "mdio_base = IPQ4019_MDIO_BASE"

definition mdio_wait_busy :: "platform \<Rightarrow> ('z io_scheme, int) state" where
  "mdio_wait_busy P = do {
     (i, v) \<leftarrow> poll_loop (\<lambda>_. readl P (mdio_base + MDIO_CMD_REG))
       (\<lambda>v. v AND MDIO_CMD_ACCESS_BUSY = 0) (udelay MDIO_POLL_US)
       (MDIO_BUSY_TIMEOUT_US div MDIO_POLL_US) 0 0;
     if i < MDIO_BUSY_TIMEOUT_US div MDIO_POLL_US then ret 0
     else do { printf ''ipq4019_mdio: busy timeout'' []; ret (- 1) } }"

text \<open>
  The out parameter \<open>*val\<close> is passed in and returned beside the return code:
  on an error it is what the caller had in it.
\<close>

definition ipq4019_mdio_read ::
  "platform \<Rightarrow> u8 \<Rightarrow> u8 \<Rightarrow> u16 \<Rightarrow> ('z io_scheme, int \<times> u16) state" where
  "ipq4019_mdio_read P phy reg val = do {
     rc \<leftarrow> mdio_wait_busy P;
     if rc \<noteq> 0 then ret (- 1, val)
     else do {
       writel (push_bit 8 (ucast phy) OR ucast reg) (mdio_base + MDIO_ADDR_REG);
       writel (MDIO_CMD_ACCESS_START OR MDIO_CMD_ACCESS_CODE_READ) (mdio_base + MDIO_CMD_REG);
       rc \<leftarrow> mdio_wait_busy P;
       if rc \<noteq> 0 then ret (- 1, val)
       else do {
         v \<leftarrow> readl P (mdio_base + MDIO_DATA_READ_REG);
         ret (0, ucast (v AND 0xffff)) } } }"

definition ipq4019_mdio_write ::
  "platform \<Rightarrow> u8 \<Rightarrow> u8 \<Rightarrow> u16 \<Rightarrow> ('z io_scheme, int) state" where
  "ipq4019_mdio_write P phy reg val = do {
     rc \<leftarrow> mdio_wait_busy P;
     if rc \<noteq> 0 then ret (- 1)
     else do {
       writel (push_bit 8 (ucast phy) OR ucast reg) (mdio_base + MDIO_ADDR_REG);
       writel (ucast val) (mdio_base + MDIO_DATA_WRITE_REG);
       writel (MDIO_CMD_ACCESS_START OR MDIO_CMD_ACCESS_CODE_WRITE) (mdio_base + MDIO_CMD_REG);
       mdio_wait_busy P } }"

definition MII_MMD_CTRL :: u8 where [simp]: "MII_MMD_CTRL = 0x0d"
definition MII_MMD_DATA :: u8 where [simp]: "MII_MMD_DATA = 0x0e"
definition MMD_CTRL_DATA :: u16 where [simp]: "MMD_CTRL_DATA = 0x4000"

definition ipq4019_phy_read_mmd ::
  "platform \<Rightarrow> u8 \<Rightarrow> u8 \<Rightarrow> u16 \<Rightarrow> ('z io_scheme, u16) state" where
  "ipq4019_phy_read_mmd P phy devad reg = do {
     _ \<leftarrow> ipq4019_mdio_write P phy MII_MMD_CTRL (ucast devad);
     _ \<leftarrow> ipq4019_mdio_write P phy MII_MMD_DATA reg;
     _ \<leftarrow> ipq4019_mdio_write P phy MII_MMD_CTRL (MMD_CTRL_DATA OR ucast devad);
     (_, v) \<leftarrow> ipq4019_mdio_read P phy MII_MMD_DATA 0;
     ret v }"

definition ipq4019_phy_write_mmd ::
  "platform \<Rightarrow> u8 \<Rightarrow> u8 \<Rightarrow> u16 \<Rightarrow> u16 \<Rightarrow> ('z io_scheme, unit) state" where
  "ipq4019_phy_write_mmd P phy devad reg val = do {
     _ \<leftarrow> ipq4019_mdio_write P phy MII_MMD_CTRL (ucast devad);
     _ \<leftarrow> ipq4019_mdio_write P phy MII_MMD_DATA reg;
     _ \<leftarrow> ipq4019_mdio_write P phy MII_MMD_CTRL (MMD_CTRL_DATA OR ucast devad);
     _ \<leftarrow> ipq4019_mdio_write P phy MII_MMD_DATA val;
     ret () }"

definition MDIO_MODE_DIV_MASK :: u32 where [simp]: "MDIO_MODE_DIV_MASK = 0xff"
definition MDIO_MODE_DIV_64 :: u32 where [simp]: "MDIO_MODE_DIV_64 = 0x3f"

definition ipq4019_mdio_init :: "platform \<Rightarrow> ('z io_scheme, unit) state" where
  "ipq4019_mdio_init P = do {
     mode_pre \<leftarrow> readl P (mdio_base + MDIO_MODE_REG);
     cmd_pre \<leftarrow> readl P (mdio_base + MDIO_CMD_REG);
     printf ''ipq4019_mdio: MDIO_MODE pre  = 0x%08x  CMD pre  = 0x%08x'' [Num mode_pre, Num cmd_pre];
     let mode_new = (mode_pre AND NOT (MDIO_MODE_C45 OR MDIO_MODE_DIV_MASK)) OR MDIO_MODE_DIV_64;
     writel mode_new (mdio_base + MDIO_MODE_REG);
     mode_post \<leftarrow> readl P (mdio_base + MDIO_MODE_REG);
     printf ''ipq4019_mdio: MDIO_MODE want = 0x%08x  post = 0x%08x  %s''
       [Num mode_new, Num mode_post,
        Str (if mode_post = mode_new then ''MATCHES''
             else if mode_post = 0xffffffff then ''all-1s (bus fault?)''
             else if mode_post = 0 then ''all-0s (controller dead?)'' else ''MISMATCH'')];
     writel 0x1234 (mdio_base + MDIO_ADDR_REG);
     addr_back \<leftarrow> readl P (mdio_base + MDIO_ADDR_REG);
     printf ''ipq4019_mdio: MDIO_ADDR write=0x1234 read=0x%08x  %s''
       [Num addr_back, Str (if addr_back = 0x1234 then ''MATCHES'' else ''MISMATCH'')] }"

section \<open>The wait for the controller\<close>

interpretation mdio_poll: polling
  "\<lambda>_. readl P (mdio_base + MDIO_CMD_REG)" "\<lambda>v. v AND MDIO_CMD_ACCESS_BUSY = 0"
  "udelay MDIO_POLL_US :: ('z io_scheme, unit) state" hist
  "reg_look P (mdio_base + MDIO_CMD_REG)" "reg_looked P (mdio_base + MDIO_CMD_REG)"
  "(#) (Udelay MDIO_POLL_US)" for P
  by unfold_locales
    (simp_all add: readl_exec_result udelay_exec reg_look_def reg_looked_def)


text \<open>
  The controller finishes what it is doing within the poll budget: one of the
  10000 polls that start with history \<open>h\<close> finds BUSY clear.
\<close>

definition mdio_idle :: "platform \<Rightarrow> event list \<Rightarrow> bool" where
  "mdio_idle P h \<longleftrightarrow> (\<exists>k < MDIO_BUSY_TIMEOUT_US div MDIO_POLL_US.
     polled P (mdio_base + MDIO_CMD_REG) MDIO_POLL_US k h AND MDIO_CMD_ACCESS_BUSY = 0)"

text \<open>The controller always finishes: the device never hangs.\<close>

definition mdio_responsive :: "platform \<Rightarrow> bool" where
  "mdio_responsive P \<longleftrightarrow> (\<forall>h. mdio_idle P h)"

lemma mdio_wait_busy_rc:
  "result (mdio_wait_busy P) s = (if mdio_idle P (hist s) then 0 else - 1)"
  using mdio_poll.success_iff [of P "MDIO_BUSY_TIMEOUT_US div MDIO_POLL_US" 0 0 s]
  by (simp add: mdio_wait_busy_def mdio_idle_def polled_def case_prod_beta)

text \<open>A wait only polls the command register and delays, for at most 100 ms.\<close>

lemma wp_mdio_wait_busy:
  assumes "\<And>es cs. poll_events (mdio_base + MDIO_CMD_REG) MDIO_POLL_US es \<Longrightarrow>
      length (reads es) \<le> 10000 \<Longrightarrow> delay_us es \<le> 100000 \<Longrightarrow>
      Q (if mdio_idle P (hist s) then 0 else - 1) (s\<lparr>hist := es @ hist s, console := cs @ console s\<rparr>)"
  shows "wp (mdio_wait_busy P) Q s"
proof -
  have "wp (mdio_wait_busy P) (\<lambda>_ t. \<exists>es cs. t = s\<lparr>hist := es @ hist s, console := cs @ console s\<rparr> \<and>
     poll_events (mdio_base + MDIO_CMD_REG) MDIO_POLL_US es \<and>
     length (reads es) \<le> 10000 \<and> delay_us es \<le> 100000) s" (is "wp _ (\<lambda>_. ?post) s")
    unfolding mdio_wait_busy_def wp_bind
  proof (rule wp_poll_reg)
    fix i v es
    assume es: "poll_events (mdio_base + MDIO_CMD_REG) MDIO_POLL_US es"
      "length (reads es) \<le> MDIO_BUSY_TIMEOUT_US div MDIO_POLL_US"
      "delay_us es \<le> MDIO_POLL_US * (MDIO_BUSY_TIMEOUT_US div MDIO_POLL_US)"
    have "?post (s\<lparr>hist := es @ hist s\<rparr>)"
      using es by (intro exI [of _ es] exI [of _ "[]"]) simp
    moreover have "?post (s\<lparr>hist := es @ hist s, console := (''ipq4019_mdio: busy timeout'', []) # console s\<rparr>)"
      using es by (intro exI [of _ es] exI [of _ "[(''ipq4019_mdio: busy timeout'', [])]"]) simp
    ultimately show "wp (case (i, v) of (i, v) \<Rightarrow>
        if i < MDIO_BUSY_TIMEOUT_US div MDIO_POLL_US then ret 0
        else do { printf ''ipq4019_mdio: busy timeout'' []; ret (- 1) }) (\<lambda>_. ?post)
        (s\<lparr>hist := es @ hist s\<rparr>)"
      by simp
  qed
  then show ?thesis using assms by (auto simp: wp_def mdio_wait_busy_rc)
qed

section \<open>Frames\<close>

text \<open>
  What the controller puts on the MDIO wire: a command with START set sends a
  frame made of the address register and, for a write, the data register.
\<close>

datatype mdio_frame = MdioRead u8 u8 | MdioWrite u8 u8 u16

definition latched :: "event list \<Rightarrow> u32 \<Rightarrow> u32" where
  "latched h a = (case last_write h a of None \<Rightarrow> 0 | Some v \<Rightarrow> v)"

definition mdio_frame_of :: "event list \<Rightarrow> u32 \<Rightarrow> mdio_frame" where
  "mdio_frame_of h cmd =
    (let adr = latched h (mdio_base + MDIO_ADDR_REG);
         phy = ucast (drop_bit 8 adr); reg = ucast adr
     in if cmd AND MDIO_CMD_ACCESS_CODE_WRITE \<noteq> 0
        then MdioWrite phy reg (ucast (latched h (mdio_base + MDIO_DATA_WRITE_REG)))
        else MdioRead phy reg)"

fun mdio_frames :: "event list \<Rightarrow> mdio_frame list" where
  "mdio_frames [] = []"
| "mdio_frames (Wr a v # es) = mdio_frames es @
    (if a = mdio_base + MDIO_CMD_REG \<and> v AND MDIO_CMD_ACCESS_START \<noteq> 0 then [mdio_frame_of es v] else [])"
| "mdio_frames (_ # es) = mdio_frames es"

lemma mdio_frames_other:
  "mdio_base + MDIO_CMD_REG \<notin> fst ` set (writes es) \<Longrightarrow> mdio_frames (es @ h) = mdio_frames h"
proof (induction es)
  case (Cons e es)
  then show ?case by (cases e) auto
qed simp

lemma mdio_frames_quiet: "poll_events a us es \<Longrightarrow> mdio_frames (es @ h) = mdio_frames h"
  by (induction a us es rule: poll_events.induct) simp_all

text \<open>
  A clause-22 transaction: nothing is sent if the controller is stuck before it;
  otherwise exactly one frame, and the return code says whether the controller
  finished it (\<open>h1\<close> is the history right after the command).
\<close>

lemma last_write_poll [simp]:
  "poll_events a us es \<Longrightarrow> last_write (es @ h) b = last_write h b"
  by (rule poll_events_last_write)

lemma wp_mdio_write:
  assumes stuck: "\<And>es cs. \<not> mdio_idle P (hist s) \<Longrightarrow> writes es = [] \<Longrightarrow>
      mdio_frames (es @ hist s) = mdio_frames (hist s) \<Longrightarrow>
      Q (- 1) (s\<lparr>hist := es @ hist s, console := cs @ console s\<rparr>)"
    and sent: "\<And>es cs h1. mdio_idle P (hist s) \<Longrightarrow>
      mdio_frames (es @ hist s) = mdio_frames (hist s) @ [MdioWrite phy reg val] \<Longrightarrow>
      Q (if mdio_idle P h1 then 0 else - 1) (s\<lparr>hist := es @ hist s, console := cs @ console s\<rparr>)"
  shows "wp (ipq4019_mdio_write P phy reg val) Q s"
  unfolding ipq4019_mdio_write_def wp_bind
proof (rule wp_mdio_wait_busy)
  fix es cs
  assume es: "poll_events (mdio_base + MDIO_CMD_REG) MDIO_POLL_US es"
  let ?s1 = "s\<lparr>hist := es @ hist s, console := cs @ console s\<rparr>"
  let ?a = "push_bit 8 (ucast phy) OR ucast reg :: u32"
  let ?tx = "[Wr (mdio_base + MDIO_CMD_REG) (MDIO_CMD_ACCESS_START OR MDIO_CMD_ACCESS_CODE_WRITE),
    Wr (mdio_base + MDIO_DATA_WRITE_REG) (ucast val), Wr (mdio_base + MDIO_ADDR_REG) ?a]"
  have q: "mdio_frames (es @ hist s) = mdio_frames (hist s)" using es by (rule mdio_frames_quiet)
  have f: "mdio_frames (?tx @ es @ hist s) = mdio_frames (hist s) @ [MdioWrite phy reg val]"
    using q by (simp add: mdio_frame_of_def latched_def Let_def)
  have "wp (mdio_wait_busy P) Q (s\<lparr>hist := ?tx @ es @ hist s, console := cs @ console s\<rparr>)"
    if i: "mdio_idle P (hist s)"
  proof (rule wp_mdio_wait_busy)
    fix es' cs'
    assume "poll_events (mdio_base + MDIO_CMD_REG) MDIO_POLL_US es'"
    then have "mdio_frames (es' @ ?tx @ es @ hist s) = mdio_frames (hist s) @ [MdioWrite phy reg val]"
      using f by (simp only: mdio_frames_quiet)
    then show "Q (if mdio_idle P (hist (s\<lparr>hist := ?tx @ es @ hist s, console := cs @ console s\<rparr>)) then 0 else - 1)
        (s\<lparr>hist := ?tx @ es @ hist s, console := cs @ console s,
           hist := es' @ hist (s\<lparr>hist := ?tx @ es @ hist s, console := cs @ console s\<rparr>),
           console := cs' @ console (s\<lparr>hist := ?tx @ es @ hist s, console := cs @ console s\<rparr>)\<rparr>)"
      using sent [OF i, of "es' @ ?tx @ es" "?tx @ es @ hist s" "cs' @ cs"] by simp
  qed
  then show "wp (if (if mdio_idle P (hist s) then 0 else - 1 :: int) \<noteq> 0 then ret (- 1)
      else do {
        writel ?a (mdio_base + MDIO_ADDR_REG);
        writel (ucast val) (mdio_base + MDIO_DATA_WRITE_REG);
        writel (MDIO_CMD_ACCESS_START OR MDIO_CMD_ACCESS_CODE_WRITE) (mdio_base + MDIO_CMD_REG);
        mdio_wait_busy P }) Q ?s1"
    using stuck [of es cs] q poll_events_writes [OF es] by simp
qed

lemma wp_mdio_read:
  assumes stuck: "\<And>es cs. \<not> mdio_idle P (hist s) \<Longrightarrow> writes es = [] \<Longrightarrow>
      mdio_frames (es @ hist s) = mdio_frames (hist s) \<Longrightarrow>
      Q (- 1, val) (s\<lparr>hist := es @ hist s, console := cs @ console s\<rparr>)"
    and hung: "\<And>es cs h1. mdio_idle P (hist s) \<Longrightarrow> \<not> mdio_idle P h1 \<Longrightarrow>
      mdio_frames (es @ hist s) = mdio_frames (hist s) @ [MdioRead phy reg] \<Longrightarrow>
      Q (- 1, val) (s\<lparr>hist := es @ hist s, console := cs @ console s\<rparr>)"
    and got: "\<And>es cs h1 d. mdio_idle P (hist s) \<Longrightarrow> mdio_idle P h1 \<Longrightarrow>
      mdio_frames (es @ hist s) = mdio_frames (hist s) @ [MdioRead phy reg] \<Longrightarrow>
      d = bus_read P (es @ hist s) (mdio_base + MDIO_DATA_READ_REG) \<Longrightarrow>
      Q (0, ucast d) (s\<lparr>hist := Rd (mdio_base + MDIO_DATA_READ_REG) d # es @ hist s,
        console := cs @ console s\<rparr>)"
  shows "wp (ipq4019_mdio_read P phy reg val) Q s"
  unfolding ipq4019_mdio_read_def wp_bind
proof (rule wp_mdio_wait_busy)
  fix es cs
  assume es: "poll_events (mdio_base + MDIO_CMD_REG) MDIO_POLL_US es"
  let ?s1 = "s\<lparr>hist := es @ hist s, console := cs @ console s\<rparr>"
  let ?a = "push_bit 8 (ucast phy) OR ucast reg :: u32"
  let ?tx = "[Wr (mdio_base + MDIO_CMD_REG) (MDIO_CMD_ACCESS_START OR MDIO_CMD_ACCESS_CODE_READ),
    Wr (mdio_base + MDIO_ADDR_REG) ?a]"
  let ?fin = "\<lambda>rc :: int. if rc \<noteq> 0 then ret (- 1, val) else do {
          v \<leftarrow> readl P (mdio_base + MDIO_DATA_READ_REG);
          ret (0, ucast (v AND 0xffff)) }"
  have q: "mdio_frames (es @ hist s) = mdio_frames (hist s)" using es by (rule mdio_frames_quiet)
  have f: "mdio_frames (?tx @ es @ hist s) = mdio_frames (hist s) @ [MdioRead phy reg]"
    using q by (simp add: mdio_frame_of_def latched_def Let_def)
  have "wp (mdio_wait_busy P) (\<lambda>rc. wp (?fin rc) Q)
      (s\<lparr>hist := ?tx @ es @ hist s, console := cs @ console s\<rparr>)"
    if i: "mdio_idle P (hist s)"
  proof (rule wp_mdio_wait_busy)
    fix es' cs'
    let ?s2 = "s\<lparr>hist := ?tx @ es @ hist s, console := cs @ console s\<rparr>"
    assume "poll_events (mdio_base + MDIO_CMD_REG) MDIO_POLL_US es'"
    then have "mdio_frames (es' @ ?tx @ es @ hist s) = mdio_frames (hist s) @ [MdioRead phy reg]"
      using f by (simp only: mdio_frames_quiet)
    then show "wp (?fin (if mdio_idle P (hist ?s2) then 0 else - 1)) Q
        (?s2\<lparr>hist := es' @ hist ?s2, console := cs' @ console ?s2\<rparr>)"
      using hung [OF i, of "?tx @ es @ hist s" "es' @ ?tx @ es" "cs' @ cs"]
        got [OF i, of "?tx @ es @ hist s" "es' @ ?tx @ es" _ "cs' @ cs"]
      by (simp add: wp_readl)
  qed
  then show "wp (if (if mdio_idle P (hist s) then 0 else - 1 :: int) \<noteq> 0 then ret (- 1, val)
      else do {
        writel ?a (mdio_base + MDIO_ADDR_REG);
        writel (MDIO_CMD_ACCESS_START OR MDIO_CMD_ACCESS_CODE_READ) (mdio_base + MDIO_CMD_REG);
        rc \<leftarrow> mdio_wait_busy P;
        ?fin rc }) Q ?s1"
    using stuck [of es cs] q poll_events_writes [OF es] by simp
qed

section \<open>What each access does\<close>

lemma io_only_mdio [io_only_rules]:
  "io_only (mdio_wait_busy P)"
  "io_only (ipq4019_mdio_write P phy reg val)"
  "io_only (ipq4019_mdio_read P phy reg val)"
  "io_only (ipq4019_phy_read_mmd P phy devad reg')"
  "io_only (ipq4019_phy_write_mmd P phy devad reg' val)"
  "io_only (ipq4019_mdio_init P)"
proof -
  show 1: "io_only (mdio_wait_busy P)"
    unfolding mdio_wait_busy_def by (intro io_only_rules)
  show 2: "io_only (ipq4019_mdio_write P phy reg val)" for phy reg val
    unfolding ipq4019_mdio_write_def by (intro io_only_rules 1)
  show 3: "io_only (ipq4019_mdio_read P phy reg val)" for phy reg val
    unfolding ipq4019_mdio_read_def by (intro io_only_rules 1)
  show "io_only (ipq4019_phy_read_mmd P phy devad reg')"
    unfolding ipq4019_phy_read_mmd_def by (intro io_only_rules 2 3)
  show "io_only (ipq4019_phy_write_mmd P phy devad reg' val)"
    unfolding ipq4019_phy_write_mmd_def by (intro io_only_rules 2 3)
  show "io_only (ipq4019_mdio_init P)"
    unfolding ipq4019_mdio_init_def Let_def by (intro io_only_rules 2 3)
qed

text \<open>
  C30: \<open>mdio_wait_busy\<close> always returns, after at most 10000 polls and 100 ms of
  delays and without writing a register; it returns 0 exactly when one of the
  10000 polls finds the BUSY bit (bit 16 of the command register) clear, and -1
  otherwise.
\<close>

theorem mdio_wait_busy_spec:
  "result (mdio_wait_busy P) w =
      (if \<exists>k<10000. \<not> bit (polled P 0x90050 10 k (hist w)) 16 then 0 else - 1) \<and>
   (\<exists>es cs. exec (mdio_wait_busy P) w = w\<lparr>hist := es @ hist w, console := cs @ console w\<rparr> \<and>
      length (reads es) \<le> 10000 \<and> delay_us es \<le> 100000 \<and> writes es = [])"
proof -
  have bit16: "(v AND 0x10000 = 0) = (\<not> bit v 16)" for v :: u32
    using and_exp_eq_0_iff_not_bit [of v 16] by simp
  have "wp (mdio_wait_busy P) (\<lambda>r t. r = (if mdio_idle P (hist w) then 0 else - 1) \<and>
      (\<exists>es cs. t = w\<lparr>hist := es @ hist w, console := cs @ console w\<rparr> \<and>
        length (reads es) \<le> 10000 \<and> delay_us es \<le> 100000 \<and> writes es = [])) w"
    by (rule wp_mdio_wait_busy) (use poll_events_writes in blast)
  then show ?thesis by (simp add: wp_def mdio_idle_def bit16)
qed

text \<open>
  A write sends nothing and fails if the controller is stuck, and otherwise
  sends exactly the write frame for its arguments, succeeding if the controller
  finishes it.
\<close>

theorem mdio_write_spec:
  "let rc = result (ipq4019_mdio_write P phy reg val) w;
       w' = exec (ipq4019_mdio_write P phy reg val) w
   in mdio_frames (hist w') = mdio_frames (hist w) @
        (if mdio_idle P (hist w) then [MdioWrite phy reg val] else []) \<and>
      (\<exists>h1. rc = (if mdio_idle P (hist w) \<and> mdio_idle P h1 then 0 else - 1)) \<and>
      (\<exists>es cs. w' = w\<lparr>hist := es @ hist w, console := cs @ console w\<rparr>)"
proof -
  have "wp (ipq4019_mdio_write P phy reg val) (\<lambda>rc t.
      mdio_frames (hist t) = mdio_frames (hist w) @
        (if mdio_idle P (hist w) then [MdioWrite phy reg val] else []) \<and>
      (\<exists>h1. rc = (if mdio_idle P (hist w) \<and> mdio_idle P h1 then 0 else - 1)) \<and>
      (\<exists>es cs. t = w\<lparr>hist := es @ hist w, console := cs @ console w\<rparr>)) w"
    by (rule wp_mdio_write) auto
  then show ?thesis by (simp add: wp_def Let_def)
qed

text \<open>
  A read sends exactly the read frame for its arguments unless the
  controller is stuck at the start; if it reports success the value is the low
  half of the data register, read last, and otherwise it returns -1 and leaves
  the caller's variable as it was.
\<close>

theorem mdio_read_spec:
  "let rc = fst (result (ipq4019_mdio_read P phy reg val) w);
       v = snd (result (ipq4019_mdio_read P phy reg val) w);
       w' = exec (ipq4019_mdio_read P phy reg val) w
   in mdio_frames (hist w') = mdio_frames (hist w) @
        (if mdio_idle P (hist w) then [MdioRead phy reg] else []) \<and>
      (if rc = 0 then \<exists>d h. hist w' = Rd 0x9004c d # h \<and> d = bus_read P h 0x9004c \<and> v = ucast d
       else rc = - 1 \<and> v = val) \<and>
      (\<exists>es cs. w' = w\<lparr>hist := es @ hist w, console := cs @ console w\<rparr>)"
proof -
  have "wp (ipq4019_mdio_read P phy reg val) (\<lambda>(rc, v) t.
      mdio_frames (hist t) = mdio_frames (hist w) @
        (if mdio_idle P (hist w) then [MdioRead phy reg] else []) \<and>
      (if rc = 0 then \<exists>d h. hist t = Rd 0x9004c d # h \<and> d = bus_read P h 0x9004c \<and> v = ucast d
       else rc = - 1 \<and> v = val)) w"
    by (rule wp_mdio_read) auto
  then show ?thesis
    using io_only_exec [OF io_only_mdio(3)] by (simp add: wp_def Let_def case_prod_beta)
qed

section \<open>Indirect access refines the MMD registers\<close>

text \<open>
  One PHY: its clause-22 registers and, per MMD device, the address latch and
  the registers behind it. Registers 0x0d and 0x0e give access to the latter:
  the function field of 0x0d selects address (0) or data (0x4000).
\<close>

record phy_regs =
  c22 :: "u8 \<Rightarrow> u16"
  mmd_addr :: "u8 \<Rightarrow> u16"
  mmd_regs :: "u8 \<Rightarrow> u16 \<Rightarrow> u16"

definition mmd_dev :: "phy_regs \<Rightarrow> u8" where
  "mmd_dev p = ucast (c22 p MII_MMD_CTRL AND 0x1f)"

definition mmd_data_mode :: "phy_regs \<Rightarrow> bool" where
  "mmd_data_mode p \<longleftrightarrow> bit (c22 p MII_MMD_CTRL) 14"

definition phy_store :: "u8 \<Rightarrow> u16 \<Rightarrow> phy_regs \<Rightarrow> phy_regs" where
  "phy_store r v p =
    (if r \<noteq> MII_MMD_DATA then p\<lparr>c22 := (c22 p)(r := v)\<rparr>
     else if mmd_data_mode p
     then p\<lparr>mmd_regs := (mmd_regs p)(mmd_dev p := (mmd_regs p (mmd_dev p))(mmd_addr p (mmd_dev p) := v))\<rparr>
     else p\<lparr>mmd_addr := (mmd_addr p)(mmd_dev p := v)\<rparr>)"

definition phy_load :: "u8 \<Rightarrow> phy_regs \<Rightarrow> u16" where
  "phy_load r p =
    (if r \<noteq> MII_MMD_DATA then c22 p r
     else if mmd_data_mode p then mmd_regs p (mmd_dev p) (mmd_addr p (mmd_dev p))
     else mmd_addr p (mmd_dev p))"

fun wire_step :: "mdio_frame \<Rightarrow> (u8 \<Rightarrow> phy_regs) \<Rightarrow> (u8 \<Rightarrow> phy_regs)" where
  "wire_step (MdioRead p r) b = b"
| "wire_step (MdioWrite p r v) b = b(p := phy_store r v (b p))"

definition wire_run :: "(u8 \<Rightarrow> phy_regs) \<Rightarrow> mdio_frame list \<Rightarrow> (u8 \<Rightarrow> phy_regs)" where
  "wire_run b fs = fold wire_step fs b"

lemma wire_run_simps [simp]:
  "wire_run b [] = b"
  "wire_run b (fs @ [f]) = wire_step f (wire_run b fs)"
  by (simp_all add: wire_run_def)

lemma wire_run_append: "wire_run b (fs @ gs) = wire_run (wire_run b fs) gs"
  by (simp add: wire_run_def)

text \<open>
  What the hardware promises: the data register answers with what the addressed
  PHY holds, for PHYs that were in state \<open>b\<close> at the start of the history.
\<close>

definition mdio_answers :: "platform \<Rightarrow> (u8 \<Rightarrow> phy_regs) \<Rightarrow> bool" where
  "mdio_answers P b \<longleftrightarrow> (\<forall>h fs p r. mdio_frames h = fs @ [MdioRead p r] \<longrightarrow>
     ucast (bus_read P h (mdio_base + MDIO_DATA_READ_REG)) = phy_load r (wire_run b fs p))"

definition mmd_select :: "u8 \<Rightarrow> u8 \<Rightarrow> u16 \<Rightarrow> mdio_frame list" where
  "mmd_select phy devad reg =
    [MdioWrite phy MII_MMD_CTRL (ucast devad), MdioWrite phy MII_MMD_DATA reg,
     MdioWrite phy MII_MMD_CTRL (MMD_CTRL_DATA OR ucast devad)]"

lemma responsive_idle: "mdio_responsive P \<Longrightarrow> mdio_idle P h"
  by (simp add: mdio_responsive_def)

lemma wp_mdio_write_responsive:
  assumes "mdio_responsive P"
    and "\<And>es cs. mdio_frames (es @ hist s) = mdio_frames (hist s) @ [MdioWrite phy reg val] \<Longrightarrow>
      Q 0 (s\<lparr>hist := es @ hist s, console := cs @ console s\<rparr>)"
  shows "wp (ipq4019_mdio_write P phy reg val) Q s"
  using assms by (intro wp_mdio_write) (simp_all add: responsive_idle)

lemma wp_phy_write_mmd:
  assumes "mdio_responsive P"
    and "\<And>es cs. mdio_frames (es @ hist s) =
        mdio_frames (hist s) @ mmd_select phy devad reg @ [MdioWrite phy MII_MMD_DATA val] \<Longrightarrow>
      Q () (s\<lparr>hist := es @ hist s, console := cs @ console s\<rparr>)"
  shows "wp (ipq4019_phy_write_mmd P phy devad reg val) Q s"
  unfolding ipq4019_phy_write_mmd_def wp_bind
  by (intro wp_mdio_write_responsive [OF assms(1)])
    (simp add: assms(2) [of "_ @ _ @ _ @ _" "_ @ _ @ _ @ _", simplified] mmd_select_def)

lemma wp_phy_read_mmd:
  assumes "mdio_responsive P"
    and "\<And>es h d cs. mdio_frames (es @ hist s) =
        mdio_frames (hist s) @ mmd_select phy devad reg @ [MdioRead phy MII_MMD_DATA] \<Longrightarrow>
      d = bus_read P (es @ hist s) (mdio_base + MDIO_DATA_READ_REG) \<Longrightarrow>
      Q (ucast d) (s\<lparr>hist := Rd (mdio_base + MDIO_DATA_READ_REG) d # es @ hist s,
        console := cs @ console s\<rparr>)"
  shows "wp (ipq4019_phy_read_mmd P phy devad reg) Q s"
  unfolding ipq4019_phy_read_mmd_def wp_bind
  by (intro wp_mdio_write_responsive [OF assms(1)] wp_mdio_read)
    (simp_all add: responsive_idle [OF assms(1)] mmd_select_def
      assms(2) [of "_ @ _ @ _ @ _" _ "_ @ _ @ _ @ _", simplified])


text \<open>A device address fits the 5-bit field of the control register.\<close>

lemma mmd_dev_select [simp]:
  assumes "d < 32"
  shows "ucast (ucast d AND 0x1f :: u16) = (d :: u8)"
    and "ucast ((0x4000 OR ucast d) AND 0x1f :: u16) = (d :: u8)"
    and "\<not> bit (ucast d :: u16) 14"
    and "bit (0x4000 OR ucast d :: u16) 14"
proof -
  have "unat d < 32" using assms by (simp add: word_less_nat_alt)
  then have "unat (take_bit 5 d) = unat d"
    by (simp add: unsigned_take_bit_eq take_bit_nat_eq_self_iff)
  then have d: "take_bit 5 d = d" by (simp add: word_unat_eq_iff)
  have lt5: "n < 5" if "bit d n" for n
    using that d by (metis bit_take_bit_iff)
  have m: "(0x1f :: u16) = mask 5" by (simp add: mask_eq_exp_minus_1)
  show 1: "ucast (ucast d AND 0x1f :: u16) = d"
    by (rule bit_word_eqI) (auto simp: m bit_simps dest: lt5)
  show "ucast ((0x4000 OR ucast d) AND 0x1f :: u16) = d"
    using 1 by (simp add: bit.conj_disj_distrib2)
  show "\<not> bit (ucast d :: u16) 14" by (auto simp: bit_simps dest: lt5)
  show "bit (0x4000 OR ucast d :: u16) 14" by (simp add: bit_or_iff)
qed

text \<open>
  C11: on a controller that keeps up, a MMD write sends exactly four write frames
  to its PHY, register 0x0d with the device, 0x0e with the register, 0x0d with the
  device in data mode and 0x0e with the value, and nothing else but console lines
  changes in the driver. On the PHYs' register files these frames set register reg
  of device devad to the value; otherwise only what the access goes through
  changes, in that PHY: its register 0x0d and the address latch of the device.
\<close>

theorem phy_write_mmd_refines:
  assumes "mdio_responsive P" and "devad < 32"
  shows "let w' = exec (ipq4019_phy_write_mmd P phy devad reg val) w;
      fs = [MdioWrite phy 0x0d (ucast devad), MdioWrite phy 0x0e reg,
        MdioWrite phy 0x0d (0x4000 OR ucast devad), MdioWrite phy 0x0e val]
    in mdio_frames (hist w') = mdio_frames (hist w) @ fs \<and>
      wire_run b fs = b(phy := (b phy)\<lparr>c22 := (c22 (b phy))(0x0d := 0x4000 OR ucast devad),
        mmd_addr := (mmd_addr (b phy))(devad := reg),
        mmd_regs := (mmd_regs (b phy))(devad := (mmd_regs (b phy) devad)(reg := val))\<rparr>) \<and>
      (\<exists>es cs. w' = w\<lparr>hist := es @ hist w, console := cs @ console w\<rparr>)"
proof -
  let ?fs = "mmd_select phy devad reg @ [MdioWrite phy MII_MMD_DATA val]"
  have "wp (ipq4019_phy_write_mmd P phy devad reg val)
      (\<lambda>_ t. mdio_frames (hist t) = mdio_frames (hist w) @ ?fs \<and>
        (\<exists>es cs. t = w\<lparr>hist := es @ hist w, console := cs @ console w\<rparr>)) w"
    using assms(1) by (rule wp_phy_write_mmd) auto
  moreover have "wire_run b ?fs = b(phy := (b phy)\<lparr>c22 := (c22 (b phy))(0x0d := 0x4000 OR ucast devad),
        mmd_addr := (mmd_addr (b phy))(devad := reg),
        mmd_regs := (mmd_regs (b phy))(devad := (mmd_regs (b phy) devad)(reg := val))\<rparr>)"
    using assms(2)
    by (cases "b phy") (simp add: mmd_select_def wire_run_def phy_store_def mmd_dev_def mmd_data_mode_def)
  ultimately show ?thesis by (simp add: wp_def Let_def mmd_select_def)
qed

text \<open>
  C12: on PHYs that answer with what they hold, a MMD read after a MMD write of
  the same register returns the value written.
\<close>

theorem mmd_write_read_roundtrip:
  assumes "mdio_responsive P" and "mdio_answers P b" and "devad < 32"
  shows "result (do { ipq4019_phy_write_mmd P phy devad reg val;
                      ipq4019_phy_read_mmd P phy devad reg }) w = val"
proof -
  let ?fs = "mmd_select phy devad reg @ [MdioWrite phy MII_MMD_DATA val] @ mmd_select phy devad reg"
  have load: "phy_load MII_MMD_DATA (wire_run b (mdio_frames (hist w) @ ?fs) phy) = val"
    using assms(3) by (simp add: wire_run_append mmd_select_def wire_run_def phy_store_def
        phy_load_def mmd_dev_def mmd_data_mode_def)
  have "wp (do { ipq4019_phy_write_mmd P phy devad reg val;
                 ipq4019_phy_read_mmd P phy devad reg }) (\<lambda>v _. v = val) w"
    unfolding wp_bind
  proof (rule wp_phy_write_mmd [OF assms(1)], rule wp_phy_read_mmd [OF assms(1)])
    fix es cs es' h d cs'
    let ?s = "w\<lparr>hist := es @ hist w, console := cs @ console w\<rparr>"
    assume "mdio_frames (es @ hist w) =
        mdio_frames (hist w) @ mmd_select phy devad reg @ [MdioWrite phy MII_MMD_DATA val]"
      and "mdio_frames (es' @ hist ?s) =
        mdio_frames (hist ?s) @ mmd_select phy devad reg @ [MdioRead phy MII_MMD_DATA]"
      and d: "d = bus_read P (es' @ hist ?s) (mdio_base + MDIO_DATA_READ_REG)"
    then have "mdio_frames (es' @ hist ?s) = (mdio_frames (hist w) @ ?fs) @ [MdioRead phy MII_MMD_DATA]"
      by simp
    with assms(2) have "ucast (bus_read P (es' @ hist ?s) (mdio_base + MDIO_DATA_READ_REG)) =
        phy_load MII_MMD_DATA (wire_run b (mdio_frames (hist w) @ ?fs) phy)"
      unfolding mdio_answers_def by blast
    then show "ucast d = val" unfolding d load .
  qed
  then show ?thesis by (simp add: wp_def)
qed

text \<open>An environment whose PHYs are the register files above.\<close>

definition phy_platform :: "(u8 \<Rightarrow> phy_regs) \<Rightarrow> platform" where
  "phy_platform b = silent\<lparr>bus_read := \<lambda>h a.
     if a = mdio_base + MDIO_DATA_READ_REG
     then (case rev (mdio_frames h) of
             MdioRead p r # fs \<Rightarrow> ucast (phy_load r (wire_run b (rev fs) p))
           | _ \<Rightarrow> 0)
     else 0\<rparr>"

definition blank_phys :: "u8 \<Rightarrow> phy_regs" where
  "blank_phys = (\<lambda>_. \<lparr>c22 = \<lambda>_. 0, mmd_addr = \<lambda>_. 0, mmd_regs = \<lambda>_ _. 0\<rparr>)"

lemma phy_platform_responsive: "mdio_responsive (phy_platform b)"
  by (auto simp: mdio_responsive_def mdio_idle_def polled_def reg_look_def phy_platform_def
      intro!: exI [of _ 0])

lemma phy_platform_answers: "mdio_answers (phy_platform b) b"
  by (simp add: mdio_answers_def phy_platform_def)

theorem phy_write_mmd_refines_witness:
  "mdio_responsive (phy_platform blank_phys) \<and> (7 :: u8) < 32 \<and>
   (let fs = mdio_frames (hist (exec (ipq4019_phy_write_mmd (phy_platform blank_phys) 2 7 0x8021 4096) boot_io)) in
      fs = [MdioWrite 2 0x0d 7, MdioWrite 2 0x0e 0x8021, MdioWrite 2 0x0d 0x4007, MdioWrite 2 0x0e 4096] \<and>
      mmd_regs (wire_run blank_phys fs 2) 7 0x8021 = 4096 \<and> mmd_regs (wire_run blank_phys fs 2) 7 0x8020 = 0 \<and>
      c22 (wire_run blank_phys fs 2) 0 = 0)"
  using phy_write_mmd_refines [where P = "phy_platform blank_phys" and devad = 7 and phy = 2
      and reg = "0x8021" and val = 4096 and w = boot_io and b = blank_phys]
    phy_platform_responsive [of blank_phys]
  by (simp add: boot_io_def Let_def blank_phys_def)

theorem mmd_write_read_roundtrip_witness:
  "mdio_responsive (phy_platform blank_phys) \<and> mdio_answers (phy_platform blank_phys) blank_phys \<and>
   result (do { ipq4019_phy_write_mmd (phy_platform blank_phys) 2 7 0x8021 4096;
                ipq4019_phy_read_mmd (phy_platform blank_phys) 2 7 0x8021 }) boot_io = 4096"
  using mmd_write_read_roundtrip [where P = "phy_platform blank_phys" and b = blank_phys
      and devad = 7 and phy = 2 and reg = "0x8021" and val = 4096 and w = boot_io]
    phy_platform_responsive [of blank_phys] phy_platform_answers [of blank_phys]
  by simp

section \<open>Initialisation of the controller\<close>

text \<open>
  The controller is left in clause-22 mode with the divider field at /64,
  and every mode bit above them as it was; no frame is sent.
\<close>

theorem mdio_init_mode:
  "let w' = exec (ipq4019_mdio_init P) w; pre = bus_read P (hist w) 0x90040
   in mdio_frames (hist w') = mdio_frames (hist w) \<and>
      (\<exists>m. last_write (hist w') 0x90040 = Some m \<and>
         m AND 0xff = 0x3f \<and> \<not> bit m 8 \<and> drop_bit 9 m = drop_bit 9 pre)"
proof -
  let ?new = "\<lambda>m. (m AND NOT 0x1ff) OR 0x3f :: u32"
  have new: "?new m = (m AND NOT (mask 9)) OR mask 6" for m
    by (simp add: mask_eq_exp_minus_1)
  have field: "?new m AND 0xff = 0x3f" "\<not> bit (?new m) 8" "drop_bit 9 (?new m) = drop_bit 9 m" for m
  proof -
    show "?new m AND 0xff = 0x3f"
      unfolding new mask_numerals by (rule bit_word_eqI) (auto simp: bit_simps)
    show "\<not> bit (?new m) 8" unfolding new by (simp add: bit_simps)
    show "drop_bit 9 (?new m) = drop_bit 9 m"
      unfolding new by (rule bit_word_eqI) (auto simp: bit_simps dest: bit_imp_le_length)
  qed
  have "wp (ipq4019_mdio_init P) (\<lambda>_ t. mdio_frames (hist t) = mdio_frames (hist w) \<and>
      last_write (hist t) 0x90040 = Some ((bus_read P (hist w) 0x90040 AND NOT 0x1ff) OR 0x3f)) w"
    unfolding ipq4019_mdio_init_def Let_def by (simp add: wp_readl)
  then show ?thesis using field by (simp add: wp_def Let_def)
qed

end
