(* ===== verification/Ipq4019_Dev.thy ===== *)
theory Ipq4019_Dev
  imports Ipq4019_Mdio
begin

text \<open>
  The state the driver keeps: the device structure, the two descriptor rings as
  the CPU sees them, the receive buffers' addresses and the variables declared
  \<open>static\<close> inside functions. Shared lemmas on sequences of register accesses.
\<close>

section \<open>State\<close>

definition EDMA_TXQ_ID :: nat where [simp]: "EDMA_TXQ_ID = 0"
definition EDMA_RXQ_ID :: nat where [simp]: "EDMA_RXQ_ID = 0"
definition NO_OF_TX_DESC :: nat where [simp]: "NO_OF_TX_DESC = IPQ4019_EDMA_TX_RING_SIZE"
definition NO_OF_RX_DESC :: nat where [simp]: "NO_OF_RX_DESC = 512"
definition EDMA_RX_BUF_SIZE :: nat where [simp]: "EDMA_RX_BUF_SIZE = 2048"
definition EDMA_TPDS_PER_PACKET :: nat where [simp]: "EDMA_TPDS_PER_PACKET = 4"
definition EDMA_TPD_MIN_BYTES :: nat where [simp]: "EDMA_TPD_MIN_BYTES = 4"
definition EDMA_MIN_PKT_SIZE :: nat where [simp]:
  "EDMA_MIN_PKT_SIZE = EDMA_TPDS_PER_PACKET * EDMA_TPD_MIN_BYTES"
definition EDMA_TX_COMPLETE_TIMEOUT :: nat where [simp]: "EDMA_TX_COMPLETE_TIMEOUT = 1000000"

definition sizeof_tpd :: nat where [simp]: "sizeof_tpd = 16"
definition sizeof_rfd :: nat where [simp]: "sizeof_rfd = 4"

record IpqEdmaDev =
  base :: u32
  esw :: u32
  mac_addr :: "u8 list"
  started :: int
  tpd_ring :: u32
  rfd_ring :: u32
  tpd_head :: u16
  tpd_tail :: u16
  rfd_head :: u16
  rfd_tail :: u16

text \<open>What \<open>xzalloc(sizeof(IpqEdmaDev))\<close> returns.\<close>

definition zero_dev :: IpqEdmaDev where
  "zero_dev = \<lparr>base = 0, esw = 0, mac_addr = replicate 6 0, started = 0, tpd_ring = 0,
     rfd_ring = 0, tpd_head = 0, tpd_tail = 0, rfd_head = 0, rfd_tail = 0\<rparr>"

text \<open>
  Variables declared \<open>static\<close> in ipq4019_eth_send, ipq4019_eth_recv,
  ipq4019_phy_check_link, ipq4019_net_poller and qca8075_ess_reset.
\<close>

record statics =
  n_tx :: int
  rx_count :: int
  rx_invalid :: int
  rx_too_big :: int
  link_logged :: int
  initted :: int
  retry_count :: int
  gave_up :: int
  probe_done :: int

definition zero_statics :: statics where
  "zero_statics = \<lparr>n_tx = 0, rx_count = 0, rx_invalid = 0, rx_too_big = 0, link_logged = 0,
     initted = 0, retry_count = 0, gave_up = 0, probe_done = 0\<rparr>"

text \<open>
  \<open>tpd_mem\<close> and \<open>rfd_mem\<close> are the contents of the two rings, \<open>net_rx_packets\<close>
  the array of receive buffers.
\<close>

record drv = io +
  edma :: IpqEdmaDev
  tpd_mem :: "edma_tpd list"
  rfd_mem :: "edma_rfd list"
  net_rx_packets :: "u32 list"
  vars :: statics

text \<open>Memory before the driver runs: the image's zeroed data.\<close>

definition boot :: drv where
  "boot = \<lparr>hist = [], console = [], ub = False, edma = zero_dev, tpd_mem = [], rfd_mem = [],
     net_rx_packets = replicate 512 0, vars = zero_statics\<rparr>"

abbreviation upd_edma :: "(IpqEdmaDev \<Rightarrow> IpqEdmaDev) \<Rightarrow> (drv, unit) state" where
  "upd_edma f \<equiv> modify (\<lambda>s. s\<lparr>edma := f (edma s)\<rparr>)"

abbreviation upd_vars :: "(statics \<Rightarrow> statics) \<Rightarrow> (drv, unit) state" where
  "upd_vars f \<equiv> modify (\<lambda>s. s\<lparr>vars := f (vars s)\<rparr>)"

lemma drv_update_order [simp]:
  fixes s :: drv
  shows "hist_update f (edma_update g s) = edma_update g (hist_update f s)"
    "hist_update f (tpd_mem_update h s) = tpd_mem_update h (hist_update f s)"
    "hist_update f (rfd_mem_update k s) = rfd_mem_update k (hist_update f s)"
    "hist_update f (net_rx_packets_update l s) = net_rx_packets_update l (hist_update f s)"
    "hist_update f (vars_update m s) = vars_update m (hist_update f s)"
    "console_update c (edma_update g s) = edma_update g (console_update c s)"
    "console_update c (tpd_mem_update h s) = tpd_mem_update h (console_update c s)"
    "console_update c (rfd_mem_update k s) = rfd_mem_update k (console_update c s)"
    "console_update c (net_rx_packets_update l s) = net_rx_packets_update l (console_update c s)"
    "console_update c (vars_update m s) = vars_update m (console_update c s)"
    "ub_update u (edma_update g s) = edma_update g (ub_update u s)"
    "ub_update u (tpd_mem_update h s) = tpd_mem_update h (ub_update u s)"
    "ub_update u (rfd_mem_update k s) = rfd_mem_update k (ub_update u s)"
    "ub_update u (net_rx_packets_update l s) = net_rx_packets_update l (ub_update u s)"
    "ub_update u (vars_update m s) = vars_update m (ub_update u s)"
  by (cases s, simp)+

lemma drv_update_order2 [simp]:
  fixes s :: drv
  shows "edma_update g (tpd_mem_update h s) = tpd_mem_update h (edma_update g s)"
    "edma_update g (rfd_mem_update k s) = rfd_mem_update k (edma_update g s)"
    "edma_update g (net_rx_packets_update l s) = net_rx_packets_update l (edma_update g s)"
    "edma_update g (vars_update m s) = vars_update m (edma_update g s)"
    "tpd_mem_update h (rfd_mem_update k s) = rfd_mem_update k (tpd_mem_update h s)"
    "tpd_mem_update h (net_rx_packets_update l s) = net_rx_packets_update l (tpd_mem_update h s)"
    "tpd_mem_update h (vars_update m s) = vars_update m (tpd_mem_update h s)"
    "rfd_mem_update k (net_rx_packets_update l s) = net_rx_packets_update l (rfd_mem_update k s)"
    "rfd_mem_update k (vars_update m s) = vars_update m (rfd_mem_update k s)"
    "net_rx_packets_update l (vars_update m s) = vars_update m (net_rx_packets_update l s)"
  by (cases s, simp)+

section \<open>Sequences of register accesses\<close>

definition rmw :: "platform \<Rightarrow> u32 \<Rightarrow> (u32 \<Rightarrow> u32) \<Rightarrow> ('z io_scheme, unit) state" where
  "rmw P a f = do { v \<leftarrow> readl P a; writel (f v) a }"

text \<open>
  A loop of read-modify-writes over registers: what it read and what it wrote.
\<close>

lemma wp_rmw_loop:
  assumes "distinct is"
    and "\<And>v es. reads es = map (\<lambda>i. (a i, v i)) is \<Longrightarrow>
      writes es = map (\<lambda>i. (a i, f i (v i))) is \<Longrightarrow> delay_us es = 0 \<Longrightarrow>
      Q () (s\<lparr>hist := es @ hist s\<rparr>)"
  shows "wp (for_each is (\<lambda>i. rmw P (a i) (f i))) Q s"
  using assms
proof (induction "is" arbitrary: Q rule: rev_induct)
  case Nil
  then show ?case using Nil.prems(2) [of "[]"] by simp
next
  case (snoc j "is")
  have "wp (for_each is (\<lambda>i. rmw P (a i) (f i))) (\<lambda>_. wp (rmw P (a j) (f j)) Q) s"
  proof (rule snoc.IH)
    show "distinct is" using snoc.prems(1) by simp
    fix v es
    assume es: "reads es = map (\<lambda>i. (a i, v i)) is"
      "writes es = map (\<lambda>i. (a i, f i (v i))) is" "delay_us es = 0"
    let ?u = "bus_read P (es @ hist s) (a j)"
    let ?v = "v(j := ?u)"
    let ?es = "Wr (a j) (f j ?u) # Rd (a j) ?u # es"
    have j: "j \<notin> set is" using snoc.prems(1) by simp
    have m: "map (\<lambda>i. g i (?v i)) is = map (\<lambda>i. g i (v i)) is" for g :: "_ \<Rightarrow> u32 \<Rightarrow> u32 \<times> u32"
      using j by (intro map_cong) auto
    have r: "reads ?es = map (\<lambda>i. (a i, ?v i)) (is @ [j])"
      using es(1) m [of "\<lambda>i u. (a i, u)"] by simp
    have w: "writes ?es = map (\<lambda>i. (a i, f i (?v i))) (is @ [j])"
      using es(2) m [of "\<lambda>i u. (a i, f i u)"] by simp
    have d: "delay_us ?es = 0" using es(3) by simp
    show "wp (rmw P (a j) (f j)) Q (s\<lparr>hist := es @ hist s\<rparr>)"
      using snoc.prems(2) [OF r w d] by (simp add: rmw_def wp_readl)
  qed
  then show ?case by simp
qed

lemma last_write_writes: "last_write es a = map_of (rev (writes es)) a"
  by (induction es a rule: last_write.induct) simp_all

lemma last_write_new:
  "last_write (es @ h) a = (case map_of (rev (writes es)) a of None \<Rightarrow> last_write h a | Some v \<Rightarrow> Some v)"
  by (simp only: last_write_append) (simp only: last_write_writes)

end
