(* ===== verification/Ipq4019_Switch.thy ===== *)
theory Ipq4019_Switch
  imports Ipq4019_Dev
begin

text \<open>
  The ESS switch functions of ipq4019.c: the forwarding matrix in the two lookup
  modes and the switch's initialisation. Port 0 is the CPU port, ports 1 to 4
  are LAN, port 5 is WAN.
\<close>

section \<open>The code\<close>

definition ess_switch_disable_lookup :: "platform \<Rightarrow> (drv, unit) state" where
  "ess_switch_disable_lookup P = do {
     p \<leftarrow> gets edma;
     for_each [0..<ESS_PORTS_NUM] (\<lambda>i. do {
       val \<leftarrow> readl P (esw p + ESS_PORT_LOOKUP_CTRL i);
       let val = val AND NOT ESS_PORT_VID_MEM_MASK;
       let vid = (if i = 0 \<or> i = 5 then 0 else 0x1e AND NOT (push_bit i 1));
       let val = val OR (vid AND ESS_PORT_VID_MEM_MASK);
       writel val (esw p + ESS_PORT_LOOKUP_CTRL i) });
     writel 0x3e3e3e (esw p + ESS_GLOBAL_FW_CTRL1) }"

definition ess_switch_enable_lookup :: "platform \<Rightarrow> (drv, unit) state" where
  "ess_switch_enable_lookup P = do {
     p \<leftarrow> gets edma;
     for_each [0..<ESS_PORTS_NUM] (\<lambda>i. do {
       val \<leftarrow> readl P (esw p + ESS_PORT_LOOKUP_CTRL i);
       let val = val AND NOT ESS_PORT_VID_MEM_MASK;
       let vid = (if i = 0 then 0x3e else if i = 5 then 0x01 else 0x1f AND NOT (push_bit i 1));
       let val = val OR (vid AND ESS_PORT_VID_MEM_MASK);
       writel val (esw p + ESS_PORT_LOOKUP_CTRL i) });
     writel 0x3f3f3f (esw p + ESS_GLOBAL_FW_CTRL1) }"

text \<open>The HOL_CTRL0 value of port i.\<close>

definition hol_ctrl0 :: "nat \<Rightarrow> u32" where
  "hol_ctrl0 i =
    (let val = push_bit EG_PORT_QUEUE_NUM_SHIFT 30;
         val = (if i = 0 \<or> i = 5
                then val OR push_bit EG_PRI5_QUEUE_NUM_SHIFT 4 OR push_bit EG_PRI4_QUEUE_NUM_SHIFT 4
                else val)
     in val OR push_bit EG_PRI3_QUEUE_NUM_SHIFT 4 OR push_bit EG_PRI2_QUEUE_NUM_SHIFT 4 OR
        push_bit EG_PRI1_QUEUE_NUM_SHIFT 4 OR push_bit EG_PRI0_QUEUE_NUM_SHIFT 4)"

definition ess_switch_init :: "platform \<Rightarrow> (drv, unit) state" where
  "ess_switch_init P = do {
     p \<leftarrow> gets edma;
     writel 0x3e3e3e (esw p + ESS_GLOBAL_FW_CTRL1);
     writel (ESS_PORT_SPEED_1000 OR ESS_PORT_DUPLEX_MODE OR ESS_PORT_TX_FLOW_EN OR ESS_PORT_RX_FLOW_EN)
       (esw p + ESS_PORT0_STATUS);
     for_each [0..<ESS_PORTS_NUM] (\<lambda>i. do {
       val \<leftarrow> readl P (esw p + ESS_PORT_LOOKUP_CTRL i);
       let val = val AND NOT ESS_PORT_VID_MEM_MASK;
       writel val (esw p + ESS_PORT_LOOKUP_CTRL i) });
     for_each [0..<ESS_PORTS_NUM] (\<lambda>i. do {
       writel (hol_ctrl0 i) (esw p + ESS_PORT_HOL_CTRL0 i);
       val \<leftarrow> readl P (esw p + ESS_PORT_HOL_CTRL1 i);
       let val = val AND NOT ESS_ING_BUF_NUM_0_MASK;
       let val = val OR (6 AND ESS_ING_BUF_NUM_0_MASK);
       writel val (esw p + ESS_PORT_HOL_CTRL1 i) });
     mdelay 1;
     val \<leftarrow> readl P (esw p + ESS_PORT0_STATUS);
     let val = val OR ESS_PORT_TXMAC_EN OR ESS_PORT_RXMAC_EN;
     writel val (esw p + ESS_PORT0_STATUS);
     writel 0x7f7f7f (esw p + ESS_GLOBAL_FW_CTRL1) }"

section \<open>The register sequences\<close>

text \<open>Clear the member bits of a lookup register and set those of \<open>vid\<close>.\<close>

definition set_members :: "u32 \<Rightarrow> u32 \<Rightarrow> u32" where
  "set_members vid v = (v AND NOT ESS_PORT_VID_MEM_MASK) OR (vid AND ESS_PORT_VID_MEM_MASK)"

lemma bit_set_members: "bit (set_members vid v) j = (if j < 7 then bit vid j else bit v j)"
proof -
  have m: "ESS_PORT_VID_MEM_MASK = mask 7" by (simp add: mask_eq_exp_minus_1)
  show ?thesis
    unfolding set_members_def m by (auto simp: bit_simps dest: bit_imp_le_length)
qed

definition enabled_vid :: "nat \<Rightarrow> u32" where
  "enabled_vid i = (if i = 0 then 0x3e else if i = 5 then 0x01 else 0x1f AND NOT (push_bit i 1))"

definition disabled_vid :: "nat \<Rightarrow> u32" where
  "disabled_vid i = (if i = 0 \<or> i = 5 then 0 else 0x1e AND NOT (push_bit i 1))"

lemma ess_switch_enable_lookup_rmw:
  "ess_switch_enable_lookup P = do {
     p \<leftarrow> gets edma;
     for_each [0..<6] (\<lambda>i. rmw P (esw p + ESS_PORT_LOOKUP_CTRL i) (set_members (enabled_vid i)));
     writel 0x3f3f3f (esw p + ESS_GLOBAL_FW_CTRL1) }"
  by (simp add: ess_switch_enable_lookup_def rmw_def set_members_def enabled_vid_def Let_def)

lemma ess_switch_disable_lookup_rmw:
  "ess_switch_disable_lookup P = do {
     p \<leftarrow> gets edma;
     for_each [0..<6] (\<lambda>i. rmw P (esw p + ESS_PORT_LOOKUP_CTRL i) (set_members (disabled_vid i)));
     writel 0x3e3e3e (esw p + ESS_GLOBAL_FW_CTRL1) }"
  by (simp add: ess_switch_disable_lookup_def rmw_def set_members_def disabled_vid_def Let_def)


text \<open>
  Both lookup modes read and rewrite each port's lookup register once, in port
  order, and finish with the global forwarding register.
\<close>

definition lookup_accesses :: "(nat \<Rightarrow> u32) \<Rightarrow> u32 \<Rightarrow> u32 \<Rightarrow> (nat \<Rightarrow> u32) \<Rightarrow> event list \<Rightarrow> bool" where
  "lookup_accesses vid x e v es \<longleftrightarrow>
     reads es = map (\<lambda>i. (e + ESS_PORT_LOOKUP_CTRL i, v i)) [0..<6] \<and>
     writes es = map (\<lambda>i. (e + ESS_PORT_LOOKUP_CTRL i, set_members (vid i) (v i))) [0..<6] @ [(e + 0x624, x)]"

lemma wp_lookup_program:
  assumes "\<And>v es. lookup_accesses vid x (esw (edma w)) v es \<Longrightarrow> Q () (w\<lparr>hist := es @ hist w\<rparr>)"
  shows "wp (do { p \<leftarrow> gets edma;
      for_each [0..<6] (\<lambda>i. rmw P (esw p + ESS_PORT_LOOKUP_CTRL i) (set_members (vid i)));
      writel x (esw p + ESS_GLOBAL_FW_CTRL1) }) Q w"
  unfolding wp_bind wp_gets
proof (rule wp_rmw_loop)
  fix v es
  assume "reads es = map (\<lambda>i. (esw (edma w) + ESS_PORT_LOOKUP_CTRL i, v i)) [0..<6]"
    and "writes es = map (\<lambda>i. (esw (edma w) + ESS_PORT_LOOKUP_CTRL i, set_members (vid i) (v i))) [0..<6]"
  then have "lookup_accesses vid x (esw (edma w)) v (Wr (esw (edma w) + 0x624) x # es)"
    by (simp add: lookup_accesses_def)
  from assms [OF this]
  show "wp (writel x (esw (edma w) + ESS_GLOBAL_FW_CTRL1)) Q (w\<lparr>hist := es @ hist w\<rparr>)"
    by simp
qed simp

lemma wp_enable_lookup:
  assumes "\<And>v es. lookup_accesses enabled_vid 0x3f3f3f (esw (edma w)) v es \<Longrightarrow>
    Q () (w\<lparr>hist := es @ hist w\<rparr>)"
  shows "wp (ess_switch_enable_lookup P) Q w"
  unfolding ess_switch_enable_lookup_rmw by (rule wp_lookup_program) (rule assms)

lemma wp_disable_lookup:
  assumes "\<And>v es. lookup_accesses disabled_vid 0x3e3e3e (esw (edma w)) v es \<Longrightarrow>
    Q () (w\<lparr>hist := es @ hist w\<rparr>)"
  shows "wp (ess_switch_disable_lookup P) Q w"
  unfolding ess_switch_disable_lookup_rmw by (rule wp_lookup_program) (rule assms)

section \<open>The forwarding matrix\<close>

text \<open>
  \<open>forwards h e i j\<close>: with history h, the lookup register last written for port
  i of the switch at e lets frames from port i go to port j.
\<close>

definition forwards :: "event list \<Rightarrow> u32 \<Rightarrow> nat \<Rightarrow> nat \<Rightarrow> bool" where
  "forwards h e i j = (case last_write h (e + ESS_PORT_LOOKUP_CTRL i) of None \<Rightarrow> False | Some m \<Rightarrow> bit m j)"

definition forwarding :: "event list \<Rightarrow> u32 \<Rightarrow> (nat \<times> nat) set" where
  "forwarding h e = {(i, j). i < ESS_PORTS_NUM \<and> j < ESS_PORTS_NUM \<and> forwards h e i j}"

datatype port_role = CPU | LAN | WAN

definition role :: "nat \<Rightarrow> port_role" where
  "role i = (if i = 0 then CPU else if i = 5 then WAN else LAN)"

lemma lookup_ctrl_map:
  assumes "i < 6"
  shows "map_of (rev (map (\<lambda>i. (e + ESS_PORT_LOOKUP_CTRL i, g i)) [0..<6])) (e + ESS_PORT_LOOKUP_CTRL i) = Some (g i)"
proof -
  have "i \<in> {0, 1, 2, 3, 4, 5}" using assms by auto
  then show ?thesis by (auto simp: upt_conv_Cons) (simp_all add: numeral_eq_Suc)
qed

lemma lookup_ctrl_last_write:
  assumes "i < 6"
  shows "map_of (rev (map (\<lambda>i. (e + ESS_PORT_LOOKUP_CTRL i, g i)) [0..<6] @ [(e + 0x624, x)]))
    (e + ESS_PORT_LOOKUP_CTRL i) = Some (g i)"
proof -
  have "i \<in> {0, 1, 2, 3, 4, 5}" using assms by auto
  then show ?thesis by (auto simp: upt_conv_Cons) (simp_all add: numeral_eq_Suc)
qed

lemma forwards_members:
  assumes "lookup_accesses vid x e v es" and "i < 6" and "j < 7"
  shows "forwards (es @ h) e i j = bit (vid i) j"
  using lookup_ctrl_last_write [OF assms(2), of e "\<lambda>i. set_members (vid i) (v i)" x] assms(1,3)
  by (simp add: lookup_accesses_def forwards_def last_write_new bit_set_members del: ESS_PORT_LOOKUP_CTRL_def)

lemma forwarding_members:
  assumes "lookup_accesses vid x e v es"
  shows "forwarding (es @ h) e = {(i, j). i < 6 \<and> j < 6 \<and> bit (vid i) j}"
  using forwards_members [OF assms] by (auto simp: forwarding_def)

lemma kept_bits_members:
  assumes "lookup_accesses vid x e v es" and "i < 6"
  shows "\<exists>m. last_write (es @ h) (e + ESS_PORT_LOOKUP_CTRL i) = Some m \<and> drop_bit 7 m = drop_bit 7 (v i)"
proof (intro exI conjI)
  show "last_write (es @ h) (e + ESS_PORT_LOOKUP_CTRL i) = Some (set_members (vid i) (v i))"
    using lookup_ctrl_last_write [OF assms(2), of e "\<lambda>i. set_members (vid i) (v i)" x] assms(1)
    by (simp add: lookup_accesses_def last_write_new del: ESS_PORT_LOOKUP_CTRL_def)
  show "drop_bit 7 (set_members (vid i) (v i)) = drop_bit 7 (v i)"
    by (rule bit_word_eqI) (simp add: bit_drop_bit_eq bit_set_members)
qed

lemma fw_ctrl_members:
  "lookup_accesses vid x e v es \<Longrightarrow> last_write (es @ h) (e + 0x624) = Some x"
  by (simp add: lookup_accesses_def last_write_new)

definition enabled_pair :: "nat \<Rightarrow> nat \<Rightarrow> bool" where
  "enabled_pair i j = (case role i of
     CPU \<Rightarrow> j \<noteq> 0
   | LAN \<Rightarrow> j \<noteq> i \<and> role j \<noteq> WAN
   | WAN \<Rightarrow> role j = CPU)"

definition disabled_pair :: "nat \<Rightarrow> nat \<Rightarrow> bool" where
  "disabled_pair i j = (role i = LAN \<and> role j = LAN \<and> i \<noteq> j)"

lemma ports_cases:
  assumes "i < (6 :: nat)"
  obtains "i = 0" | "i = 1" | "i = 2" | "i = 3" | "i = 4" | "i = 5"
  using assms by linarith

lemma bit_enabled_vid: "i < 6 \<Longrightarrow> j < 6 \<Longrightarrow> bit (enabled_vid i) j = enabled_pair i j"
  by (erule ports_cases; erule ports_cases)
    (simp_all add: enabled_vid_def enabled_pair_def role_def bit_simps)

lemma bit_disabled_vid: "i < 6 \<Longrightarrow> j < 6 \<Longrightarrow> bit (disabled_vid i) j = disabled_pair i j"
  by (erule ports_cases; erule ports_cases)
    (simp_all add: disabled_vid_def disabled_pair_def role_def bit_simps)

lemma bit_enabled_vid_set:
  "{(i, j). i < 6 \<and> j < 6 \<and> bit (enabled_vid i) j} = {(i, j). i < 6 \<and> j < 6 \<and> enabled_pair i j}"
  "{(i, j). i < 6 \<and> j < 6 \<and> bit (disabled_vid i) j} = {(i, j). i < 6 \<and> j < 6 \<and> disabled_pair i j}"
  using bit_enabled_vid bit_disabled_vid by blast+

text \<open>
  C13: after \<open>ess_switch_enable_lookup\<close> the switch forwards from the CPU port to
  every other port, from a LAN port to the CPU and the other LAN ports, and from
  the WAN port to the CPU only; the state changes in nothing but these register
  accesses.
\<close>

theorem enable_lookup_matrix:
  "let w' = exec (ess_switch_enable_lookup P) w; e = esw (edma w)
   in forwarding (hist w') e = {(i, j). i < 6 \<and> j < 6 \<and> enabled_pair i j} \<and>
      last_write (hist w') (e + 0x624) = Some 0x3f3f3f \<and>
      (\<exists>v es. w' = w\<lparr>hist := es @ hist w\<rparr> \<and> lookup_accesses enabled_vid 0x3f3f3f e v es)"
proof -
  have "wp (ess_switch_enable_lookup P) (\<lambda>_ w'.
      forwarding (hist w') (esw (edma w)) = {(i, j). i < 6 \<and> j < 6 \<and> enabled_pair i j} \<and>
      last_write (hist w') (esw (edma w) + 0x624) = Some 0x3f3f3f \<and>
      (\<exists>v es. w' = w\<lparr>hist := es @ hist w\<rparr> \<and> lookup_accesses enabled_vid 0x3f3f3f (esw (edma w)) v es)) w"
    by (rule wp_enable_lookup)
      (auto simp: forwarding_members bit_enabled_vid_set fw_ctrl_members)
  then show ?thesis by (simp add: wp_def Let_def)
qed

text \<open>
  After \<open>ess_switch_disable_lookup\<close> only LAN ports forward, and only to
  other LAN ports: the CPU port neither sends nor receives.
\<close>

theorem disable_lookup_matrix:
  "let w' = exec (ess_switch_disable_lookup P) w; e = esw (edma w)
   in forwarding (hist w') e = {(i, j). i < 6 \<and> j < 6 \<and> disabled_pair i j} \<and>
      last_write (hist w') (e + 0x624) = Some 0x3e3e3e \<and>
      (\<exists>v es. w' = w\<lparr>hist := es @ hist w\<rparr> \<and> lookup_accesses disabled_vid 0x3e3e3e e v es)"
proof -
  have "wp (ess_switch_disable_lookup P) (\<lambda>_ w'.
      forwarding (hist w') (esw (edma w)) = {(i, j). i < 6 \<and> j < 6 \<and> disabled_pair i j} \<and>
      last_write (hist w') (esw (edma w) + 0x624) = Some 0x3e3e3e \<and>
      (\<exists>v es. w' = w\<lparr>hist := es @ hist w\<rparr> \<and> lookup_accesses disabled_vid 0x3e3e3e (esw (edma w)) v es)) w"
    by (rule wp_disable_lookup)
      (auto simp: forwarding_members bit_enabled_vid_set fw_ctrl_members)
  then show ?thesis by (simp add: wp_def Let_def)
qed

lemma isolated_pairs:
  assumes "i < 6" and "j < 6"
  shows "bit (enabled_vid i) j \<Longrightarrow> i \<noteq> j \<and> (role i, role j) \<noteq> (LAN, WAN) \<and> (role i, role j) \<noteq> (WAN, LAN)"
    and "bit (disabled_vid i) j \<Longrightarrow> i \<noteq> j \<and> (role i, role j) \<noteq> (LAN, WAN) \<and> (role i, role j) \<noteq> (WAN, LAN)"
  by (auto simp: bit_enabled_vid [OF assms] bit_disabled_vid [OF assms] enabled_pair_def disabled_pair_def role_def
    split: if_splits)

lemma isolation_members:
  assumes "lookup_accesses vid x e v es" and "\<And>i j. i < 6 \<Longrightarrow> j < 6 \<Longrightarrow> bit (vid i) j \<Longrightarrow>
      i \<noteq> j \<and> (role i, role j) \<noteq> (LAN, WAN) \<and> (role i, role j) \<noteq> (WAN, LAN)"
  shows "(\<forall>(i, j) \<in> forwarding (es @ h) e. i \<noteq> j \<and> (role i, role j) \<noteq> (LAN, WAN) \<and> (role i, role j) \<noteq> (WAN, LAN)) \<and>
    reads es = map (\<lambda>i. (e + ESS_PORT_LOOKUP_CTRL i, v i)) [0..<6] \<and>
    map fst (writes es) = map (\<lambda>i. e + ESS_PORT_LOOKUP_CTRL i) [0..<6] @ [e + 0x624] \<and>
    (\<forall>i < 6. \<exists>m. last_write (es @ h) (e + ESS_PORT_LOOKUP_CTRL i) = Some m \<and> drop_bit 7 m = drop_bit 7 (v i))"
proof (intro conjI allI impI)
  show "\<forall>(i, j) \<in> forwarding (es @ h) e. i \<noteq> j \<and> (role i, role j) \<noteq> (LAN, WAN) \<and> (role i, role j) \<noteq> (WAN, LAN)"
    unfolding forwarding_members [OF assms(1)] using assms(2) by blast
  show "reads es = map (\<lambda>i. (e + ESS_PORT_LOOKUP_CTRL i, v i)) [0..<6]"
    "map fst (writes es) = map (\<lambda>i. e + ESS_PORT_LOOKUP_CTRL i) [0..<6] @ [e + 0x624]"
    using assms(1) by (simp_all add: lookup_accesses_def)
qed (rule kept_bits_members [OF assms(1)])

text \<open>
  C14: in neither mode does the switch bridge LAN and WAN or send a frame back out
  of the port it came from, and the bits of a lookup register above the member
  field (state, learning, loopback) stay as they were: the register of each port is
  read once, the value last written has the same upper bits, and no other
  register but the global forwarding one is written.
\<close>

theorem lookup_isolation:
  assumes "prog = ess_switch_enable_lookup P \<or> prog = ess_switch_disable_lookup P"
  shows "let w' = exec prog w; e = esw (edma w) in
    (\<forall>(i, j) \<in> forwarding (hist w') e. i \<noteq> j \<and> (role i, role j) \<noteq> (LAN, WAN) \<and> (role i, role j) \<noteq> (WAN, LAN)) \<and>
    (\<exists>es v. w' = w\<lparr>hist := es @ hist w\<rparr> \<and>
      reads es = map (\<lambda>i. (e + ESS_PORT_LOOKUP_CTRL i, v i)) [0..<6] \<and>
      map fst (writes es) = map (\<lambda>i. e + ESS_PORT_LOOKUP_CTRL i) [0..<6] @ [e + 0x624] \<and>
      (\<forall>i < 6. \<exists>m. last_write (hist w') (e + ESS_PORT_LOOKUP_CTRL i) = Some m \<and> drop_bit 7 m = drop_bit 7 (v i)))"
    (is "let w' = exec prog w; e = esw (edma w) in ?iso w' e \<and> (\<exists>es v. ?kept w' e es v)")
proof -
  have "wp (ess_switch_enable_lookup P) (\<lambda>_ w'. ?iso w' (esw (edma w)) \<and> (\<exists>es v. ?kept w' (esw (edma w)) es v)) w"
  proof (rule wp_enable_lookup)
    fix v es
    assume "lookup_accesses enabled_vid 0x3f3f3f (esw (edma w)) v es"
    from isolation_members [OF this isolated_pairs(1), of "hist w"]
    show "?iso (w\<lparr>hist := es @ hist w\<rparr>) (esw (edma w)) \<and> (\<exists>es' v. ?kept (w\<lparr>hist := es @ hist w\<rparr>) (esw (edma w)) es' v)"
      by (simp del: ESS_PORT_LOOKUP_CTRL_def) blast
  qed
  moreover have "wp (ess_switch_disable_lookup P) (\<lambda>_ w'. ?iso w' (esw (edma w)) \<and> (\<exists>es v. ?kept w' (esw (edma w)) es v)) w"
  proof (rule wp_disable_lookup)
    fix v es
    assume "lookup_accesses disabled_vid 0x3e3e3e (esw (edma w)) v es"
    from isolation_members [OF this isolated_pairs(2), of "hist w"]
    show "?iso (w\<lparr>hist := es @ hist w\<rparr>) (esw (edma w)) \<and> (\<exists>es' v. ?kept (w\<lparr>hist := es @ hist w\<rparr>) (esw (edma w)) es' v)"
      by (simp del: ESS_PORT_LOOKUP_CTRL_def) blast
  qed
  ultimately show ?thesis using assms unfolding wp_def Let_def by blast
qed

theorem lookup_isolation_witness:
  "(1, 0) \<in> forwarding (hist (exec (ess_switch_enable_lookup silent) boot)) (esw (edma boot)) \<and>
   (\<exists>m. last_write (hist (exec (ess_switch_enable_lookup silent) boot)) (esw (edma boot) + 0x660) = Some m)"
proof -
  have "wp (ess_switch_enable_lookup silent)
      (\<lambda>_ w'. (1, 0) \<in> forwarding (hist w') (esw (edma boot))) boot"
    by (rule wp_enable_lookup)
      (auto simp: forwarding_members bit_enabled_vid_set enabled_pair_def role_def)
  then show ?thesis
    using lookup_isolation [OF disjI1 [OF refl], of silent boot] by (fastforce simp: wp_def Let_def)
qed

section \<open>Initialisation\<close>

lemma ess_switch_init_rmw:
  "ess_switch_init P = do {
     p \<leftarrow> gets edma;
     writel 0x3e3e3e (esw p + ESS_GLOBAL_FW_CTRL1);
     writel 0x73 (esw p + ESS_PORT0_STATUS);
     for_each [0..<6] (\<lambda>i. rmw P (esw p + ESS_PORT_LOOKUP_CTRL i) (set_members 0));
     for_each [0..<6] (\<lambda>i. do {
       writel (hol_ctrl0 i) (esw p + ESS_PORT_HOL_CTRL0 i);
       rmw P (esw p + ESS_PORT_HOL_CTRL1 i) (\<lambda>v. (v AND NOT 0xf) OR 6) });
     mdelay 1;
     rmw P (esw p + ESS_PORT0_STATUS) (\<lambda>v. v OR 0xc);
     writel 0x7f7f7f (esw p + ESS_GLOBAL_FW_CTRL1) }"
  by (simp add: ess_switch_init_def rmw_def set_members_def Let_def or.assoc)


definition hol_accesses :: "u32 \<Rightarrow> nat \<Rightarrow> (nat \<Rightarrow> u32) \<Rightarrow> (u32 \<times> u32) list" where
  "hol_accesses e n u = concat (map (\<lambda>i. [(e + ESS_PORT_HOL_CTRL0 i, hol_ctrl0 i),
     (e + ESS_PORT_HOL_CTRL1 i, (u i AND NOT 0xf) OR 6)]) [0..<n])"

lemma wp_hol_loop:
  assumes "\<And>u es. reads es = map (\<lambda>i. (e + ESS_PORT_HOL_CTRL1 i, u i)) [0..<n] \<Longrightarrow>
      writes es = hol_accesses e n u \<Longrightarrow> delay_us es = 0 \<Longrightarrow> Q () (s\<lparr>hist := es @ hist s\<rparr>)"
  shows "wp (for_each [0..<n] (\<lambda>i. do {
       writel (hol_ctrl0 i) (e + ESS_PORT_HOL_CTRL0 i);
       rmw P (e + ESS_PORT_HOL_CTRL1 i) (\<lambda>v. (v AND NOT 0xf) OR 6) })) Q s"
proof (rule wp_for_upto [where I = "\<lambda>k t. \<exists>u es. t = s\<lparr>hist := es @ hist s\<rparr> \<and>
      reads es = map (\<lambda>i. (e + ESS_PORT_HOL_CTRL1 i, u i)) [0..<k] \<and>
      writes es = hol_accesses e k u \<and> delay_us es = 0"])
  show "\<exists>u es. s = s\<lparr>hist := es @ hist s\<rparr> \<and>
      reads es = map (\<lambda>i. (e + ESS_PORT_HOL_CTRL1 i, u i)) [0..<0] \<and>
      writes es = hol_accesses e 0 u \<and> delay_us es = 0"
    by (intro exI [of _ "\<lambda>_. 0"] exI [of _ "[]"]) (simp add: hol_accesses_def)
next
  fix k and t :: "'a io_scheme"
  assume "\<exists>u es. t = s\<lparr>hist := es @ hist s\<rparr> \<and>
      reads es = map (\<lambda>i. (e + ESS_PORT_HOL_CTRL1 i, u i)) [0..<k] \<and>
      writes es = hol_accesses e k u \<and> delay_us es = 0"
  then obtain u es where es: "t = s\<lparr>hist := es @ hist s\<rparr>"
      "reads es = map (\<lambda>i. (e + ESS_PORT_HOL_CTRL1 i, u i)) [0..<k]"
      "writes es = hol_accesses e k u" "delay_us es = 0" by blast
  have upd: "hol_accesses e k (u(k := v)) = hol_accesses e k u" for v
    unfolding hol_accesses_def by (rule arg_cong [of _ _ concat]) simp
  have step: "hol_accesses e (Suc k) u' = hol_accesses e k u' @
      [(e + ESS_PORT_HOL_CTRL0 k, hol_ctrl0 k), (e + ESS_PORT_HOL_CTRL1 k, (u' k AND NOT 0xf) OR 6)]" for u'
    by (simp add: hol_accesses_def)
  have rmap: "map (\<lambda>i. (e + ESS_PORT_HOL_CTRL1 i, (u(k := v)) i)) [0..<Suc k] =
      map (\<lambda>i. (e + ESS_PORT_HOL_CTRL1 i, u i)) [0..<k] @ [(e + ESS_PORT_HOL_CTRL1 k, v)]" for v
    by simp
  let ?a = "Wr (e + ESS_PORT_HOL_CTRL0 k) (hol_ctrl0 k)"
  let ?v = "bus_read P (?a # es @ hist s) (e + ESS_PORT_HOL_CTRL1 k)"
  let ?es = "[Wr (e + ESS_PORT_HOL_CTRL1 k) ((?v AND NOT 0xf) OR 6), Rd (e + ESS_PORT_HOL_CTRL1 k) ?v, ?a] @ es"
  have "reads ?es = map (\<lambda>i. (e + ESS_PORT_HOL_CTRL1 i, (u(k := ?v)) i)) [0..<Suc k]"
    unfolding rmap using es(2) by simp
  moreover have "writes ?es = hol_accesses e (Suc k) (u(k := ?v))"
    unfolding step upd using es(3) by simp
  moreover have "delay_us ?es = 0" using es(4) by simp
  ultimately have "\<exists>u es'. t\<lparr>hist := ?es @ hist s\<rparr> = s\<lparr>hist := es' @ hist s\<rparr> \<and>
      reads es' = map (\<lambda>i. (e + ESS_PORT_HOL_CTRL1 i, u i)) [0..<Suc k] \<and>
      writes es' = hol_accesses e (Suc k) u \<and> delay_us es' = 0"
    by (intro exI [of _ "u(k := ?v)"] exI [of _ ?es]) (simp only: es(1), simp)
  then show "wp (do { writel (hol_ctrl0 k) (e + ESS_PORT_HOL_CTRL0 k);
       rmw P (e + ESS_PORT_HOL_CTRL1 k) (\<lambda>v. (v AND NOT 0xf) OR 6) })
      (\<lambda>_ t. \<exists>u es. t = s\<lparr>hist := es @ hist s\<rparr> \<and>
      reads es = map (\<lambda>i. (e + ESS_PORT_HOL_CTRL1 i, u i)) [0..<Suc k] \<and>
      writes es = hol_accesses e (Suc k) u \<and> delay_us es = 0) t"
    by (simp add: rmw_def wp_readl es(1))
next
  fix t :: "'a io_scheme"
  assume "\<exists>u es. t = s\<lparr>hist := es @ hist s\<rparr> \<and>
      reads es = map (\<lambda>i. (e + ESS_PORT_HOL_CTRL1 i, u i)) [0..<n] \<and>
      writes es = hol_accesses e n u \<and> delay_us es = 0"
  then show "Q () t" using assms by blast
qed


text \<open>The queue depths HOL_CTRL0 programs: 30 buffers per port, 4 per priority queue.\<close>

lemma hol_ctrl0_value:
  "hol_ctrl0 i = (if i = 0 \<or> i = 5 then 0x1e444444 else 0x1e004444)"
  by (simp add: hol_ctrl0_def Let_def)

definition init_accesses :: "u32 \<Rightarrow> (nat \<Rightarrow> u32) \<Rightarrow> (nat \<Rightarrow> u32) \<Rightarrow> u32 \<Rightarrow> event list \<Rightarrow> bool" where
  "init_accesses e v u z es \<longleftrightarrow>
     reads es = map (\<lambda>i. (e + ESS_PORT_LOOKUP_CTRL i, v i)) [0..<6] @
       map (\<lambda>i. (e + ESS_PORT_HOL_CTRL1 i, u i)) [0..<6] @ [(e + 0x7c, z)] \<and>
     writes es = [(e + 0x624, 0x3e3e3e), (e + 0x7c, 0x73)] @
       map (\<lambda>i. (e + ESS_PORT_LOOKUP_CTRL i, set_members 0 (v i))) [0..<6] @
       hol_accesses e 6 u @ [(e + 0x7c, z OR 0xc), (e + 0x624, 0x7f7f7f)] \<and>
     delay_us es = 1000"

lemma wp_ess_switch_init:
  assumes "\<And>v u z es. init_accesses (esw (edma w)) v u z es \<Longrightarrow> Q () (w\<lparr>hist := es @ hist w\<rparr>)"
  shows "wp (ess_switch_init P) Q w"
proof -
  let ?e = "esw (edma w)"
  let ?w1 = "w\<lparr>hist := [Wr (?e + ESS_PORT0_STATUS) 0x73, Wr (?e + ESS_GLOBAL_FW_CTRL1) 0x3e3e3e] @ hist w\<rparr>"
  have tail: "wp (rmw P (?e + ESS_PORT0_STATUS) (\<lambda>v. v OR 0xc)) (\<lambda>_ s. Q () (s\<lparr>hist := Wr (?e + ESS_GLOBAL_FW_CTRL1) 0x7f7f7f # hist s\<rparr>))
      (w\<lparr>hist := Udelay 1000 # es2 @ es1 @ hist ?w1\<rparr>)"
    if "reads es1 = map (\<lambda>i. (?e + ESS_PORT_LOOKUP_CTRL i, v i)) [0..<6]"
      "writes es1 = map (\<lambda>i. (?e + ESS_PORT_LOOKUP_CTRL i, set_members 0 (v i))) [0..<6]" "delay_us es1 = 0"
      "reads es2 = map (\<lambda>i. (?e + ESS_PORT_HOL_CTRL1 i, u i)) [0..<6]"
      "writes es2 = hol_accesses ?e 6 u" "delay_us es2 = 0" for es1 es2 v u
  proof -
    let ?z = "bus_read P (Udelay 1000 # es2 @ es1 @ hist ?w1) (?e + ESS_PORT0_STATUS)"
    let ?es = "[Wr (?e + ESS_GLOBAL_FW_CTRL1) 0x7f7f7f, Wr (?e + ESS_PORT0_STATUS) (?z OR 0xc),
      Rd (?e + ESS_PORT0_STATUS) ?z, Udelay 1000] @ es2 @ es1 @
      [Wr (?e + ESS_PORT0_STATUS) 0x73, Wr (?e + ESS_GLOBAL_FW_CTRL1) 0x3e3e3e]"
    have "init_accesses ?e v u ?z ?es" using that by (simp add: init_accesses_def)
    from assms [OF this] show ?thesis by (simp add: rmw_def wp_readl)
  qed
  show ?thesis
    unfolding ess_switch_init_rmw wp_bind wp_gets wp_prims
    by (rule wp_rmw_loop, simp, rule wp_hol_loop) (use tail in simp)
qed

text \<open>
  \<open>ess_switch_init\<close> makes exactly the documented sequence of accesses, waits
  1 ms before enabling the CPU port's MACs, and leaves every port isolated.
\<close>

theorem switch_init_accesses:
  "let w' = exec (ess_switch_init P) w; e = esw (edma w)
   in forwarding (hist w') e = {} \<and>
      (\<exists>v u z es. w' = w\<lparr>hist := es @ hist w\<rparr> \<and> init_accesses e v u z es)"
proof -
  have none: "forwarding (es @ h) e = {}" if acc: "init_accesses e v u z es" for e v u z es h
  proof -
    let ?L = "map (\<lambda>i. (e + ESS_PORT_LOOKUP_CTRL i, set_members 0 (v i))) [0..<6] :: (u32 \<times> u32) list"
    have "\<not> forwards (es @ h) e i j" if "i < 6" "j < 6" for i j
    proof -
      have "e + ESS_PORT_LOOKUP_CTRL i \<notin> fst ` set (hol_accesses e 6 u)"
        and other: "ESS_PORT_LOOKUP_CTRL i \<noteq> 0x7c" "ESS_PORT_LOOKUP_CTRL i \<noteq> 0x624"
        using that(1) by (cases rule: ports_cases, simp_all add: hol_accesses_def upt_conv_Cons)+
      then have "map_of (rev (hol_accesses e 6 u)) (e + ESS_PORT_LOOKUP_CTRL i) = None"
        by (simp add: map_of_eq_None_iff del: ESS_PORT_LOOKUP_CTRL_def)
      moreover have "map_of (rev ?L) (e + ESS_PORT_LOOKUP_CTRL i) = Some (set_members 0 (v i))"
        using that(1) by (rule lookup_ctrl_map)
      ultimately have "last_write (es @ h) (e + ESS_PORT_LOOKUP_CTRL i) = Some (set_members 0 (v i))"
        using acc other by (simp add: init_accesses_def last_write_new map_add_def del: ESS_PORT_LOOKUP_CTRL_def)
      then show ?thesis using that(2)
        by (simp add: forwards_def bit_set_members del: ESS_PORT_LOOKUP_CTRL_def)
    qed
    then show ?thesis by (auto simp: forwarding_def)
  qed
  have "wp (ess_switch_init P) (\<lambda>_ w'. forwarding (hist w') (esw (edma w)) = {} \<and>
      (\<exists>v u z es. w' = w\<lparr>hist := es @ hist w\<rparr> \<and> init_accesses (esw (edma w)) v u z es)) w"
    by (rule wp_ess_switch_init) (use none in auto)
  then show ?thesis by (simp add: wp_def Let_def)
qed

end
