(* ===== verification/Ipq4019_Edma.thy ===== *)
theory Ipq4019_Edma
  imports Ipq4019_Switch
begin

text \<open>
  The EDMA engine of ipq4019.c: queue control, configuration, the descriptor
  rings and their allocation, and the start of the device. Ring indices are the
  code's 16-bit values; a store outside a ring sets \<open>ub\<close>.
\<close>

section \<open>Ring memory\<close>

definition store_tpd :: "nat \<Rightarrow> edma_tpd \<Rightarrow> (drv, unit) state" where
  "store_tpd k d = do {
     n \<leftarrow> gets (\<lambda>s. length (tpd_mem s));
     if k < n then do { modify (\<lambda>s. s\<lparr>tpd_mem := (tpd_mem s)[k := d]\<rparr>); emit (StTpd k d) }
     else undefined_behaviour }"

definition store_rfd :: "nat \<Rightarrow> edma_rfd \<Rightarrow> (drv, unit) state" where
  "store_rfd k d = do {
     n \<leftarrow> gets (\<lambda>s. length (rfd_mem s));
     if k < n then do { modify (\<lambda>s. s\<lparr>rfd_mem := (rfd_mem s)[k := d]\<rparr>); emit (StRfd k d) }
     else undefined_behaviour }"

definition load_rx_packet :: "nat \<Rightarrow> (drv, u32) state" where
  "load_rx_packet k = do {
     ps \<leftarrow> gets net_rx_packets;
     if k < length ps then ret (ps ! k) else do { undefined_behaviour; ret 0 } }"

definition zero_tpd :: edma_tpd where
  "zero_tpd = \<lparr>tpd_len = 0, tpd_svlan_tag = 0, tpd_word1 = 0, tpd_addr = 0, tpd_word3 = 0\<rparr>"

definition zero_rfd :: edma_rfd where "zero_rfd = \<lparr>buffer_addr = 0\<rparr>"

definition flush_range :: "u32 \<Rightarrow> nat \<Rightarrow> (drv, unit) state" where
  "flush_range a n = dcache_clean_invalidate_by_mva a n"

definition invalidate_range :: "u32 \<Rightarrow> nat \<Rightarrow> (drv, unit) state" where
  "invalidate_range a n = dcache_invalidate_by_mva a n"

text \<open>libpayload's ALIGN_UP, for an alignment that is a power of two.\<close>

definition align_up :: "nat \<Rightarrow> nat \<Rightarrow> nat" where
  "align_up n a = (n + a - 1) div a * a"

section \<open>The code\<close>

definition edma_stop_rx_tx :: "platform \<Rightarrow> (drv, unit) state" where
  "edma_stop_rx_tx P = do {
     p \<leftarrow> gets edma;
     d \<leftarrow> readl P (base p + EDMA_REG_RXQ_CTRL);
     let d = d AND NOT EDMA_RXQ_CTRL_EN;
     writel d (base p + EDMA_REG_RXQ_CTRL);
     d \<leftarrow> readl P (base p + EDMA_REG_TXQ_CTRL);
     let d = d AND NOT EDMA_TXQ_CTRL_TXQ_EN;
     writel d (base p + EDMA_REG_TXQ_CTRL) }"

definition edma_start_rx_tx :: "platform \<Rightarrow> (drv, unit) state" where
  "edma_start_rx_tx P = do {
     p \<leftarrow> gets edma;
     d \<leftarrow> readl P (base p + EDMA_REG_RXQ_CTRL);
     let d = d OR EDMA_RXQ_CTRL_EN;
     writel d (base p + EDMA_REG_RXQ_CTRL);
     d \<leftarrow> readl P (base p + EDMA_REG_TXQ_CTRL);
     let d = d OR EDMA_TXQ_CTRL_TXQ_EN;
     writel d (base p + EDMA_REG_TXQ_CTRL) }"

definition edma_configure :: "(drv, unit) state" where
  "edma_configure = do {
     p \<leftarrow> gets edma;
     writel IPQ4019_EDMA_RSS_TYPE_NONE (base p + EDMA_REG_RSS_TYPE);
     for_each [0..<EDMA_NUM_IDT] (\<lambda>i. writel EDMA_RSS_IDT_VALUE (base p + EDMA_REG_RSS_IDT i));
     let tmp = push_bit EDMA_RXQ_RFD_BURST_NUM_SHIFT EDMA_RFD_BURST;
     let tmp = tmp OR push_bit EDMA_RXQ_RFD_PF_THRESH_SHIFT EDMA_RFD_THR;
     let tmp = tmp OR push_bit EDMA_RXQ_RFD_LOW_THRESH_SHIFT EDMA_RFD_LTHR;
     writel tmp (base p + EDMA_REG_RX_DESC1);
     let tmp = EDMA_FIFO_THRESH_128_BYTE OR EDMA_RXQ_CTRL_RMV_VLAN;
     writel tmp (base p + EDMA_REG_RXQ_CTRL);
     let tmp = push_bit EDMA_TXQ_NUM_TPD_BURST_SHIFT EDMA_TPD_BURST;
     let tmp = tmp OR EDMA_TXQ_CTRL_TPD_BURST_EN;
     let tmp = tmp OR push_bit EDMA_TXQ_TXF_BURST_NUM_SHIFT EDMA_TXF_BURST;
     writel tmp (base p + EDMA_REG_TXQ_CTRL) }"

definition edma_init_desc :: "platform \<Rightarrow> (drv, unit) state" where
  "edma_init_desc P = do {
     p \<leftarrow> gets edma;
     writel (phys P (tpd_ring p)) (base p + EDMA_REG_TPD_BASE_ADDR_Q EDMA_TXQ_ID);
     data \<leftarrow> readl P (base p + EDMA_REG_TPD_IDX_Q EDMA_TXQ_ID);
     let hw_cons = drop_bit EDMA_TPD_CONS_IDX_SHIFT data AND EDMA_TPD_CONS_IDX_MASK;
     upd_edma (\<lambda>p. p\<lparr>tpd_head := ucast hw_cons\<rparr>);
     upd_edma (\<lambda>p. p\<lparr>tpd_tail := ucast hw_cons\<rparr>);
     let data = data AND NOT EDMA_TPD_PROD_IDX_MASK;
     let data = data OR hw_cons;
     writel data (base p + EDMA_REG_TPD_IDX_Q EDMA_TXQ_ID);
     writel hw_cons (base p + EDMA_REG_TX_SW_CONS_IDX_Q EDMA_TXQ_ID);
     writel (of_nat NO_OF_TX_DESC AND EDMA_TPD_RING_SIZE_MASK) (base p + EDMA_REG_TPD_RING_SIZE);
     writel (phys P (rfd_ring p)) (base p + EDMA_REG_RFD_BASE_ADDR_Q EDMA_RXQ_ID);
     let data = push_bit EDMA_RFD_RING_SIZE_SHIFT (of_nat NO_OF_RX_DESC AND EDMA_RFD_RING_SIZE_MASK);
     let data = data OR push_bit EDMA_RX_BUF_SIZE_SHIFT (of_nat EDMA_RX_BUF_SIZE AND EDMA_RX_BUF_SIZE_MASK);
     writel data (base p + EDMA_REG_RX_DESC0);
     writel 0 (base p + EDMA_REG_TXF_WATER_MARK);
     data \<leftarrow> readl P (base p + EDMA_REG_TX_SRAM_PART);
     let data = data OR push_bit EDMA_LOAD_PTR_SHIFT 1;
     writel data (base p + EDMA_REG_TX_SRAM_PART) }"

definition edma_init_rfd_ring :: "platform \<Rightarrow> (drv, unit) state" where
  "edma_init_rfd_ring P = do {
     for_each [0..<NO_OF_RX_DESC] (\<lambda>i. do {
       b \<leftarrow> load_rx_packet i;
       store_rfd i \<lparr>buffer_addr = phys P b\<rparr> });
     p \<leftarrow> gets edma;
     flush_range (rfd_ring p) (NO_OF_RX_DESC * sizeof_rfd);
     upd_edma (\<lambda>p. p\<lparr>rfd_head := of_nat (NO_OF_RX_DESC - 1)\<rparr>);
     upd_edma (\<lambda>p. p\<lparr>rfd_tail := 0\<rparr>);
     p \<leftarrow> gets edma;
     writel (ucast (rfd_head p)) (base p + EDMA_REG_RFD_IDX_Q EDMA_RXQ_ID) }"

text \<open>The buffer loop of \<open>edma_alloc_rings\<close>, which returns at the first failure.\<close>

primrec alloc_rx_buffers :: "platform \<Rightarrow> nat list \<Rightarrow> (drv, int) state" where
  "alloc_rx_buffers P [] = ret 0"
| "alloc_rx_buffers P (i # is) = do {
     b \<leftarrow> xmemalign P (line_bytes P) EDMA_RX_BUF_SIZE;
     modify (\<lambda>s. s\<lparr>net_rx_packets := (net_rx_packets s)[i := b]\<rparr>);
     if b = 0 then ret (- 1) else alloc_rx_buffers P is }"

definition edma_alloc_rings :: "platform \<Rightarrow> (drv, int) state" where
  "edma_alloc_rings P = do {
     let cl = line_bytes P;
     t \<leftarrow> xmemalign P cl (align_up (NO_OF_TX_DESC * sizeof_tpd) cl);
     upd_edma (\<lambda>p. p\<lparr>tpd_ring := t\<rparr>);
     r \<leftarrow> xmemalign P cl (align_up (NO_OF_RX_DESC * sizeof_rfd) cl);
     upd_edma (\<lambda>p. p\<lparr>rfd_ring := r\<rparr>);
     if t = 0 \<or> r = 0 then ret (- 1)
     else do {
       modify (\<lambda>s. s\<lparr>tpd_mem := replicate NO_OF_TX_DESC zero_tpd\<rparr>);
       modify (\<lambda>s. s\<lparr>rfd_mem := replicate NO_OF_RX_DESC zero_rfd\<rparr>);
       rc \<leftarrow> alloc_rx_buffers P [0..<NO_OF_RX_DESC];
       if rc \<noteq> 0 then ret (- 1)
       else do {
         upd_edma (\<lambda>p. p\<lparr>tpd_head := 0, tpd_tail := 0\<rparr>);
         upd_edma (\<lambda>p. p\<lparr>rfd_head := 0, rfd_tail := 0\<rparr>);
         ret 0 } } }"

definition ipq4019_eth_start :: "platform \<Rightarrow> (drv, int) state" where
  "ipq4019_eth_start P = do {
     edma_init_rfd_ring P;
     edma_start_rx_tx P;
     ess_switch_enable_lookup P;
     upd_edma (\<lambda>p. p\<lparr>started := 1\<rparr>);
     ret 0 }"

section \<open>Ring indices\<close>

text \<open>
  An index into a ring of N descriptors is advanced by incrementing it and
  resetting it to 0 when it reaches N.
\<close>

definition ring_next :: "nat \<Rightarrow> u16 \<Rightarrow> u16" where
  "ring_next n i = (if i + 1 = of_nat n then 0 else i + 1)"

locale index_ring =
  fixes N :: nat and next_index :: "u16 \<Rightarrow> u16"
  assumes size_pos: "0 < N" and size_word: "N < 65536"
    and next_mod: "unat i < N \<Longrightarrow> unat (next_index i) = (unat i + 1) mod N"
begin

lemma next_in_range: "unat i < N \<Longrightarrow> unat (next_index i) < N"
  using size_pos by (simp add: next_mod)

lemma iterate_mod: "unat i < N \<Longrightarrow> unat ((next_index ^^ k) i) = (unat i + k) mod N"
proof (induction k)
  case 0
  then show ?case by simp
next
  case (Suc k)
  then have "unat ((next_index ^^ k) i) < N" using size_pos by simp
  then show ?case using Suc by (simp add: next_mod mod_Suc_eq)
qed

lemma full_circle: "unat i < N \<Longrightarrow> (next_index ^^ N) i = i"
  using iterate_mod [of i N] by (simp add: word_unat_eq_iff)

lemma slots_distinct:
  assumes "unat i < N" and "j < N" and "k < N" and "(next_index ^^ j) i = (next_index ^^ k) i"
  shows "j = k"
proof -
  have "(unat i + j) mod N = (unat i + k) mod N"
    using assms(1,4) iterate_mod [of i j] iterate_mod [of i k] by simp
  then have "j mod N = k mod N" by (simp add: nat_mod_eq_iff mod_add_left_eq)
  then show ?thesis using assms(2,3) by simp
qed

end


lemma ring_next_mod:
  assumes "0 < n" and "n < 65536" and "unat i < n"
  shows "unat (ring_next n i) = (unat i + 1) mod n"
proof -
  have inc: "unat (i + 1) = unat i + 1" using assms by (simp add: unat_word_ariths)
  have "i + 1 = of_nat n \<longleftrightarrow> unat i + 1 = n"
    using assms inc by (auto simp: word_unat_eq_iff unat_of_nat)
  then show ?thesis using assms inc by (auto simp: ring_next_def)
qed

interpretation tx_index: index_ring NO_OF_TX_DESC "ring_next NO_OF_TX_DESC"
  by unfold_locales (use ring_next_mod [of 8] in simp_all)

interpretation rx_index: index_ring NO_OF_RX_DESC "ring_next NO_OF_RX_DESC"
  by unfold_locales (use ring_next_mod [of 512] in simp_all)

section \<open>Effects\<close>

lemma wp_store_tpd [simp, wp_simps]:
  "wp (store_tpd k d) Q s =
    (if k < length (tpd_mem s)
     then Q () (s\<lparr>hist := StTpd k d # hist s, tpd_mem := (tpd_mem s)[k := d]\<rparr>)
     else Q () (s\<lparr>ub := True\<rparr>))"
  by (simp add: store_tpd_def)

lemma wp_store_rfd [simp, wp_simps]:
  "wp (store_rfd k d) Q s =
    (if k < length (rfd_mem s)
     then Q () (s\<lparr>hist := StRfd k d # hist s, rfd_mem := (rfd_mem s)[k := d]\<rparr>)
     else Q () (s\<lparr>ub := True\<rparr>))"
  by (simp add: store_rfd_def)

lemma wp_load_rx_packet [simp, wp_simps]:
  "wp (load_rx_packet k) Q s =
    (if k < length (net_rx_packets s) then Q (net_rx_packets s ! k) s else Q 0 (s\<lparr>ub := True\<rparr>))"
  by (simp add: load_rx_packet_def)

lemma wp_ranges [simp, wp_simps]:
  "wp (flush_range a n) Q s = Q () (s\<lparr>hist := Clean a n # hist s\<rparr>)"
  "wp (invalidate_range a n) Q s = Q () (s\<lparr>hist := Inval a n # hist s\<rparr>)"
  by (simp_all add: flush_range_def invalidate_range_def)

lemma wp_edma_stop:
  assumes "\<And>r t. Q () (s\<lparr>hist := [Wr (base (edma s) + 0x404) (t AND NOT 0x20), Rd (base (edma s) + 0x404) t,
       Wr (base (edma s) + 0xa18) (r AND NOT 0xff00), Rd (base (edma s) + 0xa18) r] @ hist s\<rparr>)"
  shows "wp (edma_stop_rx_tx P) Q s"
  unfolding edma_stop_rx_tx_def Let_def wp_bind wp_gets
  by (rule wp_readlI, simp only: wp_prims, rule wp_readlI) (use assms in simp)

lemma wp_edma_start:
  assumes "\<And>r t. Q () (s\<lparr>hist := [Wr (base (edma s) + 0x404) (t OR 0x20), Rd (base (edma s) + 0x404) t,
       Wr (base (edma s) + 0xa18) (r OR 0xff00), Rd (base (edma s) + 0xa18) r] @ hist s\<rparr>)"
  shows "wp (edma_start_rx_tx P) Q s"
  unfolding edma_start_rx_tx_def Let_def wp_bind wp_gets
  by (rule wp_readlI, simp only: wp_prims, rule wp_readlI) (use assms in simp)

text \<open>
  Stopping clears the RX and TX queue enable bits and starting sets them; the
  other bits are written back as read, and nothing else is touched.
\<close>

theorem stop_start_accesses:
  "let b = base (edma w) in
   (\<exists>r t. exec (edma_stop_rx_tx P) w = w\<lparr>hist :=
      [Wr (b + 0x404) (t AND NOT 0x20), Rd (b + 0x404) t,
       Wr (b + 0xa18) (r AND NOT 0xff00), Rd (b + 0xa18) r] @ hist w\<rparr>) \<and>
   (\<exists>r t. exec (edma_start_rx_tx P) w = w\<lparr>hist :=
      [Wr (b + 0x404) (t OR 0x20), Rd (b + 0x404) t,
       Wr (b + 0xa18) (r OR 0xff00), Rd (b + 0xa18) r] @ hist w\<rparr>)"
  unfolding Let_def
  by (rule conjI; rule wp_execI) (rule wp_edma_stop, blast, rule wp_edma_start, blast)

section \<open>The receive ring\<close>

text \<open>The content a free descriptor should have.\<close>

definition rfd_of :: "platform \<Rightarrow> drv \<Rightarrow> nat \<Rightarrow> edma_rfd" where
  "rfd_of P s i = \<lparr>buffer_addr = phys P (net_rx_packets s ! i)\<rparr>"

lemma wp_rfd_loop:
  assumes len: "length (rfd_mem s) = 512" "length (net_rx_packets s) = 512"
    and Q: "Q () (s\<lparr>hist := map (\<lambda>i. StRfd i (rfd_of P s i)) (rev [0..<512]) @ hist s,
      rfd_mem := map (rfd_of P s) [0..<512]\<rparr>)"
  shows "wp (for_each [0..<NO_OF_RX_DESC] (\<lambda>i. do {
       b \<leftarrow> load_rx_packet i;
       store_rfd i \<lparr>buffer_addr = phys P b\<rparr> })) Q s"
proof (rule wp_for_upto [where I = "\<lambda>k t. t = s\<lparr>hist := map (\<lambda>i. StRfd i (rfd_of P s i)) (rev [0..<k]) @ hist s,
      rfd_mem := map (rfd_of P s) [0..<k] @ drop k (rfd_mem s)\<rparr>"])
  fix k and t :: drv
  assume k: "k < NO_OF_RX_DESC"
    and t: "t = s\<lparr>hist := map (\<lambda>i. StRfd i (rfd_of P s i)) (rev [0..<k]) @ hist s,
      rfd_mem := map (rfd_of P s) [0..<k] @ drop k (rfd_mem s)\<rparr>"
  obtain x xs where x: "drop k (rfd_mem s) = x # xs" and xs: "drop (Suc k) (rfd_mem s) = xs"
    using k len(1) by (cases "drop k (rfd_mem s)") (auto simp: drop_Suc tl_drop [symmetric])
  have "(map (rfd_of P s) [0..<k] @ x # xs)[k := rfd_of P s k] = map (rfd_of P s) [0..<Suc k] @ xs"
    by (simp add: list_update_append)
  then show "wp (do { b \<leftarrow> load_rx_packet k; store_rfd k \<lparr>buffer_addr = phys P b\<rparr> })
      (\<lambda>_ t. t = s\<lparr>hist := map (\<lambda>i. StRfd i (rfd_of P s i)) (rev [0..<Suc k]) @ hist s,
        rfd_mem := map (rfd_of P s) [0..<Suc k] @ drop (Suc k) (rfd_mem s)\<rparr>) t"
    using k len t x xs by (simp add: rfd_of_def)
qed (use Q len in simp_all)

section \<open>What the device sees\<close>

text \<open>
  The device reads descriptors from RAM. A CPU store reaches RAM when a cache
  clean covers its descriptor: \<open>dma_view\<close> is the descriptor of slot k in RAM
  after a history, None when the driver never wrote it back. \<open>st\<close> picks the
  stores to the ring, which lies at \<open>ring\<close> with descriptors of \<open>sz\<close> bytes.
\<close>

fun tpd_store :: "event \<Rightarrow> (nat \<times> edma_tpd) option" where
  "tpd_store (StTpd k d) = Some (k, d)"
| "tpd_store _ = None"

fun rfd_store :: "event \<Rightarrow> (nat \<times> edma_rfd) option" where
  "rfd_store (StRfd k d) = Some (k, d)"
| "rfd_store _ = None"

primrec cpu_view :: "(event \<Rightarrow> (nat \<times> 'd) option) \<Rightarrow> event list \<Rightarrow> nat \<Rightarrow> 'd option" where
  "cpu_view st [] k = None"
| "cpu_view st (e # es) k = (case st e of
     Some (j, d) \<Rightarrow> if j = k then Some d else cpu_view st es k
   | None \<Rightarrow> cpu_view st es k)"

fun dma_view :: "(event \<Rightarrow> (nat \<times> 'd) option) \<Rightarrow> u32 \<Rightarrow> nat \<Rightarrow> event list \<Rightarrow> nat \<Rightarrow> 'd option" where
  "dma_view st ring sz [] k = None"
| "dma_view st ring sz (Clean a n # es) k =
     (if unat a \<le> unat ring + k * sz \<and> unat ring + k * sz + sz \<le> unat a + n
      then cpu_view st es k else dma_view st ring sz es k)"
| "dma_view st ring sz (_ # es) k = dma_view st ring sz es k"

abbreviation dma_tpd :: "u32 \<Rightarrow> event list \<Rightarrow> nat \<Rightarrow> edma_tpd option" where
  "dma_tpd ring \<equiv> dma_view tpd_store ring sizeof_tpd"

abbreviation dma_rfd :: "u32 \<Rightarrow> event list \<Rightarrow> nat \<Rightarrow> edma_rfd option" where
  "dma_rfd ring \<equiv> dma_view rfd_store ring sizeof_rfd"

lemma cpu_view_rfd_loop [simp]:
  "cpu_view rfd_store (map (\<lambda>i. StRfd i (f i)) (rev [0..<n]) @ h) k =
    (if k < n then Some (f k) else cpu_view rfd_store h k)"
  by (induction n) auto

lemma writes_map_store [simp]:
  "writes (map (\<lambda>i. StRfd i (f i)) xs) = []" "reads (map (\<lambda>i. StRfd i (f i)) xs) = []"
  by (induction xs) simp_all

lemma wp_edma_init_rfd_ring:
  assumes "length (rfd_mem s) = 512" and "length (net_rx_packets s) = 512"
    and "Q () (s\<lparr>hist := [Wr (base (edma s) + 0x9b0) 511, Clean (rfd_ring (edma s)) 2048] @
        map (\<lambda>i. StRfd i (rfd_of P s i)) (rev [0..<512]) @ hist s,
      rfd_mem := map (rfd_of P s) [0..<512], edma := (edma s)\<lparr>rfd_head := 511, rfd_tail := 0\<rparr>\<rparr>)"
  shows "wp (edma_init_rfd_ring P) Q s"
  unfolding edma_init_rfd_ring_def wp_bind
  by (rule wp_rfd_loop [OF assms(1,2)]) (use assms(3) in simp)

text \<open>
  C15: \<open>edma_init_rfd_ring\<close> points every free descriptor at its buffer and hands
  the hardware 511 descriptors (producer 511, software consumer 0); when the
  doorbell is written, the DMA view of every descriptor is its final content.
\<close>

theorem init_rfd_ring_spec:
  assumes "length (rfd_mem w) = 512" and "length (net_rx_packets w) = 512"
  shows "\<exists>es. exec (edma_init_rfd_ring P) w =
      w\<lparr>hist := Wr (base (edma w) + 0x9b0) 511 # es @ hist w, rfd_mem := map (rfd_of P w) [0..<512],
        edma := (edma w)\<lparr>rfd_head := 511, rfd_tail := 0\<rparr>\<rparr> \<and>
    writes es = [] \<and>
    map (dma_rfd (rfd_ring (edma w)) (es @ hist w)) [0..<512] = map (\<lambda>i. Some (rfd_of P w i)) [0..<512]"
proof (rule wp_execI, rule wp_edma_init_rfd_ring [OF assms])
  let ?es = "Clean (rfd_ring (edma w)) 2048 # map (\<lambda>i. StRfd i (rfd_of P w i)) (rev [0..<512])"
  have "map (dma_rfd (rfd_ring (edma w)) (?es @ hist w)) [0..<512] = map (\<lambda>i. Some (rfd_of P w i)) [0..<512]"
    by (rule map_cong) simp_all
  then show "\<exists>es. w\<lparr>hist := [Wr (base (edma w) + 0x9b0) 511, Clean (rfd_ring (edma w)) 2048] @
        map (\<lambda>i. StRfd i (rfd_of P w i)) (rev [0..<512]) @ hist w,
      rfd_mem := map (rfd_of P w) [0..<512], edma := (edma w)\<lparr>rfd_head := 511, rfd_tail := 0\<rparr>\<rparr> =
      w\<lparr>hist := Wr (base (edma w) + 0x9b0) 511 # es @ hist w, rfd_mem := map (rfd_of P w) [0..<512],
        edma := (edma w)\<lparr>rfd_head := 511, rfd_tail := 0\<rparr>\<rparr> \<and> writes es = [] \<and>
    map (dma_rfd (rfd_ring (edma w)) (es @ hist w)) [0..<512] = map (\<lambda>i. Some (rfd_of P w i)) [0..<512]"
    by (intro exI [of _ ?es]) (simp del: upt_rec_numeral upt_conv_Cons)
qed

definition ready_rings :: drv where
  "ready_rings = boot\<lparr>rfd_mem := replicate 512 zero_rfd, tpd_mem := replicate 8 zero_tpd,
     net_rx_packets := replicate 512 0x40000000\<rparr>"

lemma ready_rings_simps [simp]:
  "edma ready_rings = zero_dev" "length (tpd_mem ready_rings) = 8" "length (rfd_mem ready_rings) = 512"
  "length (net_rx_packets ready_rings) = 512" "hist ready_rings = []" "console ready_rings = []"
  "ub ready_rings = False" "vars ready_rings = zero_statics" "base zero_dev = 0" "esw zero_dev = 0"
  "tpd_head zero_dev = 0" "rfd_head zero_dev = 0" "rfd_tail zero_dev = 0" "started zero_dev = 0"
  "tpd_ring zero_dev = 0" "rfd_ring zero_dev = 0"
  by (simp_all add: ready_rings_def boot_def zero_dev_def)

theorem init_rfd_ring_spec_witness:
  "rfd_head (edma (exec (edma_init_rfd_ring silent) ready_rings)) = 511 \<and>
   length (rfd_mem (exec (edma_init_rfd_ring silent) ready_rings)) = 512"
  using init_rfd_ring_spec [of ready_rings silent] by (auto simp: ready_rings_def boot_def)

section \<open>Configuration\<close>

definition configure_writes :: "u32 \<Rightarrow> (u32 \<times> u32) list" where
  "configure_writes b = [(b + 0x894, 1)] @ map (\<lambda>i. (b + (0x840 + of_nat (4 * i)), 0x64206420)) [0..<16] @
       [(b + 0xa14, 0x1008), (b + 0xa18, 2), (b + 0x404, 0x1000105)]"

lemma wp_edma_configure:
  assumes "\<And>es. length es = 20 \<Longrightarrow> writes es = configure_writes (base (edma s)) \<Longrightarrow>
    Q () (s\<lparr>hist := es @ hist s\<rparr>)"
  shows "wp edma_configure Q s"
proof -
  let ?es = "map (\<lambda>(a, v). Wr a v) (rev (configure_writes (base (edma s))))"
  have "Q () (s\<lparr>hist := ?es @ hist s\<rparr>)"
    by (rule assms) (simp_all add: configure_writes_def upt_conv_Cons)
  then show ?thesis by (simp add: edma_configure_def configure_writes_def upt_conv_Cons)
qed

text \<open>
  \<open>edma_configure\<close> reads nothing and writes, in this order, the RSS type,
  the 16 words of the indirection table, the RX descriptor thresholds (8 per
  burst, prefetch at 16), the RX queue control (VLAN removal) and the TX queue
  control (5 descriptors per burst, 256-byte TXF bursts).
\<close>

theorem edma_configure_writes:
  "\<exists>es. exec edma_configure w = w\<lparr>hist := es @ hist w\<rparr> \<and> length es = 20 \<and>
    (let b = base (edma w) in
     writes es = [(b + 0x894, 1)] @ map (\<lambda>i. (b + (0x840 + of_nat (4 * i)), 0x64206420)) [0..<16] @
       [(b + 0xa14, 0x1008), (b + 0xa18, 2), (b + 0x404, 0x1000105)])"
  by (rule wp_execI, rule wp_edma_configure) (auto simp: configure_writes_def)

section \<open>Descriptor registers\<close>

lemma wp_edma_init_desc:
  assumes "\<And>d r c. d = bus_read P (Wr (base (edma s) + 0x420) (phys P (tpd_ring (edma s))) # hist s)
        (base (edma s) + 0x460) \<Longrightarrow> c = drop_bit 16 d AND 0xffff \<Longrightarrow>
      Q () (s\<lparr>hist :=
        [Wr (base (edma s) + 0x400) (r OR 0x10000), Rd (base (edma s) + 0x400) r,
         Wr (base (edma s) + 0x408) 0, Wr (base (edma s) + 0xa10) 0x08000200,
         Wr (base (edma s) + 0x950) (phys P (rfd_ring (edma s))), Wr (base (edma s) + 0x41c) 8,
         Wr (base (edma s) + 0x240) c, Wr (base (edma s) + 0x460) (d AND NOT 0xffff OR c),
         Rd (base (edma s) + 0x460) d,
         Wr (base (edma s) + 0x420) (phys P (tpd_ring (edma s)))] @ hist s,
        edma := (edma s)\<lparr>tpd_head := ucast c, tpd_tail := ucast c\<rparr>\<rparr>)"
  shows "wp (edma_init_desc P) Q s"
  unfolding edma_init_desc_def Let_def wp_bind wp_gets
  by (simp only: wp_prims, rule wp_readlI, simp, rule wp_readlI) (use assms in simp)

lemma index_register_empty:
  fixes d :: u32
  shows "(d AND NOT 0xffff OR (drop_bit 16 d AND 0xffff)) AND 0xffff = drop_bit 16 d AND 0xffff"
    and "drop_bit 16 (d AND NOT 0xffff OR (drop_bit 16 d AND 0xffff)) AND 0xffff = drop_bit 16 d AND 0xffff"
  unfolding mask_numerals by (rule bit_word_eqI, auto simp: bit_simps)+

text \<open>
  \<open>edma_init_desc\<close> takes the hardware's consumer index as the driver's head
  and tail and writes it back as the producer index and as the software consumer
  index, so the TX ring starts empty wherever the hardware stands; it sets both
  ring bases, the ring sizes (8 and 512), the RX buffer size (2048) and the load
  pointer bit.
\<close>

theorem init_desc_spec:
  "\<exists>d r. let b = base (edma w); c = drop_bit 16 d AND 0xffff; w' = exec (edma_init_desc P) w;
        x = d AND NOT 0xffff OR c in
     x AND 0xffff = c \<and> drop_bit 16 x AND 0xffff = c \<and>
     edma w' = (edma w)\<lparr>tpd_head := ucast c, tpd_tail := ucast c\<rparr> \<and>
     w' = w\<lparr>hist := hist w', edma := edma w'\<rparr> \<and>
     reads (hist w') = reads (hist w) @ [(b + 0x460, d), (b + 0x400, r)] \<and>
     writes (hist w') = writes (hist w) @
       [(b + 0x420, phys P (tpd_ring (edma w))), (b + 0x460, x), (b + 0x240, c),
        (b + 0x41c, 8), (b + 0x950, phys P (rfd_ring (edma w))), (b + 0xa10, push_bit 16 2048 OR 512),
        (b + 0x408, 0), (b + 0x400, r OR push_bit 16 1)]"
  by (rule wp_execI, rule wp_edma_init_desc) (auto simp: Let_def index_register_empty [simplified] intro!: exI)

section \<open>Allocation\<close>

text \<open>
  The buffer loop from entry \<open>i\<close> on: with pointers \<open>ps\<close> it fills entries
  \<open>i ..< i + length ps\<close>; it stops after the first NULL.
\<close>

lemma drop_take_update: "i < length xs \<Longrightarrow> take i xs @ p # drop (Suc i) xs = xs[i := p]"
  by (simp add: upd_conv_take_nth_drop)

lemma wp_alloc_rx_buffers:
  assumes "i + n = length (net_rx_packets s)"
    and ok: "\<And>es ps. length ps = n \<Longrightarrow> 0 \<notin> set ps \<Longrightarrow>
      allocs es = map (\<lambda>p. (line_bytes P, EDMA_RX_BUF_SIZE, p)) ps \<Longrightarrow>
      Q 0 (s\<lparr>hist := es @ hist s, net_rx_packets := take i (net_rx_packets s) @ ps\<rparr>)"
    and null: "\<And>es ps qs. length ps < n \<Longrightarrow> length (ps @ qs) = n \<Longrightarrow> 
      allocs es = map (\<lambda>p. (line_bytes P, EDMA_RX_BUF_SIZE, p)) (ps @ [0]) \<Longrightarrow>
      Q (- 1) (s\<lparr>hist := es @ hist s, net_rx_packets := take i (net_rx_packets s) @ ps @ qs\<rparr>)"
  shows "wp (alloc_rx_buffers P [i..<i + n]) Q s"
  using assms
proof (induction n arbitrary: i s)
  case 0
  then show ?case using 0(2) [of "[]" "[]"] by simp
next
  case (Suc n)
  let ?p = "memalign_ptr P (hist s) (line_bytes P) EDMA_RX_BUF_SIZE"
  let ?e = "Memalign (line_bytes P) EDMA_RX_BUF_SIZE ?p"
  let ?s = "s\<lparr>hist := ?e # hist s, net_rx_packets := (net_rx_packets s)[i := ?p]\<rparr>"
  have upt: "[i..<i + Suc n] = i # [Suc i..<Suc i + n]" by (simp add: upt_conv_Cons)
  have tk: "take (Suc i) ((net_rx_packets s)[i := ?p]) = take i (net_rx_packets s) @ [?p]"
    using Suc.prems(1) by (simp add: take_Suc_conv_app_nth)
  show ?case
  proof (cases "?p = 0")
    case True
    have "(net_rx_packets s)[i := 0] = take i (net_rx_packets s) @ [] @ (0 # drop (Suc i) (net_rx_packets s))"
      using Suc.prems(1) by (simp add: upd_conv_take_nth_drop)
    then show ?thesis
      unfolding upt
      using True Suc.prems(1) Suc.prems(3) [of "[]" "0 # drop (Suc i) (net_rx_packets s)" "[?e]"]
      by (simp add: wp_xmemalign)
  next
    case False
    have "wp (alloc_rx_buffers P [Suc i..<Suc i + n]) Q ?s"
    proof (rule Suc.IH)
      show "Suc i + n = length (net_rx_packets ?s)" using Suc.prems(1) by simp
      fix es ps
      assume "length ps = n" "0 \<notin> set ps"
        "allocs es = map (\<lambda>p. (line_bytes P, EDMA_RX_BUF_SIZE, p)) ps"
      then show "Q 0 (?s\<lparr>hist := es @ hist ?s, net_rx_packets := take (Suc i) (net_rx_packets ?s) @ ps\<rparr>)"
        using Suc.prems(2) [of "?p # ps" "es @ [?e]"] False tk by simp
    next
      fix es ps qs
      assume "length ps < n" "length (ps @ qs) = n"
        "allocs es = map (\<lambda>p. (line_bytes P, EDMA_RX_BUF_SIZE, p)) (ps @ [0])"
      then show "Q (- 1) (?s\<lparr>hist := es @ hist ?s, net_rx_packets := take (Suc i) (net_rx_packets ?s) @ ps @ qs\<rparr>)"
        using Suc.prems(3) [of "?p # ps" qs "es @ [?e]"] False tk by simp
    qed
    then show ?thesis unfolding upt using False by (simp add: wp_xmemalign)
  qed
qed


lemma wp_edma_alloc_rings:
  assumes len: "length (net_rx_packets s) = 512"
    and ok: "\<And>es ps t r. length ps = 512 \<Longrightarrow> 0 \<notin> set ([t, r] @ ps) \<Longrightarrow>
      allocs es = [(line_bytes P, align_up 128 (line_bytes P), t),
        (line_bytes P, align_up 2048 (line_bytes P), r)] @ map (\<lambda>p. (line_bytes P, 2048, p)) ps \<Longrightarrow>
      Q 0 (s\<lparr>hist := es @ hist s, net_rx_packets := ps,
        tpd_mem := replicate 8 zero_tpd, rfd_mem := replicate 512 zero_rfd,
        edma := (edma s)\<lparr>tpd_ring := t, rfd_ring := r, tpd_head := 0, tpd_tail := 0, rfd_head := 0, rfd_tail := 0\<rparr>\<rparr>)"
    and null: "\<And>es t r tm rm ps. 0 \<in> (snd \<circ> snd) ` set (allocs es) \<Longrightarrow> length ps = 512 \<Longrightarrow>
      Q (- 1) (s\<lparr>hist := es @ hist s, net_rx_packets := ps, tpd_mem := tm, rfd_mem := rm,
        edma := (edma s)\<lparr>tpd_ring := t, rfd_ring := r\<rparr>\<rparr>)"
  shows "wp (edma_alloc_rings P) Q s"
proof -
  let ?cl = "line_bytes P"
  let ?t = "memalign_ptr P (hist s) ?cl (align_up 128 ?cl)"
  let ?h1 = "Memalign ?cl (align_up 128 ?cl) ?t # hist s"
  let ?r = "memalign_ptr P ?h1 ?cl (align_up 2048 ?cl)"
  let ?h2 = "Memalign ?cl (align_up 2048 ?cl) ?r # ?h1"
  let ?s = "s\<lparr>hist := ?h2, edma := (edma s)\<lparr>tpd_ring := ?t, rfd_ring := ?r\<rparr>,
    tpd_mem := replicate 8 zero_tpd, rfd_mem := replicate 512 zero_rfd\<rparr>"
  let ?es = "[Memalign ?cl (align_up 2048 ?cl) ?r, Memalign ?cl (align_up 128 ?cl) ?t]"
  let ?fin = "\<lambda>rc :: int. if rc \<noteq> 0 then ret (- 1) else do {
         upd_edma (\<lambda>p. p\<lparr>tpd_head := 0, tpd_tail := 0\<rparr>);
         upd_edma (\<lambda>p. p\<lparr>rfd_head := 0, rfd_tail := 0\<rparr>);
         ret 0 }"
  show ?thesis
  proof (cases "?t = 0 \<or> ?r = 0")
    case True
    then have "0 \<in> (snd \<circ> snd) ` set (allocs ?es)" by auto
    from null [OF this len, where tm = "tpd_mem s" and rm = "rfd_mem s" and t = ?t and r = ?r] True show ?thesis
      by (auto simp: edma_alloc_rings_def wp_xmemalign Let_def)
  next
    case False
    have "wp (alloc_rx_buffers P [0..<0 + 512]) (\<lambda>rc. wp (?fin rc) Q) ?s"
    proof (rule wp_alloc_rx_buffers)
      show "0 + 512 = length (net_rx_packets ?s)" using len by simp
      fix es ps
      assume "length ps = 512" "0 \<notin> set ps"
        "allocs es = map (\<lambda>p. (line_bytes P, EDMA_RX_BUF_SIZE, p)) ps"
      then show "wp (?fin 0) Q (?s\<lparr>hist := es @ hist ?s, net_rx_packets := take 0 (net_rx_packets ?s) @ ps\<rparr>)"
        using ok [of ps ?t ?r "es @ ?es"] False by simp
    next
      fix es ps qs
      assume "length (ps @ qs) = 512"
        "allocs es = map (\<lambda>p. (line_bytes P, EDMA_RX_BUF_SIZE, p)) (ps @ [0])"
      then show "wp (?fin (- 1)) Q (?s\<lparr>hist := es @ hist ?s, net_rx_packets := take 0 (net_rx_packets ?s) @ ps @ qs\<rparr>)"
        using null [where es = "es @ ?es" and ps = "ps @ qs" and t = ?t and r = ?r and tm = "replicate 8 zero_tpd" and rm = "replicate 512 zero_rfd"] by simp
    qed
    then show ?thesis using False
      by (simp add: edma_alloc_rings_def wp_xmemalign Let_def)
  qed
qed


text \<open>
  C32: \<open>edma_alloc_rings\<close> returns 0 exactly with both rings and all 512 buffers
  allocated at cache-line alignment, the rings zeroed and the four indices 0;
  otherwise it returns -1 and some allocation gave NULL.
\<close>

theorem alloc_rings_spec:
  assumes "length (net_rx_packets w) = 512"
  shows "let rc = result (edma_alloc_rings P) w; w' = exec (edma_alloc_rings P) w; p = edma w';
      cl = line_bytes P
    in \<exists>es. hist w' = es @ hist w \<and> length (net_rx_packets w') = 512 \<and> ub w' = ub w \<and>
      (if rc = 0
       then allocs es = [(cl, align_up 128 cl, tpd_ring p), (cl, align_up 2048 cl, rfd_ring p)] @
              map (\<lambda>b. (cl, 2048, b)) (net_rx_packets w') \<and>
            0 \<notin> (snd \<circ> snd) ` set (allocs es) \<and>
            tpd_mem w' = replicate 8 zero_tpd \<and> rfd_mem w' = replicate 512 zero_rfd \<and>
            (tpd_head p, tpd_tail p, rfd_head p, rfd_tail p) = (0, 0, 0, 0)
       else rc = - 1 \<and> 0 \<in> (snd \<circ> snd) ` set (allocs es))"
proof -
  have "wp (edma_alloc_rings P) (\<lambda>rc w'. \<exists>es. hist w' = es @ hist w \<and>
      length (net_rx_packets w') = 512 \<and> ub w' = ub w \<and>
      (if rc = 0
       then allocs es = [(line_bytes P, align_up 128 (line_bytes P), tpd_ring (edma w')),
              (line_bytes P, align_up 2048 (line_bytes P), rfd_ring (edma w'))] @
              map (\<lambda>b. (line_bytes P, 2048, b)) (net_rx_packets w') \<and>
            0 \<notin> (snd \<circ> snd) ` set (allocs es) \<and>
            tpd_mem w' = replicate 8 zero_tpd \<and> rfd_mem w' = replicate 512 zero_rfd \<and>
            (tpd_head (edma w'), tpd_tail (edma w'), rfd_head (edma w'), rfd_tail (edma w')) = (0, 0, 0, 0)
       else rc = - 1 \<and> 0 \<in> (snd \<circ> snd) ` set (allocs es))) w"
    by (rule wp_edma_alloc_rings [OF assms]) (rule exI, force)+
  then show ?thesis by (simp only: wp_def Let_def)
qed

theorem alloc_rings_spec_witness:
  "length (net_rx_packets (exec (edma_alloc_rings silent) boot)) = 512"
  using alloc_rings_spec [of boot silent] by (auto simp: Let_def boot_def)

section \<open>Start\<close>

lemma wp_ipq4019_eth_start:
  assumes len: "length (rfd_mem s) = 512" "length (net_rx_packets s) = 512"
    and Q: "\<And>es ls r t v. lookup_accesses enabled_vid 0x3f3f3f (esw (edma s)) v ls \<Longrightarrow>
      es = ls @ [Wr (base (edma s) + 0x404) (t OR 0x20), Rd (base (edma s) + 0x404) t,
        Wr (base (edma s) + 0xa18) (r OR 0xff00), Rd (base (edma s) + 0xa18) r] @
        [Wr (base (edma s) + 0x9b0) 511, Clean (rfd_ring (edma s)) 2048] @
        map (\<lambda>i. StRfd i (rfd_of P s i)) (rev [0..<512]) \<Longrightarrow>
      Q 0 (s\<lparr>hist := es @ hist s, rfd_mem := map (rfd_of P s) [0..<512],
        edma := (edma s)\<lparr>rfd_head := 511, rfd_tail := 0, started := 1\<rparr>\<rparr>)"
  shows "wp (ipq4019_eth_start P) Q s"
  unfolding ipq4019_eth_start_def wp_bind
  by (rule wp_edma_init_rfd_ring [OF len], rule wp_edma_start, rule wp_enable_lookup)
    (use Q in simp)

text \<open>
  \<open>ipq4019_eth_start\<close> returns 0 and marks the device started; it rings the
  receive doorbell, enables the receive queues, then the transmit queue and last
  opens the switch, in that order.
\<close>

theorem eth_start_order:
  assumes "length (rfd_mem w) = 512" and "length (net_rx_packets w) = 512"
  shows "\<exists>es r t v. let w' = exec (ipq4019_eth_start P) w; b = base (edma w); e = esw (edma w) in
    result (ipq4019_eth_start P) w = 0 \<and>
    w' = w\<lparr>hist := es @ hist w, rfd_mem := map (rfd_of P w) [0..<512],
      edma := (edma w)\<lparr>rfd_head := 511, rfd_tail := 0, started := 1\<rparr>\<rparr> \<and>
    writes es = [(b + 0x9b0, 511), (b + 0xa18, r OR 0xff00), (b + 0x404, t OR 0x20)] @
      map (\<lambda>i. (e + (0x660 + of_nat i * 12), set_members (enabled_vid i) (v i))) [0..<6] @ [(e + 0x624, 0x3f3f3f)]"
proof -
  have "wp (ipq4019_eth_start P) (\<lambda>rc w'. \<exists>es r t v. rc = 0 \<and>
    w' = w\<lparr>hist := es @ hist w, rfd_mem := map (rfd_of P w) [0..<512],
      edma := (edma w)\<lparr>rfd_head := 511, rfd_tail := 0, started := 1\<rparr>\<rparr> \<and>
    writes es = [(base (edma w) + 0x9b0, 511), (base (edma w) + 0xa18, r OR 0xff00), (base (edma w) + 0x404, t OR 0x20)] @
      map (\<lambda>i. (esw (edma w) + (0x660 + of_nat i * 12), set_members (enabled_vid i) (v i))) [0..<6] @
      [(esw (edma w) + 0x624, 0x3f3f3f)]) w"
  proof (rule wp_ipq4019_eth_start [OF assms], goal_cases)
    case (1 es ls r t v)
    then show ?case
      by (intro exI [of _ es] exI [of _ r] exI [of _ t] exI [of _ v]) (simp add: lookup_accesses_def)
  qed
  then show ?thesis by (simp add: wp_def Let_def)
qed

theorem eth_start_order_witness:
  "started (edma (exec (ipq4019_eth_start silent) ready_rings)) = 1"
  using eth_start_order [of ready_rings silent] by (auto simp: ready_rings_def boot_def Let_def)

end
