(* ===== verification/Ipq4019_Tx.thy ===== *)
theory Ipq4019_Tx
  imports Ipq4019_Edma
begin

text \<open>
  \<open>ipq4019_eth_send\<close>: a frame goes out as four descriptors, the driver waits
  for the hardware to consume them and, for the first frames, dumps registers.
  C leaves the order of the register reads inside one printf open; they are
  done from left to right here, except where the driver's own statements order
  them. \<open>len\<close> is the parameter \<open>length\<close>; the code's own local of that name is
  decremented and never read.
\<close>

section \<open>The code\<close>

text \<open>One turn of the descriptor loop; the counter i selects the last fragment.\<close>

definition send_tpd :: "platform \<Rightarrow> u32 \<Rightarrow> u16 \<Rightarrow> nat \<Rightarrow> (drv, unit) state" where
  "send_tpd P packet len i = do {
     let frag = packet + of_nat (i * EDMA_TPD_MIN_BYTES);
     p \<leftarrow> gets edma;
     let k = unat (tpd_head p);
     upd_edma (\<lambda>p. p\<lparr>tpd_head := tpd_head p + 1\<rparr>);
     p \<leftarrow> gets edma;
     when_do (tpd_head p = of_nat NO_OF_TX_DESC) (upd_edma (\<lambda>p. p\<lparr>tpd_head := 0\<rparr>));
     store_tpd k
       \<lparr>tpd_len = (if i < EDMA_TPDS_PER_PACKET - 1 then of_nat EDMA_TPD_MIN_BYTES else len),
        tpd_svlan_tag = 0,
        tpd_word1 = (if i < EDMA_TPDS_PER_PACKET - 1 then 0 else push_bit EDMA_TPD_EOP_SHIFT 1),
        tpd_addr = phys P frag,
        tpd_word3 = push_bit EDMA_TPD_PORT_BITMAP_SHIFT EDMA_PORT_ENABLE_ALL\<rparr> }"

definition tx_prod :: "u32 \<Rightarrow> u32" where
  "tx_prod r = r AND EDMA_TPD_PROD_IDX_MASK"

definition tx_cons :: "u32 \<Rightarrow> u32" where
  "tx_cons r = drop_bit EDMA_TPD_CONS_IDX_SHIFT r AND EDMA_TPD_CONS_IDX_MASK"

text \<open>The wait for completion: the loop counter after the loop.\<close>

definition tx_wait :: "platform \<Rightarrow> (drv, nat) state" where
  "tx_wait P = do {
     p \<leftarrow> gets edma;
     (i, r) \<leftarrow> poll_loop (\<lambda>_. readl P (base p + EDMA_REG_TPD_IDX_Q EDMA_TXQ_ID))
       (\<lambda>r. tx_cons r = tx_prod r) (udelay 1) EDMA_TX_COMPLETE_TIMEOUT 0 0;
     ret i }"

text \<open>The register dump after the very first frame.\<close>

definition tx_dump_regs :: "platform \<Rightarrow> (drv, unit) state" where
  "tx_dump_regs P = do {
     p \<leftarrow> gets edma;
     for_each [0..<ESS_PORTS_NUM] (\<lambda>sp. do {
       a \<leftarrow> readl P (esw p + (0x7c + of_nat sp * 0x4));
       b \<leftarrow> readl P (esw p + ESS_PORT_LOOKUP_CTRL sp);
       printf ''ipq4019: PORT%d_STATUS=0x%08x  LOOKUP_CTRL=0x%08x'' [Num (of_nat sp), Num a, Num b] });
     v \<leftarrow> readl P (esw p + ESS_GLOBAL_FW_CTRL1);
     printf ''ipq4019: FW_CTRL1=0x%08x'' [Num v];
     v \<leftarrow> readl P (base p + EDMA_REG_TPD_BASE_ADDR_Q EDMA_TXQ_ID);
     printf ''ipq4019: TPD_BASE     = 0x%08x  (want 0x%08x)'' [Num v, Num (phys P (tpd_ring p))];
     v \<leftarrow> readl P (base p + EDMA_REG_TPD_RING_SIZE);
     printf ''ipq4019: TPD_RING_SZ  = 0x%08x  (want %d)'' [Num v, Num (of_nat NO_OF_TX_DESC)];
     v \<leftarrow> readl P (base p + EDMA_REG_TXQ_CTRL);
     printf ''ipq4019: TXQ_CTRL     = 0x%08x  (TXQ_EN bit 0x20)'' [Num v];
     v \<leftarrow> readl P (base p + EDMA_REG_RXQ_CTRL);
     printf ''ipq4019: RXQ_CTRL     = 0x%08x  (RXQ_EN 0xff00)'' [Num v];
     v \<leftarrow> readl P (base p + EDMA_REG_TX_SRAM_PART);
     printf ''ipq4019: TX_SRAM_PART = 0x%08x  (LOAD_PTR bit 0x%x)''
       [Num v, Num (push_bit EDMA_LOAD_PTR_SHIFT 1)];
     v \<leftarrow> readl P (base p + EDMA_REG_TPD_IDX_Q EDMA_TXQ_ID);
     v1 \<leftarrow> readl P (base p + EDMA_REG_TPD_IDX_Q EDMA_TXQ_ID);
     v2 \<leftarrow> readl P (base p + EDMA_REG_TPD_IDX_Q EDMA_TXQ_ID);
     printf ''ipq4019: TPD_IDX_Q    = 0x%08x  prod=0x%x cons=0x%x''
       [Num v, Num (tx_prod v1), Num (tx_cons v2)] }"

text \<open>The end of the dump shows the frame's first descriptor, at index k.\<close>

definition tx_dump_tpd :: "platform \<Rightarrow> nat \<Rightarrow> (drv, unit) state" where
  "tx_dump_tpd P k = do {
     p \<leftarrow> gets edma;
     ds \<leftarrow> gets tpd_mem;
     let first = tpd_ring p + of_nat (k * sizeof_tpd);
     if k < length ds
     then printf ''ipq4019: first TPD virt=%p phys=0x%08x len=%d addr=0x%08x word1=0x%08x word3=0x%08x''
       [Num first, Num (phys P first), Num (ucast (tpd_len (ds ! k))), Num (tpd_addr (ds ! k)),
        Num (tpd_word1 (ds ! k)), Num (tpd_word3 (ds ! k))]
     else undefined_behaviour }"

text \<open>
  The counters shown after each of the first three frames, when \<open>n\<close> frames came
  before; \<open>i\<close> is the poll count.
\<close>

definition tx_dump_counters :: "platform \<Rightarrow> u16 \<Rightarrow> nat \<Rightarrow> int \<Rightarrow> (drv, unit) state" where
  "tx_dump_counters P len i n = do {
     p \<leftarrow> gets edma;
     r \<leftarrow> readl P (base p + EDMA_REG_TPD_IDX_Q EDMA_TXQ_ID);
     p0_tx_byte \<leftarrow> readl P (esw p + 0x1010);
     p0_tx_pkt \<leftarrow> readl P (esw p + 0x1018);
     p4_tx_byte \<leftarrow> readl P (esw p + (0x1000 + 4*0x100 + 0x10));
     p4_tx_pkt \<leftarrow> readl P (esw p + (0x1000 + 4*0x100 + 0x18));
     p5_tx_byte \<leftarrow> readl P (esw p + (0x1000 + 5*0x100 + 0x10));
     p5_tx_pkt \<leftarrow> readl P (esw p + (0x1000 + 5*0x100 + 0x18));
     printf ''ipq4019: TX #%d len=%d prod_after=0x%x cons_after=0x%x iters=%d''
       [Num (of_int (n + 1)), Num (ucast len), Num (tx_prod r), Num (tx_cons r), Num (of_nat i)];
     printf ''ipq4019: MIB port0(CPU) tx_byte=%u tx_pkt=%u'' [Num p0_tx_byte, Num p0_tx_pkt];
     printf ''ipq4019: MIB port4(LAN) tx_byte=%u tx_pkt=%u'' [Num p4_tx_byte, Num p4_tx_pkt];
     printf ''ipq4019: MIB port5(WAN) tx_byte=%u tx_pkt=%u'' [Num p5_tx_byte, Num p5_tx_pkt] }"

definition ipq4019_eth_send :: "platform \<Rightarrow> u32 \<Rightarrow> u16 \<Rightarrow> (drv, int) state" where
  "ipq4019_eth_send P packet len =
    (if unat len < EDMA_MIN_PKT_SIZE then ret 0
     else do {
       flush_range packet (align_up (unat len) (line_bytes P));
       p \<leftarrow> gets edma;
       let k = unat (tpd_head p);
       let first = tpd_ring p + of_nat (k * sizeof_tpd);
       for_each [0..<EDMA_TPDS_PER_PACKET] (send_tpd P packet len);
       dsb_sy;
       flush_range first (EDMA_TPDS_PER_PACKET * sizeof_tpd);
       p \<leftarrow> gets edma;
       writel (ucast (tpd_head p)) (base p + EDMA_REG_TPD_IDX_Q EDMA_TXQ_ID);
       i \<leftarrow> tx_wait P;
       when_do (i = EDMA_TX_COMPLETE_TIMEOUT)
         (printf ''ipq4019: TX timeout (frame len=%d)'' [Num (ucast len)]);
       st \<leftarrow> gets vars;
       when_do (n_tx st = 0) (do { tx_dump_regs P; tx_dump_tpd P k });
       when_do (n_tx st < 3)
         (do { tx_dump_counters P len i (n_tx st); upd_vars (\<lambda>st. st\<lparr>n_tx := n_tx st + 1\<rparr>) });
       p \<leftarrow> gets edma;
       writel (ucast (tpd_head p)) (base p + EDMA_REG_TX_SW_CONS_IDX_Q EDMA_TXQ_ID);
       ret 0 })"

section \<open>The descriptors of a frame\<close>

definition tx_tpd :: "platform \<Rightarrow> u32 \<Rightarrow> u16 \<Rightarrow> nat \<Rightarrow> edma_tpd" where
  "tx_tpd P packet len i = \<lparr>tpd_len = (if i < 3 then 4 else len), tpd_svlan_tag = 0,
     tpd_word1 = (if i < 3 then 0 else 0x80000000), tpd_addr = phys P (packet + of_nat (4 * i)),
     tpd_word3 = 0xf80000\<rparr>"

text \<open>The ring slot of fragment i when the head is h.\<close>

definition tx_slot :: "u16 \<Rightarrow> nat \<Rightarrow> nat" where
  "tx_slot h i = unat ((ring_next NO_OF_TX_DESC ^^ i) h)"

lemma tx_slot_mod: "unat h < 8 \<Longrightarrow> tx_slot h i = (unat h + i) mod 8"
  using tx_index.iterate_mod [of h i] by (simp add: tx_slot_def)

lemma wp_send_tpd:
  assumes "length (tpd_mem s) = 8" and "unat (tpd_head (edma s)) < 8"
    and "Q () (s\<lparr>hist := StTpd (unat (tpd_head (edma s))) (tx_tpd P packet len i) # hist s,
      tpd_mem := (tpd_mem s)[unat (tpd_head (edma s)) := tx_tpd P packet len i],
      edma := (edma s)\<lparr>tpd_head := ring_next NO_OF_TX_DESC (tpd_head (edma s))\<rparr>\<rparr>)"
  shows "wp (send_tpd P packet len i) Q s"
  using assms
  by (cases "tpd_head (edma s) = 7"; cases "i < 3")
    (simp_all add: send_tpd_def Let_def tx_tpd_def ring_next_def mult.commute)

text \<open>All four turns.\<close>

definition tx_ring_after :: "platform \<Rightarrow> u32 \<Rightarrow> u16 \<Rightarrow> u16 \<Rightarrow> nat \<Rightarrow> edma_tpd list \<Rightarrow> edma_tpd list" where
  "tx_ring_after P packet len h n ds = fold (\<lambda>i ds. ds[tx_slot h i := tx_tpd P packet len i]) [0..<n] ds"

lemma tx_ring_after_steps [simp]:
  "tx_ring_after P packet len h 0 ds = ds"
  "tx_ring_after P packet len h (Suc n) ds =
    (tx_ring_after P packet len h n ds)[tx_slot h n := tx_tpd P packet len n]"
  by (simp_all add: tx_ring_after_def)

lemma length_tx_ring_after [simp]: "length (tx_ring_after P packet len h n ds) = length ds"
  by (induction n) simp_all

definition tx_stores :: "platform \<Rightarrow> u32 \<Rightarrow> u16 \<Rightarrow> u16 \<Rightarrow> nat \<Rightarrow> event list" where
  "tx_stores P packet len h n = map (\<lambda>i. StTpd (tx_slot h i) (tx_tpd P packet len i)) (rev [0..<n])"

lemma wp_send_tpds:
  assumes mem: "length (tpd_mem s) = 8" and head: "unat (tpd_head (edma s)) < 8"
    and Q: "Q () (s\<lparr>hist := tx_stores P packet len (tpd_head (edma s)) 4 @ hist s,
      tpd_mem := tx_ring_after P packet len (tpd_head (edma s)) 4 (tpd_mem s),
      edma := (edma s)\<lparr>tpd_head := (ring_next 8 ^^ 4) (tpd_head (edma s))\<rparr>\<rparr>)"
  shows "wp (for_each [0..<EDMA_TPDS_PER_PACKET] (send_tpd P packet len)) Q s"
proof (rule wp_for_upto [where I = "\<lambda>k t. t = s\<lparr>hist := tx_stores P packet len (tpd_head (edma s)) k @ hist s,
      tpd_mem := tx_ring_after P packet len (tpd_head (edma s)) k (tpd_mem s),
      edma := (edma s)\<lparr>tpd_head := (ring_next 8 ^^ k) (tpd_head (edma s))\<rparr>\<rparr>"])
  fix k and t :: drv
  assume t: "t = s\<lparr>hist := tx_stores P packet len (tpd_head (edma s)) k @ hist s,
      tpd_mem := tx_ring_after P packet len (tpd_head (edma s)) k (tpd_mem s),
      edma := (edma s)\<lparr>tpd_head := (ring_next 8 ^^ k) (tpd_head (edma s))\<rparr>\<rparr>"
  have "unat ((ring_next 8 ^^ k) (tpd_head (edma s))) < 8"
    using tx_index.iterate_mod [of "tpd_head (edma s)" k] head by simp
  then show "wp (send_tpd P packet len k)
      (\<lambda>_ t. t = s\<lparr>hist := tx_stores P packet len (tpd_head (edma s)) (Suc k) @ hist s,
      tpd_mem := tx_ring_after P packet len (tpd_head (edma s)) (Suc k) (tpd_mem s),
      edma := (edma s)\<lparr>tpd_head := (ring_next 8 ^^ Suc k) (tpd_head (edma s))\<rparr>\<rparr>) t"
    using mem by (intro wp_send_tpd) (simp_all add: t tx_stores_def tx_slot_def)
qed (use Q in \<open>simp_all add: tx_stores_def\<close>)

section \<open>The wait for completion\<close>

interpretation tx_poll: polling
  "\<lambda>_. readl P a" "\<lambda>r. tx_cons r = tx_prod r" "udelay 1 :: (drv, unit) state" hist
  "reg_look P a" "reg_looked P a" "(#) (Udelay 1)" for P a
  by unfold_locales (simp_all add: readl_exec_result udelay_exec reg_look_def reg_looked_def)

text \<open>
  The hardware's consumer index meets the producer index at one of the million
  polls that start with history h.
\<close>

definition tx_completes :: "platform \<Rightarrow> u32 \<Rightarrow> event list \<Rightarrow> bool" where
  "tx_completes P a h \<longleftrightarrow> (\<exists>k < EDMA_TX_COMPLETE_TIMEOUT. tx_cons (polled P a 1 k h) = tx_prod (polled P a 1 k h))"

lemma tx_wait_timeout:
  "result (tx_wait P) s < EDMA_TX_COMPLETE_TIMEOUT \<longleftrightarrow> tx_completes P (base (edma s) + 0x460) (hist s)"
  using tx_poll.success_iff [of P "base (edma s) + 0x460" EDMA_TX_COMPLETE_TIMEOUT 0 0 s]
  by (simp add: tx_wait_def tx_completes_def polled_def case_prod_beta)

lemma wp_tx_wait:
  assumes "\<And>i es. poll_events (base (edma s) + 0x460) 1 es \<Longrightarrow> length (reads es) \<le> 1000000 \<Longrightarrow>
      delay_us es \<le> 1000000 \<Longrightarrow> i \<le> 1000000 \<Longrightarrow>
      i < 1000000 \<longleftrightarrow> tx_completes P (base (edma s) + 0x460) (hist s) \<Longrightarrow>
      Q i (s\<lparr>hist := es @ hist s\<rparr>)"
  shows "wp (tx_wait P) Q s"
proof -
  have "wp (tx_wait P) (\<lambda>i t. \<exists>es. t = s\<lparr>hist := es @ hist s\<rparr> \<and> i \<le> 1000000 \<and>
      poll_events (base (edma s) + 0x460) 1 es \<and> length (reads es) \<le> 1000000 \<and> delay_us es \<le> 1000000) s"
    unfolding tx_wait_def wp_bind wp_gets EDMA_TX_COMPLETE_TIMEOUT_def
    by (rule wp_poll_reg) auto
  then show ?thesis
    using assms tx_wait_timeout [of P s] by (auto simp: wp_def)
qed

lemma io_within_dumps:
  "io_within is_read (tx_dump_regs P)"
  "io_within is_read (tx_dump_counters P len i n)"
  unfolding tx_dump_regs_def tx_dump_counters_def Let_def
  by (intro io_within_rules; simp)+

section \<open>A frame\<close>

text \<open>
  What the hardware is shown up to and including the doorbell, newest first: the
  packet is cleaned, the descriptors are stored, a barrier drains the stores, the
  descriptors are cleaned and the new producer index is written.
\<close>

definition tx_next :: "u16 \<Rightarrow> u16" where
  "tx_next h = (ring_next 8 ^^ 4) h"

definition tx_posted :: "platform \<Rightarrow> u32 \<Rightarrow> u16 \<Rightarrow> IpqEdmaDev \<Rightarrow> event list" where
  "tx_posted P packet len p =
     [Wr (base p + 0x460) (ucast (tx_next (tpd_head p))),
      Clean (tpd_ring p + of_nat (unat (tpd_head p) * 16)) 64, Dsb] @
     tx_stores P packet len (tpd_head p) 4 @
     [Clean packet (align_up (unat len) (line_bytes P))]"

definition tx_timeout_line :: "u16 \<Rightarrow> string \<times> parg list" where
  "tx_timeout_line len = (''ipq4019: TX timeout (frame len=%d)'', [Num (ucast len)])"

text \<open>The lines of a console that report a timeout.\<close>

definition tx_timeouts :: "(string \<times> parg list) list \<Rightarrow> (string \<times> parg list) list" where
  "tx_timeouts cs = filter (\<lambda>(fmt, _). fmt = ''ipq4019: TX timeout (frame len=%d)'') cs"

lemma tx_timeouts_simps [simp]:
  "tx_timeouts [] = []" "tx_timeouts (cs @ ds) = tx_timeouts cs @ tx_timeouts ds"
  "tx_timeouts [tx_timeout_line len] = [tx_timeout_line len]"
  "fmt \<noteq> ''ipq4019: TX timeout (frame len=%d)'' \<Longrightarrow> tx_timeouts ((fmt, xs) # cs) = tx_timeouts cs"
  by (simp_all add: tx_timeouts_def tx_timeout_line_def)

lemma keeps_timeouts:
  "keeps (\<lambda>s. tx_timeouts (console s)) (tx_dump_regs P)"
  "keeps (\<lambda>s. tx_timeouts (console s)) (tx_dump_counters P len i n)"
  unfolding tx_dump_regs_def tx_dump_counters_def Let_def
  by (intro keeps_rules; simp)+

lemma timeout_free_wp:
  assumes "io_within E m" and "keeps (\<lambda>s. tx_timeouts (console s)) m"
    and "\<And>r es cs. list_all E es \<Longrightarrow> tx_timeouts cs = [] \<Longrightarrow> Q r (s\<lparr>hist := es @ hist s, console := cs @ console s\<rparr>)"
  shows "wp m Q s"
proof -
  obtain es cs where m: "list_all E es" "exec m s = s\<lparr>hist := es @ hist s, console := cs @ console s\<rparr>"
    using assms(1) by (rule io_withinE)
  from keeps_exec [OF assms(2), of s] m(2) have "tx_timeouts cs = []" by simp
  from assms(3) [OF m(1) this] m(2) show ?thesis by (simp add: wp_def)
qed

definition count_frame :: "statics \<Rightarrow> statics" where
  "count_frame v = (if n_tx v < 3 then v\<lparr>n_tx := n_tx v + 1\<rparr> else v)"

lemma wp_tx_dump_tpd:
  assumes "k < length (tpd_mem s)" and "\<And>c. tx_timeouts [c] = [] \<Longrightarrow> Q () (s\<lparr>console := c # console s\<rparr>)"
  shows "wp (tx_dump_tpd P k) Q s"
  using assms by (simp add: tx_dump_tpd_def Let_def)

text \<open>The dumps only read registers, print and count.\<close>

lemma wp_tx_dumps:
  assumes k: "k < length (tpd_mem s)"
    and Q: "\<And>rs cs. list_all is_read rs \<Longrightarrow> (3 \<le> n_tx (vars s) \<Longrightarrow> rs = [] \<and> cs = []) \<Longrightarrow>
      tx_timeouts cs = [] \<Longrightarrow>
      Q (s\<lparr>hist := rs @ hist s, console := cs @ console s, vars := count_frame (vars s)\<rparr>)"
  shows "wp (when_do (n_tx (vars s) = 0) (do { tx_dump_regs P; tx_dump_tpd P k }))
    (\<lambda>_. wp (when_do (n_tx (vars s) < 3)
       (do { tx_dump_counters P len i (n_tx (vars s)); upd_vars (\<lambda>st. st\<lparr>n_tx := n_tx st + 1\<rparr>) }))
       (\<lambda>_. Q)) s" (is "wp ?first (\<lambda>_. ?rest) s")
proof -
  have rest: "?rest (s\<lparr>hist := rs @ hist s, console := cs @ console s\<rparr>)"
    if rs: "list_all is_read rs" and quiet: "n_tx (vars s) \<noteq> 0 \<Longrightarrow> rs = [] \<and> cs = []" and no: "tx_timeouts cs = []" for rs cs
  proof (cases "n_tx (vars s) < 3")
    case True
    have "wp (tx_dump_counters P len i (n_tx (vars s)))
        (\<lambda>_. wp (upd_vars (\<lambda>st. st\<lparr>n_tx := n_tx st + 1\<rparr>)) (\<lambda>_. Q))
        (s\<lparr>hist := rs @ hist s, console := cs @ console s\<rparr>)"
    proof (rule timeout_free_wp [OF io_within_dumps(2) keeps_timeouts(2)])
      fix rs' cs'
      assume "list_all is_read rs'" and no': "tx_timeouts cs' = []"
      with rs have "list_all is_read (rs' @ rs)" by simp
      from Q [OF this, of "cs' @ cs"] True no no'
      show "wp (upd_vars (\<lambda>st. st\<lparr>n_tx := n_tx st + 1\<rparr>)) (\<lambda>_. Q)
          (s\<lparr>hist := rs @ hist s, console := cs @ console s,
            hist := rs' @ hist (s\<lparr>hist := rs @ hist s, console := cs @ console s\<rparr>),
            console := cs' @ console (s\<lparr>hist := rs @ hist s, console := cs @ console s\<rparr>)\<rparr>)"
        by (simp add: count_frame_def)
    qed
    then show ?thesis using True by simp
  next
    case False
    then show ?thesis using Q [OF rs, of cs] quiet no by (simp add: count_frame_def)
  qed
  show ?thesis
  proof (cases "n_tx (vars s) = 0")
    case True
    have "wp (tx_dump_regs P) (\<lambda>_. wp (tx_dump_tpd P k) (\<lambda>_. ?rest)) s"
    proof (rule timeout_free_wp [OF io_within_dumps(1) keeps_timeouts(1)])
      fix rs cs
      assume rs: "list_all is_read rs" and no: "tx_timeouts cs = []"
      show "wp (tx_dump_tpd P k) (\<lambda>_. ?rest) (s\<lparr>hist := rs @ hist s, console := cs @ console s\<rparr>)"
      proof (rule wp_tx_dump_tpd)
        show "k < length (tpd_mem (s\<lparr>hist := rs @ hist s, console := cs @ console s\<rparr>))" using k by simp
        show "?rest (s\<lparr>hist := rs @ hist s, console := cs @ console s,
            console := c # console (s\<lparr>hist := rs @ hist s, console := cs @ console s\<rparr>)\<rparr>)" if "tx_timeouts [c] = []" for c
          using rest [OF rs, of "c # cs"] True no that tx_timeouts_simps(2) [of "[c]" cs] by simp
      qed
    qed
    then show ?thesis using True by simp
  next
    case False
    then show ?thesis using rest [of "[]" "[]"] by simp
  qed
qed

lemma wp_ipq4019_eth_send:
  assumes mem: "length (tpd_mem s) = 8" and head: "unat (tpd_head (edma s)) < 8"
    and short: "unat len < 16 \<Longrightarrow> Q 0 s"
    and sent: "\<And>rs ps cs. 16 \<le> unat len \<Longrightarrow> list_all is_read rs \<Longrightarrow>
      (3 \<le> n_tx (vars s) \<Longrightarrow> rs = [] \<and> cs = []) \<Longrightarrow>
      poll_events (base (edma s) + 0x460) 1 ps \<Longrightarrow> length (reads ps) \<le> 1000000 \<Longrightarrow> delay_us ps \<le> 1000000 \<Longrightarrow>
      tx_timeouts cs = [] \<Longrightarrow>
      Q 0 (s\<lparr>hist := Wr (base (edma s) + 0x240) (ucast (tx_next (tpd_head (edma s)))) # rs @ ps @
          tx_posted P packet len (edma s) @ hist s,
        console := cs @ (if tx_completes P (base (edma s) + 0x460) (tx_posted P packet len (edma s) @ hist s)
          then [] else [tx_timeout_line len]) @ console s,
        tpd_mem := tx_ring_after P packet len (tpd_head (edma s)) 4 (tpd_mem s),
        edma := (edma s)\<lparr>tpd_head := tx_next (tpd_head (edma s))\<rparr>,
        vars := count_frame (vars s)\<rparr>)"
  shows "wp (ipq4019_eth_send P packet len) Q s"
proof (cases "unat len < 16")
  case True
  then show ?thesis using short by (simp add: ipq4019_eth_send_def)
next
  case False
  let ?p = "edma s"
  let ?h = "Clean packet (align_up (unat len) (line_bytes P)) # hist s"
  let ?done = "tx_completes P (base ?p + 0x460) (tx_posted P packet len ?p @ hist s)"
  let ?s = "s\<lparr>hist := tx_posted P packet len ?p @ hist s,
      tpd_mem := tx_ring_after P packet len (tpd_head ?p) 4 (tpd_mem s),
      edma := ?p\<lparr>tpd_head := tx_next (tpd_head ?p)\<rparr>\<rparr>"
  let ?fin = "\<lambda>i :: nat. do {
       when_do (i = EDMA_TX_COMPLETE_TIMEOUT)
         (printf ''ipq4019: TX timeout (frame len=%d)'' [Num (ucast len)]);
       st \<leftarrow> gets vars;
       when_do (n_tx st = 0) (do { tx_dump_regs P; tx_dump_tpd P (unat (tpd_head ?p)) });
       when_do (n_tx st < 3)
         (do { tx_dump_counters P len i (n_tx st); upd_vars (\<lambda>st. st\<lparr>n_tx := n_tx st + 1\<rparr>) });
       p \<leftarrow> gets edma;
       writel (ucast (tpd_head p)) (base p + EDMA_REG_TX_SW_CONS_IDX_Q EDMA_TXQ_ID);
       ret 0 }"
  have fin: "wp (tx_wait P) (\<lambda>i. wp (?fin i) Q) ?s"
  proof (rule wp_tx_wait)
    fix i :: nat and ps
    assume ps: "poll_events (base (edma ?s) + 0x460) 1 ps" "length (reads ps) \<le> 1000000"
      "delay_us ps \<le> 1000000" "i \<le> 1000000"
      and i: "i < 1000000 \<longleftrightarrow> tx_completes P (base (edma ?s) + 0x460) (hist ?s)"
    let ?t = "?s\<lparr>hist := ps @ hist ?s, console := (if ?done then [] else [tx_timeout_line len]) @ console s\<rparr>"
    have "i = 1000000 \<longleftrightarrow> \<not> ?done" using i ps(4) by auto
    moreover have "wp (when_do (n_tx (vars ?t) = 0) (do { tx_dump_regs P; tx_dump_tpd P (unat (tpd_head ?p)) }))
      (\<lambda>_. wp (when_do (n_tx (vars ?t) < 3)
        (do { tx_dump_counters P len i (n_tx (vars ?t)); upd_vars (\<lambda>st. st\<lparr>n_tx := n_tx st + 1\<rparr>) }))
        (\<lambda>_ t. Q 0 (t\<lparr>hist := Wr (base (edma t) + 0x240) (ucast (tpd_head (edma t))) # hist t\<rparr>))) ?t"
    proof (rule wp_tx_dumps)
      show "unat (tpd_head ?p) < length (tpd_mem ?t)" using mem head by simp
      fix rs and cs :: "(string \<times> parg list) list"
      assume "list_all is_read rs" "3 \<le> n_tx (vars ?t) \<Longrightarrow> rs = [] \<and> cs = []" "tx_timeouts cs = []"
      from sent [OF _ this(1), of cs ps] this(2,3) ps False
      show "Q 0 (?t\<lparr>hist := rs @ hist ?t, console := cs @ console ?t, vars := count_frame (vars ?t)\<rparr>
        \<lparr>hist := Wr (base (edma (?t\<lparr>hist := rs @ hist ?t, console := cs @ console ?t, vars := count_frame (vars ?t)\<rparr>)) + 0x240)
          (ucast (tpd_head (edma (?t\<lparr>hist := rs @ hist ?t, console := cs @ console ?t, vars := count_frame (vars ?t)\<rparr>)))) #
          hist (?t\<lparr>hist := rs @ hist ?t, console := cs @ console ?t, vars := count_frame (vars ?t)\<rparr>)\<rparr>)"
        by simp
    qed
    ultimately show "wp (?fin i) Q (?s\<lparr>hist := ps @ hist ?s\<rparr>)"
      by (cases ?done; cases "n_tx (vars s) = 0"; cases "n_tx (vars s) < 3")
        (simp_all add: tx_timeout_line_def)
  qed
  have "wp (for_each [0..<EDMA_TPDS_PER_PACKET] (send_tpd P packet len)) (\<lambda>_. wp (do {
       dsb_sy;
       flush_range (tpd_ring ?p + of_nat (unat (tpd_head ?p) * sizeof_tpd)) (EDMA_TPDS_PER_PACKET * sizeof_tpd);
       p \<leftarrow> gets edma;
       writel (ucast (tpd_head p)) (base p + EDMA_REG_TPD_IDX_Q EDMA_TXQ_ID);
       i \<leftarrow> tx_wait P;
       ?fin i }) Q) (s\<lparr>hist := ?h\<rparr>)"
    by (rule wp_send_tpds) (use mem head fin in \<open>simp_all add: tx_posted_def tx_next_def del: wp_when_do\<close>)
  then show ?thesis using False
    by (simp add: ipq4019_eth_send_def Let_def del: wp_when_do upt_rec_numeral wp_for_each_Cons)
qed

section \<open>What a sent frame leaves behind\<close>

lemma tx_slot_bound: "unat h < 8 \<Longrightarrow> tx_slot h i < 8"
  by (simp add: tx_slot_mod)

lemma tx_slot_inj:
  assumes "unat h < 8" and "i < 8" and "j < 8"
  shows "tx_slot h i = tx_slot h j \<longleftrightarrow> i = j"
  using tx_index.slots_distinct [of h i j] assms
  by (auto simp: tx_slot_def word_unat_eq_iff)

lemma nth_tx_ring_after:
  assumes "unat h < 8" and "length ds = 8" and "j < 8"
  shows "n \<le> 8 \<Longrightarrow> tx_ring_after P packet len h n ds ! tx_slot h j =
    (if j < n then tx_tpd P packet len j else ds ! tx_slot h j)"
proof (induction n)
  case 0
  then show ?case by simp
next
  case (Suc n)
  then show ?case
    using assms tx_slot_bound [OF assms(1), of n] tx_slot_inj [OF assms(1), of n j]
    by (auto simp: nth_list_update)
qed

lemma cpu_view_tx_stores:
  assumes "unat h < 8" and "j < 8"
  shows "n \<le> 8 \<Longrightarrow> cpu_view tpd_store (tx_stores P packet len h n @ es) (tx_slot h j) =
    (if j < n then Some (tx_tpd P packet len j) else cpu_view tpd_store es (tx_slot h j))"
proof (induction n)
  case 0
  then show ?case by (simp add: tx_stores_def)
next
  case (Suc n)
  then show ?case
    using assms tx_slot_inj [OF assms(1), of n j] by (auto simp: tx_stores_def)
qed

lemma unat_tx_next: "unat h < 8 \<Longrightarrow> unat (tx_next h) = (unat h + 4) mod 8"
  using tx_index.iterate_mod [of h 4] by (simp add: tx_next_def)

lemma tx_slot_aligned:
  assumes "unat h < 8" and "unat h mod 4 = 0" and "i < 4"
  shows "tx_slot h i = unat h + i"
proof -
  have "unat h = 0 \<or> unat h = 4" using assms(1,2) by presburger
  then show ?thesis using assms(1,3) by (auto simp: tx_slot_mod)
qed

text \<open>
  With a head that is a multiple of 4 the four descriptors are contiguous, so
  the one clean that starts at the first of them covers them all.
\<close>

lemma dma_view_posted:
  assumes h: "unat (tpd_head p) < 8" "unat (tpd_head p) mod 4 = 0"
    and ring: "unat (tpd_ring p) + 128 \<le> 2 ^ 32" and i: "i < 4"
  shows "dma_tpd (tpd_ring p) (tl (tx_posted P packet len p) @ es) (tx_slot (tpd_head p) i) =
    Some (tx_tpd P packet len i)"
proof -
  have "unat (tpd_ring p + of_nat (unat (tpd_head p) * 16)) = unat (tpd_ring p) + unat (tpd_head p) * 16"
    using h(1) ring by (simp add: unat_word_ariths)
  then show ?thesis
    using cpu_view_tx_stores [OF h(1), of i 4] tx_slot_aligned [OF h i] i
    by (simp add: tx_posted_def)
qed

lemma writes_tx_stores [simp]: "writes (tx_stores P packet len h n) = []"
  by (induction n) (simp_all add: tx_stores_def)

lemma tx_ring_after_slots:
  assumes "unat h < 8" and "length ds = 8"
  shows "map (\<lambda>i. tx_ring_after P packet len h 4 ds ! ((unat h + i) mod 8)) [0..<8] =
    map (tx_tpd P packet len) [0..<4] @ map (\<lambda>i. ds ! ((unat h + i) mod 8)) [4..<8]"
proof -
  have u: "[0..<8 :: nat] = [0..<4] @ [4..<8]" using upt_add_eq_append [of 0 4 4] by simp
  have nth: "tx_ring_after P packet len h 4 ds ! ((unat h + j) mod 8) =
      (if j < 4 then tx_tpd P packet len j else ds ! ((unat h + j) mod 8))" if "j < 8" for j
    using nth_tx_ring_after [OF assms that, of 4 P packet len] tx_slot_mod [OF assms(1), of j] by simp
  show ?thesis unfolding u map_append
    by (intro arg_cong2 [where f = "(@)"] map_cong refl) (auto simp: nth)
qed

lemma le_align_up: "0 < a \<Longrightarrow> n \<le> align_up n a"
  using div_mult_mod_eq [of "n + a - 1" a] mod_less_divisor [of a "n + a - 1"]
  unfolding align_up_def by linarith

section \<open>Properties\<close>

text \<open>
  C8: \<open>ipq4019_eth_send\<close> returns 0. A frame of less than 16 bytes changes
  nothing. Any other frame is put into the four slots from the head on, the other
  four slots keep their content and the head moves on by 4 modulo 8; after the
  doorbell the driver only polls the index register (at most a million times, one
  microsecond apart), reads registers for its dumps and publishes the new head as
  the software consumer index.
\<close>

theorem eth_send_spec:
  assumes "length (tpd_mem w) = 8" and "unat (tpd_head (edma w)) < 8"
  shows "let w' = exec (ipq4019_eth_send P packet len) w; p = edma w; h = unat (tpd_head p) in
    result (ipq4019_eth_send P packet len) w = 0 \<and>
    (if unat len < 16 then w' = w
     else \<exists>rs ps. hist w' = Wr (base p + 0x240) (ucast (tpd_head (edma w'))) # rs @ ps @
            tx_posted P packet len p @ hist w \<and>
          list_all is_read rs \<and> poll_events (base p + 0x460) 1 ps \<and>
          length (reads ps) \<le> 1000000 \<and> delay_us ps \<le> 1000000 \<and>
          unat (tpd_head (edma w')) = (h + 4) mod 8 \<and>
          map (\<lambda>i. tpd_mem w' ! ((h + i) mod 8)) [0..<8] =
            map (tx_tpd P packet len) [0..<4] @ map (\<lambda>i. tpd_mem w ! ((h + i) mod 8)) [4..<8] \<and>
          w' = w\<lparr>hist := hist w', console := console w', tpd_mem := tpd_mem w',
            edma := p\<lparr>tpd_head := tpd_head (edma w')\<rparr>, vars := count_frame (vars w)\<rparr>)"
proof -
  let ?h = "tpd_head (edma w)"
  have slots: "map (\<lambda>i. tx_ring_after P packet len ?h 4 (tpd_mem w) ! ((unat ?h + i) mod 8)) [0..<8] =
      map (tx_tpd P packet len) [0..<4] @ map (\<lambda>i. tpd_mem w ! ((unat ?h + i) mod 8)) [4..<8]"
    by (rule tx_ring_after_slots) (use assms in simp_all)
  have "wp (ipq4019_eth_send P packet len) (\<lambda>rc w'. rc = 0 \<and>
    (if unat len < 16 then w' = w
     else \<exists>rs ps. hist w' = Wr (base (edma w) + 0x240) (ucast (tpd_head (edma w'))) # rs @ ps @
            tx_posted P packet len (edma w) @ hist w \<and>
          list_all is_read rs \<and> poll_events (base (edma w) + 0x460) 1 ps \<and>
          length (reads ps) \<le> 1000000 \<and> delay_us ps \<le> 1000000 \<and>
          unat (tpd_head (edma w')) = (unat ?h + 4) mod 8 \<and>
          map (\<lambda>i. tpd_mem w' ! ((unat ?h + i) mod 8)) [0..<8] =
            map (tx_tpd P packet len) [0..<4] @ map (\<lambda>i. tpd_mem w ! ((unat ?h + i) mod 8)) [4..<8] \<and>
          w' = w\<lparr>hist := hist w', console := console w', tpd_mem := tpd_mem w',
            edma := (edma w)\<lparr>tpd_head := tpd_head (edma w')\<rparr>, vars := count_frame (vars w)\<rparr>)) w"
  proof (rule wp_ipq4019_eth_send [OF assms], goal_cases)
    case 1
    then show ?case by simp
  next
    case (2 rs ps cs)
    then have n: "\<not> unat len < 16" by simp
    show ?case unfolding if_not_P [OF n]
      by (rule conjI, rule refl, rule exI [of _ rs], rule exI [of _ ps])
        (use 2 slots unat_tx_next [OF assms(2)] in \<open>simp del: tx_ring_after_steps\<close>)
  qed
  then show ?thesis unfolding wp_def Let_def .
qed


theorem eth_send_spec_witness:
  "let w' = exec (ipq4019_eth_send silent 0x42000000 60) ready_rings in
     unat (tpd_head (edma w')) = 4 \<and>
     map (\<lambda>i. tpd_mem w' ! (i mod 8)) [0..<8] =
       map (tx_tpd silent 0x42000000 60) [0..<4] @ map (\<lambda>i. tpd_mem ready_rings ! (i mod 8)) [4..<8]"
proof -
  have "length (tpd_mem ready_rings) = 8" "unat (tpd_head (edma ready_rings)) = 0"
    by (simp_all add: ready_rings_def boot_def zero_dev_def)
  then show ?thesis
    using eth_send_spec [of ready_rings silent "0x42000000" 60] by (auto simp: Let_def)
qed

text \<open>
  C2: when the doorbell of a frame of at least 16 bytes is written, the packet has
  been cleaned from the cache for its whole length and the DMA view of the frame's
  four slots is exactly its four descriptors, provided the head was a multiple of 4
  and the ring does not wrap around the address space; the doorbell is the first
  register write of the call.
\<close>

theorem send_doorbell_coherent:
  assumes "length (tpd_mem w) = 8" and "unat (tpd_head (edma w)) < 8" and "unat (tpd_head (edma w)) mod 4 = 0"
    and "unat (tpd_ring (edma w)) + 128 \<le> 2 ^ 32" and "16 \<le> unat len" and "0 < line_bytes P"
  shows "\<exists>es2 es1 n. hist (exec (ipq4019_eth_send P packet len) w) =
      es2 @ [Wr (base (edma w) + 0x460) (ucast (tx_next (tpd_head (edma w))))] @ es1 @ hist w \<and>
    writes es1 = [] \<and> Clean packet n \<in> set es1 \<and> unat len \<le> n \<and>
    map (\<lambda>i. dma_tpd (tpd_ring (edma w)) (es1 @ hist w) (unat (tpd_head (edma w)) + i)) [0..<4] =
      map (\<lambda>i. Some (tx_tpd P packet len i)) [0..<4]"
proof -
  let ?p = "edma w"
  let ?es1 = "tl (tx_posted P packet len ?p)"
  have "dma_tpd (tpd_ring ?p) (?es1 @ hist w) (unat (tpd_head ?p) + i) = Some (tx_tpd P packet len i)"
    if "i < 4" for i
    using dma_view_posted [OF assms(2-4) that] tx_slot_aligned [OF assms(2,3) that] by simp
  then have view: "map (\<lambda>i. dma_tpd (tpd_ring ?p) (?es1 @ hist w) (unat (tpd_head ?p) + i)) [0..<4] =
      map (\<lambda>i. Some (tx_tpd P packet len i)) [0..<4]" by (intro map_cong) auto
  have posted: "tx_posted P packet len ?p = Wr (base ?p + 0x460) (ucast (tx_next (tpd_head ?p))) # ?es1"
    and quiet: "writes ?es1 = []" and clean: "Clean packet (align_up (unat len) (line_bytes P)) \<in> set ?es1"
    by (simp_all add: tx_posted_def)
  show ?thesis
  proof (rule wp_execI, rule wp_ipq4019_eth_send [OF assms(1,2)], goal_cases)
    case 1
    then show ?case using assms(5) by simp
  next
    case (2 rs ps cs)
    show ?case
      by (rule exI [of _ "Wr (base ?p + 0x240) (ucast (tx_next (tpd_head ?p))) # rs @ ps"],
          rule exI [of _ ?es1], rule exI [of _ "align_up (unat len) (line_bytes P)"])
        (use view posted quiet clean le_align_up [OF assms(6)] in simp)
  qed
qed

theorem send_doorbell_coherent_witness:
  "let w = ready_rings\<lparr>edma := zero_dev\<lparr>tpd_ring := 0x40000000\<rparr>\<rparr> in
   \<exists>es2 es1. hist (exec (ipq4019_eth_send silent 0x42000000 60) w) = es2 @ [Wr 0x460 4] @ es1 @ hist w \<and>
     writes es1 = [] \<and>
     map (\<lambda>i. dma_tpd 0x40000000 (es1 @ hist w) i) [0..<4] = map (\<lambda>i. Some (tx_tpd silent 0x42000000 60 i)) [0..<4]"
proof -
  let ?w = "ready_rings\<lparr>edma := zero_dev\<lparr>tpd_ring := 0x40000000\<rparr>\<rparr>"
  have "length (tpd_mem ?w) = 8" "unat (tpd_head (edma ?w)) = 0" "tpd_ring (edma ?w) = 0x40000000"
    "base (edma ?w) = 0" "tpd_head (edma ?w) = 0"
    by (simp_all add: ready_rings_def zero_dev_def boot_def)
  moreover have "tx_next 0 = 4" using unat_tx_next [of 0] by (simp add: word_unat_eq_iff)
  ultimately show ?thesis
    using send_doorbell_coherent [of ?w 60 silent "0x42000000"] by (auto simp: Let_def simp del: upt_rec_numeral)
qed

text \<open>
  C17: a call for a frame of at least 16 bytes prints exactly one timeout line when
  the hardware does not consume the frame within a million polls, and none when it
  does; after the first three frames, which are dumped, it prints nothing else. In
  both cases the caller gets 0, the head has moved on by the four descriptors and
  is published as the software consumer index, the last access: a lost frame is not
  reported.
\<close>

theorem eth_send_timeout:
  assumes "length (tpd_mem w) = 8" and "unat (tpd_head (edma w)) < 8" and "16 \<le> unat len"
  shows "let w' = exec (ipq4019_eth_send P packet len) w; p = edma w;
      done = tx_completes P (base p + 0x460) (tx_posted P packet len p @ hist w)
    in result (ipq4019_eth_send P packet len) w = 0 \<and>
      tx_timeouts (console w') = (if done then [] else [tx_timeout_line len]) @ tx_timeouts (console w) \<and>
      (3 \<le> n_tx (vars w) \<longrightarrow> console w' = (if done then [] else [tx_timeout_line len]) @ console w) \<and>
      unat (tpd_head (edma w')) = (unat (tpd_head p) + 4) mod 8 \<and>
      (\<exists>rs ps. hist w' = Wr (base p + 0x240) (ucast (tpd_head (edma w'))) # rs @ ps @
         tx_posted P packet len p @ hist w \<and> list_all is_read rs \<and> (3 \<le> n_tx (vars w) \<longrightarrow> rs = []) \<and>
         poll_events (base p + 0x460) 1 ps)"
proof -
  have "wp (ipq4019_eth_send P packet len) (\<lambda>rc w'. rc = 0 \<and>
      tx_timeouts (console w') = (if tx_completes P (base (edma w) + 0x460) (tx_posted P packet len (edma w) @ hist w)
        then [] else [tx_timeout_line len]) @ tx_timeouts (console w) \<and>
      (3 \<le> n_tx (vars w) \<longrightarrow> console w' =
        (if tx_completes P (base (edma w) + 0x460) (tx_posted P packet len (edma w) @ hist w)
         then [] else [tx_timeout_line len]) @ console w) \<and>
      unat (tpd_head (edma w')) = (unat (tpd_head (edma w)) + 4) mod 8 \<and>
      (\<exists>rs ps. hist w' = Wr (base (edma w) + 0x240) (ucast (tpd_head (edma w'))) # rs @ ps @
         tx_posted P packet len (edma w) @ hist w \<and> list_all is_read rs \<and> (3 \<le> n_tx (vars w) \<longrightarrow> rs = []) \<and>
         poll_events (base (edma w) + 0x460) 1 ps)) w"
  proof (rule wp_ipq4019_eth_send [OF assms(1,2)], goal_cases)
    case (2 rs ps cs)
    then show ?case
      by (intro conjI impI exI [of _ rs] exI [of _ ps]) (simp_all add: unat_tx_next [OF assms(2)])
  qed (use assms(3) in simp)
  then show ?thesis unfolding wp_def Let_def .
qed

text \<open>
  A platform whose TX engine is stuck: the index register always reads with
  producer 4 and consumer 0.
\<close>

definition stuck_tx :: platform where
  "stuck_tx = silent\<lparr>bus_read := \<lambda>_ _. 4\<rparr>"

theorem eth_send_timeout_witness:
  "let w = ready_rings\<lparr>vars := zero_statics\<lparr>n_tx := 3\<rparr>\<rparr> in
   result (ipq4019_eth_send stuck_tx 0x42000000 60) w = 0 \<and>
   console (exec (ipq4019_eth_send stuck_tx 0x42000000 60) w) = [tx_timeout_line 60] \<and>
   tx_timeouts (console (exec (ipq4019_eth_send stuck_tx 0x42000000 60) ready_rings)) = [tx_timeout_line 60]"
proof -
  let ?w = "ready_rings\<lparr>vars := zero_statics\<lparr>n_tx := 3\<rparr>\<rparr>"
  have "length (tpd_mem ?w) = 8" "unat (tpd_head (edma ?w)) = 0" "n_tx (vars ?w) = 3" "console ?w = []"
    "length (tpd_mem ready_rings) = 8" "unat (tpd_head (edma ready_rings)) = 0" "console ready_rings = []"
    by (simp_all add: ready_rings_def zero_dev_def boot_def zero_statics_def)
  moreover have "\<not> tx_completes stuck_tx a h" for a h
    by (simp add: tx_completes_def polled_def reg_look_def stuck_tx_def tx_cons_def tx_prod_def)
  ultimately show ?thesis
    using eth_send_timeout [of ?w 60 stuck_tx "0x42000000"] eth_send_timeout [of ready_rings 60 stuck_tx "0x42000000"]
    by (auto simp: Let_def)
qed

text \<open>
  The four descriptors of a frame ask the hardware for 12 bytes more than the
  frame has: the last one starts 12 bytes into the frame and carries the full
  length, so its region ends 12 bytes after the frame's end.
\<close>

theorem send_fragments_overrun:
  assumes "length (tpd_mem w) = 8" and "unat (tpd_head (edma w)) < 8" and "16 \<le> unat len"
  shows "let w' = exec (ipq4019_eth_send P packet len) w;
      ds = map (\<lambda>i. tpd_mem w' ! ((unat (tpd_head (edma w)) + i) mod 8)) [0..<4]
    in sum_list (map (\<lambda>d. unat (tpd_len d)) ds) = unat len + 12 \<and>
       map tpd_addr ds = map (\<lambda>i. phys P (packet + of_nat (4 * i))) [0..<4] \<and>
       map (\<lambda>d. bit (tpd_word1 d) 31) ds = [False, False, False, True]"
proof -
  have u: "[0..<8 :: nat] = [0..<4] @ [4..<8]" using upt_add_eq_append [of 0 4 4] by simp
  have ds: "map (\<lambda>i. tx_ring_after P packet len (tpd_head (edma w)) 4 (tpd_mem w) !
      ((unat (tpd_head (edma w)) + i) mod 8)) [0..<4] = map (tx_tpd P packet len) [0..<4]"
    using tx_ring_after_slots [OF assms(2,1), of P packet len] unfolding u map_append by simp
  have "wp (ipq4019_eth_send P packet len) (\<lambda>_ w'.
      map (\<lambda>i. tpd_mem w' ! ((unat (tpd_head (edma w)) + i) mod 8)) [0..<4] = map (tx_tpd P packet len) [0..<4]) w"
    by (rule wp_ipq4019_eth_send [OF assms(1,2)])
      (use assms(3) ds in \<open>simp_all del: tx_ring_after_steps upt_rec_numeral\<close>)
  then have "map (\<lambda>i. tpd_mem (exec (ipq4019_eth_send P packet len) w) !
      ((unat (tpd_head (edma w)) + i) mod 8)) [0..<4] = map (tx_tpd P packet len) [0..<4]"
    by (simp only: wp_def)
  then show ?thesis
    by (simp only: Let_def) (simp add: tx_tpd_def upt_conv_Cons bit_simps)
qed

theorem send_fragments_overrun_witness:
  "let w' = exec (ipq4019_eth_send silent 0x42000000 60) ready_rings in
   sum_list (map (\<lambda>i. unat (tpd_len (tpd_mem w' ! (i mod 8)))) [0..<4]) = 72"
proof -
  have "length (tpd_mem ready_rings) = 8" "unat (tpd_head (edma ready_rings)) = 0"
    by (simp_all add: ready_rings_def boot_def zero_dev_def)
  then show ?thesis
    using send_fragments_overrun [of ready_rings 60 silent "0x42000000"]
    by (simp add: Let_def comp_def)
qed

end
