(* ===== verification/Ipq4019_Rx.thy ===== *)
theory Ipq4019_Rx
  imports Ipq4019_Tx
begin

text \<open>
  \<open>ipq4019_eth_recv\<close>: the hardware writes a 16-byte return descriptor and the
  frame into the buffer of the next ring slot; the driver copies the frame out
  and gives the slot back. The caller's \<open>buf\<close> has room for \<open>maxlen\<close> bytes; the
  model returns the bytes copied to it, together with \<open>*len\<close>.
\<close>

section \<open>The code\<close>

text \<open>
  \<open>memcpy(buf, rx_pkt + EDMA_RRD_SIZE, length)\<close>: copying past the end of the
  receive buffer or of \<open>buf\<close> is undefined.
\<close>

definition copy_frame :: "platform \<Rightarrow> u32 \<Rightarrow> u16 \<Rightarrow> int \<Rightarrow> (drv, u8 list) state" where
  "copy_frame P rx_pkt len maxlen = do {
     when_do (EDMA_RX_BUF_SIZE < EDMA_RRD_SIZE + unat len \<or> maxlen < int (unat len)) undefined_behaviour;
     h \<leftarrow> gets hist;
     ret (map (\<lambda>i. mem_load P h (rx_pkt + of_nat (EDMA_RRD_SIZE + i))) [0..<unat len]) }"

text \<open>Counting and logging a frame whose reported length is \<open>len\<close>.\<close>

definition rx_account :: "edma_rrd \<Rightarrow> int \<Rightarrow> u16 \<Rightarrow> (drv, unit) state" where
  "rx_account rrd maxlen len = do {
     when_do (maxlen < int (unat (rrd6 rrd))) (upd_vars (\<lambda>st. st\<lparr>rx_too_big := rx_too_big st + 1\<rparr>));
     upd_vars (\<lambda>st. st\<lparr>rx_count := rx_count st + 1\<rparr>);
     st \<leftarrow> gets vars;
     when_do (rx_count st \<le> 5 \<or> rx_count st mod 100 = 0)
       (printf ''ipq4019: RX #%d len=%d rrd7=0x%04x rrd6=0x%04x invalid=%d too_big=%d''
         [Num (of_int (rx_count st)), Num (ucast len), Num (ucast (rrd7 rrd)), Num (ucast (rrd6 rrd)),
          Num (of_int (rx_invalid st)), Num (of_int (rx_too_big st))]) }"

text \<open>Giving the slot back.\<close>

definition rx_recycle :: "(drv, unit) state" where
  "rx_recycle = do {
     p \<leftarrow> gets edma;
     writel (ucast (rfd_head p)) (base p + EDMA_REG_RFD_IDX_Q EDMA_RXQ_ID);
     upd_edma (\<lambda>p. p\<lparr>rfd_head := rfd_head p + 1\<rparr>);
     p \<leftarrow> gets edma;
     when_do (rfd_head p = of_nat NO_OF_RX_DESC) (upd_edma (\<lambda>p. p\<lparr>rfd_head := 0\<rparr>));
     upd_edma (\<lambda>p. p\<lparr>rfd_tail := rfd_tail p + 1\<rparr>);
     p \<leftarrow> gets edma;
     when_do (rfd_tail p = of_nat NO_OF_RX_DESC) (upd_edma (\<lambda>p. p\<lparr>rfd_tail := 0\<rparr>));
     p \<leftarrow> gets edma;
     writel (ucast (rfd_tail p)) (base p + EDMA_REG_RX_SW_CONS_IDX_Q EDMA_RXQ_ID) }"

definition ipq4019_eth_recv :: "platform \<Rightarrow> int \<Rightarrow> (drv, int \<times> u16 \<times> u8 list) state" where
  "ipq4019_eth_recv P maxlen = do {
     p \<leftarrow> gets edma;
     hw_tail \<leftarrow> readl P (base p + EDMA_REG_RFD_IDX_Q EDMA_RXQ_ID);
     let hw_tail = drop_bit EDMA_RFD_CONS_IDX_SHIFT hw_tail AND EDMA_RFD_CONS_IDX_MASK;
     if hw_tail = ucast (rfd_tail p) then ret (0, 0, [])
     else do {
       rx_pkt \<leftarrow> load_rx_packet (unat (rfd_tail p));
       invalidate_range rx_pkt EDMA_RX_BUF_SIZE;
       h \<leftarrow> gets hist;
       let rrd = load_rrd (\<lambda>k. mem_load P h (rx_pkt + of_nat k));
       if rrd7 rrd AND EDMA_RRD7_DESC_VALID = 0
       then do {
         upd_vars (\<lambda>st. st\<lparr>rx_invalid := rx_invalid st + 1\<rparr>);
         st \<leftarrow> gets vars;
         when_do (rx_invalid st \<le> 5)
           (printf ''ipq4019: RX %d invalid (rrd7=0x%04x)'' [Num (of_int (rx_invalid st)), Num (ucast (rrd7 rrd))]);
         ret (0, 0, []) }
       else do {
         let len = (if maxlen < int (unat (rrd6 rrd)) then word_of_int maxlen else rrd6 rrd);
         rx_account rrd maxlen len;
         data \<leftarrow> copy_frame P rx_pkt len maxlen;
         rx_recycle;
         ret (0, len, data) } } }"

section \<open>What one call sees\<close>

text \<open>
  The consumer index the hardware reports, the buffer of the slot at the
  software's tail, and the history at which the driver reads that buffer.
\<close>

definition rx_hw_tail :: "platform \<Rightarrow> drv \<Rightarrow> u32" where
  "rx_hw_tail P s = drop_bit 16 (bus_read P (hist s) (base (edma s) + 0x9b0)) AND 0xfff"

definition rx_buffer :: "drv \<Rightarrow> u32" where
  "rx_buffer s = net_rx_packets s ! unat (rfd_tail (edma s))"

definition rx_looked :: "platform \<Rightarrow> drv \<Rightarrow> event list" where
  "rx_looked P s = [Inval (rx_buffer s) 2048,
     Rd (base (edma s) + 0x9b0) (bus_read P (hist s) (base (edma s) + 0x9b0))]"

definition rx_byte :: "platform \<Rightarrow> drv \<Rightarrow> nat \<Rightarrow> u8" where
  "rx_byte P s k = mem_load P (rx_looked P s @ hist s) (rx_buffer s + of_nat k)"

definition rx_rrd :: "platform \<Rightarrow> drv \<Rightarrow> edma_rrd" where
  "rx_rrd P s = load_rrd (rx_byte P s)"

text \<open>The length the driver reports for a frame, given the room of the caller.\<close>

definition rx_len :: "int \<Rightarrow> u16 \<Rightarrow> u16" where
  "rx_len maxlen l = (if maxlen < int (unat l) then word_of_int maxlen else l)"

datatype rx_outcome = RxEmpty | RxInvalid | RxFrame

definition rx_outcome :: "platform \<Rightarrow> drv \<Rightarrow> rx_outcome" where
  "rx_outcome P s =
    (if rx_hw_tail P s = ucast (rfd_tail (edma s)) then RxEmpty
     else if bit (rrd7 (rx_rrd P s)) 15 then RxFrame else RxInvalid)"

definition count_rx :: "bool \<Rightarrow> statics \<Rightarrow> statics" where
  "count_rx big v = v\<lparr>rx_too_big := rx_too_big v + (if big then 1 else 0), rx_count := rx_count v + 1\<rparr>"

lemma valid_bit: "(v AND EDMA_RRD7_DESC_VALID = 0) \<longleftrightarrow> \<not> bit v 15" for v :: u16
  using and_exp_eq_0_iff_not_bit [of v 15] by simp

definition rx_invalid_lines :: "statics \<Rightarrow> edma_rrd \<Rightarrow> (string \<times> parg list) list" where
  "rx_invalid_lines v r = (if rx_invalid v < 5
     then [(''ipq4019: RX %d invalid (rrd7=0x%04x)'', [Num (of_int (rx_invalid v + 1)), Num (ucast (rrd7 r))])]
     else [])"

definition rx_frame_events :: "platform \<Rightarrow> drv \<Rightarrow> event list" where
  "rx_frame_events P s =
     [Wr (base (edma s) + 0x220) (ucast (ring_next 512 (rfd_tail (edma s)))),
      Wr (base (edma s) + 0x9b0) (ucast (rfd_head (edma s)))] @ rx_looked P s"

definition rx_frame_bytes :: "platform \<Rightarrow> drv \<Rightarrow> nat \<Rightarrow> u8 list" where
  "rx_frame_bytes P s n = map (\<lambda>i. rx_byte P s (16 + i)) [0..<n]"

definition rx_overrun :: "int \<Rightarrow> u16 \<Rightarrow> bool" where
  "rx_overrun maxlen n = (2048 < 16 + unat n \<or> maxlen < int (unat n))"

lemma wp_copy_frame:
  assumes "Q (map (\<lambda>i. mem_load P (hist s) (rx + of_nat (16 + i))) [0..<unat n])
      (s\<lparr>ub := ub s \<or> rx_overrun maxlen n\<rparr>)"
  shows "wp (copy_frame P rx n maxlen) Q s"
  using assms by (cases "rx_overrun maxlen n") (auto simp: copy_frame_def rx_overrun_def)

lemma wp_rx_account:
  assumes "\<And>cs. Q () (s\<lparr>console := cs @ console s, vars := count_rx (maxlen < int (unat (rrd6 r))) (vars s)\<rparr>)"
  shows "wp (rx_account r maxlen n) Q s"
  using assms [of "[]"] assms [of "[_]"]
  by (auto simp: rx_account_def count_rx_def Let_def)

lemma wp_rx_recycle:
  assumes "Q () (s\<lparr>hist := [Wr (base (edma s) + 0x220) (ucast (ring_next 512 (rfd_tail (edma s)))),
       Wr (base (edma s) + 0x9b0) (ucast (rfd_head (edma s)))] @ hist s,
     edma := (edma s)\<lparr>rfd_head := ring_next 512 (rfd_head (edma s)), rfd_tail := ring_next 512 (rfd_tail (edma s))\<rparr>\<rparr>)"
  shows "wp rx_recycle Q s"
  using assms
  by (cases "rfd_head (edma s) + 1 = 512"; cases "rfd_tail (edma s) + 1 = 512")
    (simp_all add: rx_recycle_def ring_next_def)

lemma wp_ipq4019_eth_recv:
  assumes len: "unat (rfd_tail (edma s)) < length (net_rx_packets s)"
    and empty: "rx_outcome P s = RxEmpty \<Longrightarrow> Q (0, 0, []) (s\<lparr>hist := tl (rx_looked P s) @ hist s\<rparr>)"
    and invalid: "rx_outcome P s = RxInvalid \<Longrightarrow>
      Q (0, 0, []) (s\<lparr>hist := rx_looked P s @ hist s,
        console := rx_invalid_lines (vars s) (rx_rrd P s) @ console s,
        vars := (vars s)\<lparr>rx_invalid := rx_invalid (vars s) + 1\<rparr>\<rparr>)"
    and frame: "\<And>cs n. rx_outcome P s = RxFrame \<Longrightarrow> n = rx_len maxlen (rrd6 (rx_rrd P s)) \<Longrightarrow>
      Q (0, n, rx_frame_bytes P s (unat n)) (s\<lparr>hist := rx_frame_events P s @ hist s, console := cs @ console s,
        ub := ub s \<or> rx_overrun maxlen n,
        edma := (edma s)\<lparr>rfd_head := ring_next 512 (rfd_head (edma s)), rfd_tail := ring_next 512 (rfd_tail (edma s))\<rparr>,
        vars := count_rx (maxlen < int (unat (rrd6 (rx_rrd P s)))) (vars s)\<rparr>)"
  shows "wp (ipq4019_eth_recv P maxlen) Q s"
proof (cases "rx_hw_tail P s = ucast (rfd_tail (edma s))")
  case True
  then show ?thesis using empty
    by (simp add: ipq4019_eth_recv_def wp_readl rx_hw_tail_def rx_outcome_def rx_looked_def Let_def)
next
  case False
  have rrd: "load_rrd (\<lambda>k. mem_load P (Inval (net_rx_packets s ! unat (rfd_tail (edma s))) 2048 #
      Rd (base (edma s) + 0x9b0) (bus_read P (hist s) (base (edma s) + 0x9b0)) # hist s)
      (net_rx_packets s ! unat (rfd_tail (edma s)) + of_nat k)) = rx_rrd P s"
    by (simp add: rx_rrd_def rx_byte_def [abs_def] rx_looked_def rx_buffer_def)
  show ?thesis
  proof (cases "bit (rrd7 (rx_rrd P s)) 15")
    case True
    have o: "rx_outcome P s = RxFrame" using False True by (simp add: rx_outcome_def)
    let ?n = "rx_len maxlen (rrd6 (rx_rrd P s))"
    let ?big = "maxlen < int (unat (rrd6 (rx_rrd P s)))"
    have "wp (rx_account (rx_rrd P s) maxlen ?n)
        (\<lambda>_. wp (copy_frame P (rx_buffer s) ?n maxlen) (\<lambda>data. wp rx_recycle (\<lambda>_. Q (0, ?n, data))))
        (s\<lparr>hist := rx_looked P s @ hist s\<rparr>)"
    proof (rule wp_rx_account, rule wp_copy_frame, rule wp_rx_recycle, goal_cases)
      case (1 cs)
      from frame [OF o refl, of cs]
      show ?case
        by (simp add: rx_frame_events_def rx_frame_bytes_def rx_byte_def)
    qed
    then show ?thesis using len False True
      by (cases ?big) (simp_all add: ipq4019_eth_recv_def wp_readl rx_hw_tail_def Let_def rrd valid_bit [simplified] rx_len_def
          rx_looked_def rx_buffer_def)
  next
    case not_valid: False
    then have "rx_outcome P s = RxInvalid" using False by (simp add: rx_outcome_def)
    from invalid [OF this] len False not_valid show ?thesis
      by (cases "rx_invalid (vars s) < 5")
       (simp_all add: ipq4019_eth_recv_def wp_readl rx_hw_tail_def Let_def rrd valid_bit [simplified] rx_invalid_lines_def
          rx_looked_def rx_buffer_def)
  qed
qed

section \<open>Properties\<close>

text \<open>
  C9: a call of \<open>ipq4019_eth_recv\<close> returns 0 and does one of three things. No
  new frame: one register read, length 0. A descriptor that is not marked valid:
  the invalid counter goes up, length 0, the slot is kept. A valid one: the
  bytes behind the descriptor are copied, at most \<open>maxlen\<close> of them, and both
  ring indices move on by one; the frame's buffer is invalidated before any byte
  of it is read.
\<close>

theorem eth_recv_spec:
  assumes "unat (rfd_tail (edma w)) < length (net_rx_packets w)"
  shows "let w' = exec (ipq4019_eth_recv P maxlen) w; (rc, n, data) = result (ipq4019_eth_recv P maxlen) w; p = edma w
    in rc = 0 \<and> (case rx_outcome P w of
      RxEmpty \<Rightarrow> n = 0 \<and> data = [] \<and> w' = w\<lparr>hist := tl (rx_looked P w) @ hist w\<rparr>
    | RxInvalid \<Rightarrow> n = 0 \<and> data = [] \<and> edma w' = p \<and> hist w' = rx_looked P w @ hist w \<and>
        vars w' = (vars w)\<lparr>rx_invalid := rx_invalid (vars w) + 1\<rparr> \<and> ub w' = ub w
    | RxFrame \<Rightarrow> n = rx_len maxlen (rrd6 (rx_rrd P w)) \<and> data = rx_frame_bytes P w (unat n) \<and>
        hist w' = rx_frame_events P w @ hist w \<and> ub w' = (ub w \<or> rx_overrun maxlen n) \<and>
        edma w' = p\<lparr>rfd_head := ring_next 512 (rfd_head p), rfd_tail := ring_next 512 (rfd_tail p)\<rparr>)"
proof -
  have "wp (ipq4019_eth_recv P maxlen) (\<lambda>(rc, n, data) w'. rc = 0 \<and> (case rx_outcome P w of
      RxEmpty \<Rightarrow> n = 0 \<and> data = [] \<and> w' = w\<lparr>hist := tl (rx_looked P w) @ hist w\<rparr>
    | RxInvalid \<Rightarrow> n = 0 \<and> data = [] \<and> edma w' = edma w \<and> hist w' = rx_looked P w @ hist w \<and>
        vars w' = (vars w)\<lparr>rx_invalid := rx_invalid (vars w) + 1\<rparr> \<and> ub w' = ub w
    | RxFrame \<Rightarrow> n = rx_len maxlen (rrd6 (rx_rrd P w)) \<and> data = rx_frame_bytes P w (unat n) \<and>
        hist w' = rx_frame_events P w @ hist w \<and> ub w' = (ub w \<or> rx_overrun maxlen n) \<and>
        edma w' = (edma w)\<lparr>rfd_head := ring_next 512 (rfd_head (edma w)), rfd_tail := ring_next 512 (rfd_tail (edma w))\<rparr>)) w"
    by (rule wp_ipq4019_eth_recv [OF assms]) simp_all
  then show ?thesis by (simp add: wp_def Let_def split_beta)
qed

text \<open>
  An environment with one received frame of 64 bytes: the hardware has filled
  slot 0, the payload counts up.
\<close>

definition one_frame :: platform where
  "one_frame = silent\<lparr>bus_read := \<lambda>_ _. 0x10000,
     mem_load := \<lambda>_ a. let k = unat (a - 0x40000000) in
       if k = 12 then 64 else if k = 15 then 0x80 else if k < 16 then 0 else of_nat (k - 16)\<rparr>"

lemma one_frame_rx:
  assumes "net_rx_packets s = replicate 512 0x40000000" and "rfd_tail (edma s) = 0"
  shows "rx_outcome one_frame s = RxFrame" "rrd6 (rx_rrd one_frame s) = 64"
    "rx_frame_bytes one_frame s 3 = [0, 1, 2]"
  using assms
  by (simp_all add: rx_outcome_def rx_hw_tail_def rx_rrd_def load_rrd_def halfword_def rx_byte_def rx_buffer_def
      one_frame_def rx_frame_bytes_def upt_conv_Cons unat_word_ariths)

lemma ready_rings_packets: "net_rx_packets ready_rings = replicate 512 0x40000000"
  by (simp add: ready_rings_def)

lemmas one_frame_ready = one_frame_rx [OF ready_rings_packets, simplified]

theorem eth_recv_spec_witness:
  "result (ipq4019_eth_recv one_frame 3) ready_rings = (0, 3, [0, 1, 2]) \<and>
   unat (rfd_tail (edma (exec (ipq4019_eth_recv one_frame 3) ready_rings))) = 1"
proof -
  have "unat (rfd_tail (edma ready_rings)) < length (net_rx_packets ready_rings)" by simp
  from eth_recv_spec [OF this, of one_frame 3] show ?thesis
    by (simp add: Let_def split_beta one_frame_ready rx_len_def prod_eq_iff ring_next_def)
qed

text \<open>
  C10: with room for at most 2032 bytes (2048 less the descriptor) no call reads
  past the receive buffer or writes past the caller's: it delivers as many bytes
  as it reports, at most \<open>maxlen\<close>, and a frame that fits arrives whole.
\<close>

theorem recv_in_bounds:
  assumes "unat (rfd_tail (edma w)) < length (net_rx_packets w)" and "0 \<le> maxlen" and "maxlen \<le> 2032"
  shows "let (rc, n, data) = result (ipq4019_eth_recv P maxlen) w in
    ub (exec (ipq4019_eth_recv P maxlen) w) = ub w \<and> length data = unat n \<and> int (length data) \<le> maxlen \<and>
    (if rx_outcome P w = RxFrame
     then int (unat n) = min maxlen (int (unat (rrd6 (rx_rrd P w)))) else data = [])"
proof -
  have fits: "\<not> rx_overrun maxlen (rx_len maxlen l)" "int (unat (rx_len maxlen l)) = min maxlen (int (unat l))" for l
  proof -
    have "uint (word_of_int maxlen :: u16) = maxlen"
      using assms(2,3) by (simp add: unsigned_of_int take_bit_int_eq_self)
    then show len: "int (unat (rx_len maxlen l)) = min maxlen (int (unat l))"
      by (auto simp: rx_len_def)
    then have "int (unat (rx_len maxlen l)) \<le> maxlen" by (simp only: min.cobounded1)
    then show "\<not> rx_overrun maxlen (rx_len maxlen l)"
      using assms(3) unfolding rx_overrun_def by linarith
  qed
  have "wp (ipq4019_eth_recv P maxlen) (\<lambda>(rc, n, data) w'.
    ub w' = ub w \<and> length data = unat n \<and> int (length data) \<le> maxlen \<and>
    (if rx_outcome P w = RxFrame
     then int (unat n) = min maxlen (int (unat (rrd6 (rx_rrd P w)))) else data = [])) w"
  proof (rule wp_ipq4019_eth_recv [OF assms(1)], goal_cases)
    case (3 cs n)
    then show ?case using fits [of "rrd6 (rx_rrd P w)"] by (simp add: rx_frame_bytes_def)
  qed (use assms(2) in simp_all)
  then show ?thesis unfolding wp_def split_beta Let_def .
qed

theorem recv_in_bounds_witness:
  "ub (exec (ipq4019_eth_recv one_frame 1500) ready_rings) = False \<and>
   int (length (snd (snd (result (ipq4019_eth_recv one_frame 1500) ready_rings)))) = 64"
proof -
  have "unat (rfd_tail (edma ready_rings)) < length (net_rx_packets ready_rings)" "ub ready_rings = False"
    by simp_all
  then show ?thesis
    using recv_in_bounds [of ready_rings 1500 one_frame]
    by (auto simp: Let_def split_beta one_frame_ready)
qed


section \<open>The receive ring as slots\<close>

text \<open>
  The slots from index a up to, not including, index b of a ring of 512.
\<close>

definition slots :: "nat \<Rightarrow> nat \<Rightarrow> nat set" where
  "slots a b = (\<lambda>j. (a + j) mod 512) ` {..<(b + 512 - a) mod 512}"

text \<open>
  Tail, hardware consumer and producer in ring order: what the driver has still
  to read, tail to consumer, and what the hardware may fill, consumer to
  producer, do not overlap when the producer is the slot before the tail.
\<close>

lemma ring_distance:
  assumes "a < 512" and "b < (512 :: nat)"
  shows "(b + 512 - a) mod 512 = (if a \<le> b then b - a else b + 512 - a)"
proof (cases "a \<le> b")
  case True
  then obtain d where "b = a + d" by (auto simp: le_iff_add)
  then show ?thesis using assms by simp
next
  case False
  then show ?thesis using assms by simp
qed

lemma slots_disjoint:
  assumes "t < 512" and "c < 512"
  shows "slots t c \<inter> slots c ((t + 511) mod 512) = {}"
proof -
  define x where "x = (c + 512 - t) mod 512"
  have x': "x = (if t \<le> c then c - t else c + 512 - t)"
    unfolding x_def by (rule ring_distance [OF assms])
  have x: "x < 512" "c = (t + x) mod 512"
    using assms unfolding x' by (auto simp: mod_if)
  have t': "(t + 511) mod 512 = (if t = 0 then 511 else t - 1)"
  proof (cases t)
    case (Suc u)
    then have "(t + 511) mod 512 = (u + 512) mod 512" by simp
    then show ?thesis using Suc assms(1) by simp
  qed simp
  then have "(t + 511) mod 512 < 512" by simp
  from ring_distance [OF assms(2) this] have y: "((t + 511) mod 512 + 512 - c) mod 512 = 511 - x"
    using assms unfolding t' x' by (auto split: if_splits)
  have "(t + i) mod 512 \<noteq> (c + j) mod 512" if "i < x" "j < 511 - x" for i j
  proof
    assume "(t + i) mod 512 = (c + j) mod 512"
    then have "(t + i) mod 512 = (t + (x + j)) mod 512"
      by (simp add: x(2) mod_add_left_eq add.assoc)
    then have "i mod 512 = (x + j) mod 512" by (simp add: nat_mod_eq_iff add.assoc)
    then show False using that x(1) by simp
  qed
  then show ?thesis unfolding slots_def x_def [symmetric] y by fastforce
qed


text \<open>The running receive ring: the producer is one slot before the tail.\<close>

definition rx_ring_inv :: "drv \<Rightarrow> bool" where
  "rx_ring_inv s \<longleftrightarrow> unat (rfd_tail (edma s)) < 512 \<and> unat (rfd_head (edma s)) = (unat (rfd_tail (edma s)) + 511) mod 512"

lemma rx_ring_inv_next:
  assumes "rx_ring_inv s"
  shows "unat (ring_next 512 (rfd_tail (edma s))) < 512"
    and "unat (ring_next 512 (rfd_head (edma s))) = (unat (ring_next 512 (rfd_tail (edma s))) + 511) mod 512"
proof -
  have t: "unat (rfd_tail (edma s)) < 512" and h: "unat (rfd_head (edma s)) = (unat (rfd_tail (edma s)) + 511) mod 512"
    using assms by (simp_all add: rx_ring_inv_def)
  then have h': "unat (rfd_head (edma s)) < 512" by simp
  have n: "unat (ring_next 512 i) = (unat i + 1) mod 512" if "unat i < 512" for i
    using rx_index.next_mod [of i] that by simp
  show "unat (ring_next 512 (rfd_tail (edma s))) < 512" unfolding n [OF t] by simp
  have "(unat (rfd_head (edma s)) + 1) mod 512 = (unat (rfd_tail (edma s)) + 1 + 511) mod 512"
    unfolding h by (simp add: mod_Suc_eq)
  then show "unat (ring_next 512 (rfd_head (edma s))) = (unat (ring_next 512 (rfd_tail (edma s))) + 511) mod 512"
    unfolding n [OF t] n [OF h'] by (simp add: mod_add_left_eq)
qed

text \<open>
  C3: a received frame's doorbell never hands the hardware a buffer the driver
  has not finished with: in the state the invariant of the ring describes
  (producer one slot before the tail), the producer index written is such that
  the slots the hardware may fill and the slots still to be read are disjoint for
  every position the hardware's consumer may have, and the invariant holds again
  after the call.
\<close>

theorem recv_doorbell_safe:
  assumes "rx_ring_inv w" and "length (net_rx_packets w) = 512" and "rx_outcome P w = RxFrame"
    and "c < 512" and "c \<noteq> unat (rfd_tail (edma w))"
  shows "let w' = exec (ipq4019_eth_recv P maxlen) w; t = unat (rfd_tail (edma w)) in
    rx_ring_inv w' \<and> unat (rfd_tail (edma w')) = (t + 1) mod 512 \<and>
    (\<exists>d. writes (hist w') = writes (hist w) @
        [(base (edma w) + 0x9b0, of_nat d), (base (edma w) + 0x220, of_nat ((t + 1) mod 512))] \<and>
      slots t c \<inter> slots c d = {} \<and> t \<notin> slots c d)"
proof -
  let ?t = "unat (rfd_tail (edma w))"
  let ?d = "(?t + 511) mod 512"
  have t: "?t < 512" and h: "unat (rfd_head (edma w)) = ?d" using assms(1) by (simp_all add: rx_ring_inv_def)
  have n: "unat (ring_next 512 (rfd_tail (edma w))) = (?t + 1) mod 512"
    using rx_index.next_mod [of "rfd_tail (edma w)"] t by simp
  have words: "ucast (rfd_head (edma w)) = (of_nat ?d :: u32)"
    "ucast (ring_next 512 (rfd_tail (edma w))) = (of_nat ((?t + 1) mod 512) :: u32)"
    unfolding h [symmetric] n [symmetric] by simp_all
  have "?t \<in> slots ?t c"
    unfolding slots_def ring_distance [OF t assms(4)] using t assms(4,5)
    by (intro image_eqI [of _ _ 0]) auto
  with slots_disjoint [OF t assms(4)] have not_mine: "?t \<notin> slots c ?d" by blast
  have "wp (ipq4019_eth_recv P maxlen) (\<lambda>_ w'. rx_ring_inv w' \<and> unat (rfd_tail (edma w')) = (?t + 1) mod 512 \<and>
      writes (hist w') = writes (hist w) @
        [(base (edma w) + 0x9b0, of_nat ?d), (base (edma w) + 0x220, of_nat ((?t + 1) mod 512))]) w"
    by (rule wp_ipq4019_eth_recv)
      (use assms(2,3) t rx_ring_inv_next [OF assms(1)] n words in
        \<open>simp_all add: rx_ring_inv_def rx_frame_events_def rx_looked_def del: One_nat_def\<close>)
  then show ?thesis
    using slots_disjoint [OF t assms(4)] not_mine unfolding wp_def Let_def by blast
qed

theorem recv_doorbell_safe_witness:
  "let w = ready_rings\<lparr>edma := zero_dev\<lparr>rfd_head := 511\<rparr>\<rparr> in
   unat (rfd_tail (edma (exec (ipq4019_eth_recv one_frame 1500) w))) = 1 \<and>
   rx_ring_inv (exec (ipq4019_eth_recv one_frame 1500) w)"
proof -
  let ?w = "ready_rings\<lparr>edma := zero_dev\<lparr>rfd_head := 511\<rparr>\<rparr>"
  have "rx_outcome one_frame ?w = RxFrame"
    by (rule one_frame_rx) (simp_all add: ready_rings_packets)
  moreover have "rx_ring_inv ?w" "length (net_rx_packets ?w) = 512" "rfd_tail (edma ?w) = 0"
    by (simp_all add: rx_ring_inv_def)
  ultimately show ?thesis
    using recv_doorbell_safe [of ?w one_frame 1 1500] by (simp add: Let_def)
qed

lemma recv_invalid_step:
  assumes "unat (rfd_tail (edma s)) < length (net_rx_packets s)"
    and "\<And>h. drop_bit 16 (bus_read P h (base (edma s) + 0x9b0)) AND 0xfff \<noteq> ucast (rfd_tail (edma s))"
    and "\<And>h. \<not> bit (rrd7 (load_rrd (\<lambda>k. mem_load P h (rx_buffer s + of_nat k)))) 15"
  shows "wp (ipq4019_eth_recv P maxlen) (\<lambda>r t. r = (0, 0, []) \<and> edma t = edma s \<and>
    net_rx_packets t = net_rx_packets s \<and> writes (hist t) = writes (hist s)) s"
proof -
  have o: "rx_outcome P s = RxInvalid"
    using assms(2) [of "hist s"] assms(3) [of "rx_looked P s @ hist s"]
    by (simp add: rx_outcome_def rx_hw_tail_def rx_rrd_def rx_byte_def [abs_def])
  show ?thesis
    by (rule wp_ipq4019_eth_recv [OF assms(1)]) (simp_all add: o rx_looked_def)
qed

text \<open>
  C18: a slot whose descriptor the hardware never marks valid blocks reception:
  however often the driver polls, it reports no frame, keeps both indices where
  they are and gives no buffer back, even while the hardware's consumer index
  shows later slots as filled.
\<close>

theorem recv_invalid_stalls:
  assumes "unat (rfd_tail (edma w)) < length (net_rx_packets w)"
    and "\<And>h. drop_bit 16 (bus_read P h (base (edma w) + 0x9b0)) AND 0xfff \<noteq> ucast (rfd_tail (edma w))"
    and "\<And>h. \<not> bit (rrd7 (load_rrd (\<lambda>k. mem_load P h (rx_buffer w + of_nat k)))) 15"
  shows "let t = (exec (ipq4019_eth_recv P maxlen) ^^ n) w in
    edma t = edma w \<and> writes (hist t) = writes (hist w) \<and> result (ipq4019_eth_recv P maxlen) t = (0, 0, [])"
proof -
  have step: "edma (exec (ipq4019_eth_recv P maxlen) t) = edma w \<and>
      net_rx_packets (exec (ipq4019_eth_recv P maxlen) t) = net_rx_packets w \<and>
      writes (hist (exec (ipq4019_eth_recv P maxlen) t)) = writes (hist w) \<and>
      result (ipq4019_eth_recv P maxlen) t = (0, 0, [])"
    if t: "edma t = edma w" "net_rx_packets t = net_rx_packets w" "writes (hist t) = writes (hist w)" for t
    using recv_invalid_step [of t P maxlen] assms t by (simp add: wp_def rx_buffer_def)
  have "edma ((exec (ipq4019_eth_recv P maxlen) ^^ n) w) = edma w \<and>
      net_rx_packets ((exec (ipq4019_eth_recv P maxlen) ^^ n) w) = net_rx_packets w \<and>
      writes (hist ((exec (ipq4019_eth_recv P maxlen) ^^ n) w)) = writes (hist w)"
    by (induction n) (simp_all add: step)
  then show ?thesis using step unfolding Let_def by blast
qed

definition stale_slot :: platform where
  "stale_slot = silent\<lparr>bus_read := \<lambda>_ _. 0x50000\<rparr>"

theorem recv_invalid_stalls_witness:
  "edma ((exec (ipq4019_eth_recv stale_slot 1500) ^^ 1000) ready_rings) = edma ready_rings"
proof -
  have "unat (rfd_tail (edma ready_rings)) < length (net_rx_packets ready_rings)" by simp
  moreover have "drop_bit 16 (bus_read stale_slot h (base (edma ready_rings) + 0x9b0)) AND 0xfff \<noteq>
      ucast (rfd_tail (edma ready_rings))" for h
    by (simp add: stale_slot_def)
  moreover have "\<not> bit (rrd7 (load_rrd (\<lambda>k. mem_load stale_slot h (rx_buffer ready_rings + of_nat k)))) 15" for h
    by (simp add: stale_slot_def load_rrd_def halfword_def)
  ultimately show ?thesis
    using recv_invalid_stalls [of ready_rings stale_slot 1000 1500] unfolding Let_def by blast
qed

end
