(* ===== verification/Net_Stack.thy ===== *)
theory Net_Stack
  imports Platform
begin

text \<open>
  What depthcharge does with a network driver (reference/depthcharge-net.h): its
  main loop calls the poller the driver has registered, and once the driver has
  added a device the network stack calls the device's operations. The contracts
  are locales; each driver of the repository is an interpretation.
\<close>

section \<open>Calls of the device\<close>

text \<open>
  The network stack's side: three operations, a state predicate they keep and
  the largest buffer the stack may offer.
\<close>

datatype net_call = Ready | Recv int | Send u32 u16

text \<open>What a call returns: the code and the bytes delivered.\<close>

primrec run_call :: "('s, int \<times> int) state \<Rightarrow> (int \<Rightarrow> ('s, int \<times> u16 \<times> u8 list) state) \<Rightarrow>
    (u32 \<Rightarrow> u16 \<Rightarrow> ('s, int) state) \<Rightarrow> net_call \<Rightarrow> ('s, int \<times> u8 list) state" where
  "run_call ready recv send Ready = do { (rc, r) \<leftarrow> ready; ret (rc, []) }"
| "run_call ready recv send (Recv m) = do { (rc, n, d) \<leftarrow> recv m; ret (rc, d) }"
| "run_call ready recv send (Send p n) = do { rc \<leftarrow> send p n; ret (rc, []) }"

primrec run_calls :: "('s, int \<times> int) state \<Rightarrow> (int \<Rightarrow> ('s, int \<times> u16 \<times> u8 list) state) \<Rightarrow>
    (u32 \<Rightarrow> u16 \<Rightarrow> ('s, int) state) \<Rightarrow> net_call list \<Rightarrow> ('s, (int \<times> u8 list) list) state" where
  "run_calls ready recv send [] = ret []"
| "run_calls ready recv send (c # cs) = do {
     r \<leftarrow> run_call ready recv send c;
     rs \<leftarrow> run_calls ready recv send cs;
     ret (r # rs) }"

primrec admissible :: "int \<Rightarrow> net_call \<Rightarrow> bool" where
  "admissible room Ready = True"
| "admissible room (Recv m) = (0 \<le> m \<and> m \<le> room)"
| "admissible room (Send p n) = True"

locale net_device =
  fixes dev_inv :: "'s \<Rightarrow> bool"
    and ready :: "('s, int \<times> int) state"
    and recv :: "int \<Rightarrow> ('s, int \<times> u16 \<times> u8 list) state"
    and send :: "u32 \<Rightarrow> u16 \<Rightarrow> ('s, int) state"
    and max_room :: int
  assumes ready_law: "dev_inv s \<Longrightarrow> wp ready (\<lambda>(rc, r) t. dev_inv t \<and> rc = 0 \<and> (r = 0 \<or> r = 1)) s"
    and recv_law: "dev_inv s \<Longrightarrow> 0 \<le> m \<Longrightarrow> m \<le> max_room \<Longrightarrow>
      wp (recv m) (\<lambda>(rc, n, d) t. dev_inv t \<and> rc = 0 \<and> length d = unat n \<and> int (unat n) \<le> m) s"
    and send_law: "dev_inv s \<Longrightarrow> wp (send p n) (\<lambda>rc t. dev_inv t \<and> rc = 0) s"
begin

lemma call_law:
  assumes "dev_inv s" and "admissible max_room c"
  shows "wp (run_call ready recv send c) (\<lambda>(rc, d) t. dev_inv t \<and> rc = 0 \<and>
    (case c of Recv m \<Rightarrow> int (length d) \<le> m | _ \<Rightarrow> d = [])) s"
proof (cases c)
  case Ready
  show ?thesis unfolding Ready run_call.simps wp_bind
    by (rule wp_mono [OF ready_law [OF assms(1)]]) auto
next
  case (Recv m)
  then have "0 \<le> m" "m \<le> max_room" using assms(2) by simp_all
  then show ?thesis unfolding Recv run_call.simps wp_bind
    by (intro wp_mono [OF recv_law [OF assms(1)]]) auto
next
  case (Send p n)
  show ?thesis unfolding Send run_call.simps wp_bind
    by (rule wp_mono [OF send_law [OF assms(1)]]) auto
qed

lemma calls_law:
  assumes "dev_inv s" and "list_all (admissible max_room) cs"
  shows "wp (run_calls ready recv send cs) (\<lambda>rs t. dev_inv t \<and> length rs = length cs \<and> list_all (\<lambda>r. fst r = 0) rs) s"
  using assms
proof (induction cs arbitrary: s)
  case Nil
  then show ?case by simp
next
  case (Cons c cs)
  have "wp (run_call ready recv send c) (\<lambda>r. wp (run_calls ready recv send cs) (\<lambda>rs t. dev_inv t \<and> length rs = length cs \<and>
      list_all (\<lambda>r. fst r = 0) rs \<and> fst r = 0)) s"
    by (rule wp_mono [OF call_law]) (use Cons in \<open>auto intro: wp_mono\<close>)
  then have "wp (run_call ready recv send c) (\<lambda>r. wp (run_calls ready recv send cs) (\<lambda>rs t. dev_inv t \<and> length (r # rs) = length (c # cs) \<and>
      list_all (\<lambda>r. fst r = 0) (r # rs))) s"
    by (rule wp_mono) (auto elim!: wp_mono)
  then show ?case unfolding run_calls.simps wp_bind wp_ret .
qed

end

section \<open>Runs\<close>

text \<open>
  A run: the image boots, depthcharge polls, and while a device is up the network
  stack calls its operations; polls and calls come in any order. A poll or a call
  that does not return ends the run.
\<close>

inductive stack_run ::
  "('s \<Rightarrow> 's option) \<Rightarrow> (net_call \<Rightarrow> 's \<Rightarrow> 's option) \<Rightarrow> ('s \<Rightarrow> bool) \<Rightarrow> int \<Rightarrow> 's \<Rightarrow> 's \<Rightarrow> bool"
  for poll call up room start where
  booted: "stack_run poll call up room start start"
| polled: "stack_run poll call up room start s \<Longrightarrow> poll s = Some t \<Longrightarrow> stack_run poll call up room start t"
| called: "stack_run poll call up room start s \<Longrightarrow> up s \<Longrightarrow> admissible room c \<Longrightarrow> call c s = Some t \<Longrightarrow>
    stack_run poll call up room start t"

text \<open>
  The contract: \<open>idle\<close> holds throughout, \<open>ok\<close> whenever the device is up.
\<close>

locale polled_driver =
  fixes poll :: "'s \<Rightarrow> 's option"
    and call :: "net_call \<Rightarrow> 's \<Rightarrow> 's option"
    and up :: "'s \<Rightarrow> bool"
    and room :: int
    and start :: 's
    and idle :: "'s \<Rightarrow> bool"
    and ok :: "'s \<Rightarrow> bool"
  assumes boot_law: "idle start \<and> (up start \<longrightarrow> ok start)"
    and poll_law: "idle s \<Longrightarrow> up s \<longrightarrow> ok s \<Longrightarrow> poll s = Some t \<Longrightarrow> idle t \<and> (up t \<longrightarrow> ok t)"
    and op_law: "idle s \<Longrightarrow> ok s \<Longrightarrow> up s \<Longrightarrow> admissible room c \<Longrightarrow> call c s = Some t \<Longrightarrow> idle t \<and> ok t"
begin

lemma run_law:
  assumes "stack_run poll call up room start s"
  shows "idle s \<and> (up s \<longrightarrow> ok s)"
  using assms
proof induction
  case booted
  show ?case by (rule boot_law)
next
  case (polled s t)
  then show ?case using poll_law by blast
next
  case (called s c t)
  then show ?case using op_law by blast
qed

end

end
