(* ===== verification/Ipq4019_Net.thy ===== *)
theory Ipq4019_Net
  imports Ipq4019_Rx Net_Stack
begin

text \<open>
  The remaining NetDevice operations of ipq4019.c (\<open>ready\<close>, \<open>get_mac\<close>), the
  MAC address, and the driver's part of the contract with the network stack: its
  operations keep the driver's invariant, whatever the sequence of calls.
\<close>

section \<open>The code\<close>

text \<open>The link registers of the PHYs, in order; a failed read leaves the 0 of \<open>v[i]\<close>.\<close>

primrec read_link_states :: "platform \<Rightarrow> nat list \<Rightarrow> (drv, u16 list) state" where
  "read_link_states P [] = ret []"
| "read_link_states P (i # is) = do {
     (_, v) \<leftarrow> ipq4019_mdio_read P (of_nat i) QCA807X_PHY_SPECIFIC 0;
     vs \<leftarrow> read_link_states P is;
     ret (v # vs) }"

definition link_up :: "u16 \<Rightarrow> bool" where
  "link_up v \<longleftrightarrow> v AND QCA807X_PHY_SPECIFIC_LINK \<noteq> 0"

definition link_speed :: "u16 \<Rightarrow> string" where
  "link_speed v = (let k = drop_bit 14 v AND 3 in
     if k = 0 then ''10M'' else if k = 1 then ''100M'' else if k = 2 then ''1G'' else ''??'')"

definition log_links :: "u16 list \<Rightarrow> (drv, unit) state" where
  "log_links vs = for_each [0..<IPQ4019_NUM_PORT_PHY] (\<lambda>i.
     printf ''ipq4019: PHY %d  %s  %s/%s  PHY_SPECIFIC=0x%04x''
       [Num (of_nat i), Str (if link_up (vs ! i) then ''LINK_UP'' else ''no_link''), Str (link_speed (vs ! i)),
        Str (if vs ! i AND 0x2000 \<noteq> 0 then ''full'' else ''half''), Num (ucast (vs ! i))])"

text \<open>The result is the return value and \<open>*ready\<close>.\<close>

definition ipq4019_phy_check_link :: "platform \<Rightarrow> (drv, int \<times> int) state" where
  "ipq4019_phy_check_link P = do {
     p \<leftarrow> gets edma;
     when_do (started p = 0) (do { _ \<leftarrow> ipq4019_eth_start P; ret () });
     vs \<leftarrow> read_link_states P [0..<IPQ4019_NUM_PORT_PHY];
     let ready = (if \<exists>v \<in> set vs. link_up v then 1 else 0);
     st \<leftarrow> gets vars;
     when_do (ready \<noteq> 0 \<and> link_logged st = 0)
       (do { log_links vs; upd_vars (\<lambda>st. st\<lparr>link_logged := 1\<rparr>) });
     ret (0, ready) }"

definition ipq4019_get_mac :: "(drv, u8 list) state" where
  "ipq4019_get_mac = do { p \<leftarrow> gets edma; ret (mac_addr p) }"

text \<open>The result is the return value and what is stored at \<open>enetaddr\<close>.\<close>

definition get_eth_mac_address :: "platform \<Rightarrow> (drv, int \<times> u8 list) state" where
  "get_eth_mac_address P = do {
     let mac = map (sysinfo_mac P) [0..<6];
     let valid = (\<exists>b \<in> set mac. b \<noteq> 0);
     if valid then ret (1, mac)
     else do {
       printf ''ipq4019: no MAC in sysinfo, using locally-administered'' [];
       ret (1, [0x02, 0x00, 0xc0, 0xff, 0xee, 0x01]) } }"

definition ipq4019_eth_write_hwaddr :: "(drv, int) state" where
  "ipq4019_eth_write_hwaddr = do {
     p \<leftarrow> gets edma;
     let m = (\<lambda>i. ucast (mac_addr p ! i) :: u32);
     let hi = push_bit 8 (m 0) OR m 1;
     let lo = push_bit 24 (m 2) OR push_bit 16 (m 3) OR push_bit 8 (m 4) OR m 5;
     writel lo (base p + REG_MAC_CTRL0);
     writel hi (base p + REG_MAC_CTRL1);
     ret 0 }"

section \<open>The MAC address\<close>

text \<open>The six bytes in the two address registers.\<close>

definition mac_of_regs :: "u32 \<Rightarrow> u32 \<Rightarrow> u8 list" where
  "mac_of_regs lo hi = [ucast (drop_bit 8 hi), ucast hi, ucast (drop_bit 24 lo), ucast (drop_bit 16 lo),
     ucast (drop_bit 8 lo), ucast lo]"

definition mac_lo :: "u8 list \<Rightarrow> u32" where
  "mac_lo m = push_bit 24 (ucast (m ! 2)) OR push_bit 16 (ucast (m ! 3)) OR push_bit 8 (ucast (m ! 4)) OR ucast (m ! 5)"

definition mac_hi :: "u8 list \<Rightarrow> u32" where
  "mac_hi m = push_bit 8 (ucast (m ! 0)) OR ucast (m ! 1)"

lemma mac_of_regs_bytes:
  fixes a b c d e f :: u8
  shows "mac_of_regs (mac_lo [a, b, c, d, e, f]) (mac_hi [a, b, c, d, e, f]) = [a, b, c, d, e, f]"
proof -
  have "ucast (drop_bit 24 (mac_lo [a, b, c, d, e, f])) = c"
    by (rule bit_word_eqI) (auto simp: mac_lo_def bit_simps dest: bit_imp_le_length)
  moreover have "ucast (drop_bit 16 (mac_lo [a, b, c, d, e, f])) = d"
    by (rule bit_word_eqI) (auto simp: mac_lo_def bit_simps dest: bit_imp_le_length)
  moreover have "ucast (drop_bit 8 (mac_lo [a, b, c, d, e, f])) = e" "ucast (mac_lo [a, b, c, d, e, f]) = f"
    by (rule bit_word_eqI, auto simp: mac_lo_def bit_simps dest: bit_imp_le_length)+
  moreover have "ucast (drop_bit 8 (mac_hi [a, b, c, d, e, f])) = a" "ucast (mac_hi [a, b, c, d, e, f]) = b"
    by (rule bit_word_eqI, auto simp: mac_hi_def bit_simps dest: bit_imp_le_length)+
  ultimately show ?thesis by (simp add: mac_of_regs_def)
qed

lemma mac_of_regs_inverse:
  assumes "length m = 6"
  shows "mac_of_regs (mac_lo m) (mac_hi m) = m"
proof -
  obtain a b c d e f where "m = [a, b, c, d, e, f]"
    using assms by (auto simp: length_Suc_conv numeral_eq_Suc)
  then show ?thesis by (simp only: mac_of_regs_bytes)
qed

lemma wp_write_hwaddr:
  assumes "Q 0 (s\<lparr>hist := [Wr (base (edma s) + 0xc24) (mac_hi (mac_addr (edma s))),
    Wr (base (edma s) + 0xc20) (mac_lo (mac_addr (edma s)))] @ hist s\<rparr>)"
  shows "wp ipq4019_eth_write_hwaddr Q s"
  using assms by (simp add: ipq4019_eth_write_hwaddr_def mac_lo_def mac_hi_def Let_def)

text \<open>
  Programming the address loses nothing: the six bytes of the device's MAC
  address can be read back from the two registers written, and those are the
  only writes.
\<close>

theorem write_hwaddr_roundtrip:
  assumes "length (mac_addr (edma w)) = 6"
  shows "\<exists>lo hi. writes (hist (exec ipq4019_eth_write_hwaddr w)) =
      writes (hist w) @ [(base (edma w) + 0xc20, lo), (base (edma w) + 0xc24, hi)] \<and>
    mac_of_regs lo hi = mac_addr (edma w)"
  by (rule wp_execI, rule wp_write_hwaddr, rule exI, rule exI, rule conjI)
    (simp, rule mac_of_regs_inverse [OF assms])

theorem write_hwaddr_roundtrip_witness:
  "\<exists>lo hi. mac_of_regs lo hi = [0x02, 0, 0xc0, 0xff, 0xee, 1]"
  using write_hwaddr_roundtrip [of "boot\<lparr>edma := zero_dev\<lparr>mac_addr := [0x02, 0, 0xc0, 0xff, 0xee, 1]\<rparr>\<rparr>"]
  by auto

section \<open>The link check\<close>

lemma io_only_read_link_states: "io_only (read_link_states P is)"
  by (induction "is") (auto intro!: io_only_rules)

lemma wp_log_links:
  assumes "\<And>cs. Q () (s\<lparr>console := cs @ console s\<rparr>)"
  shows "wp (log_links vs) Q s"
proof -
  have "wp (log_links vs) (\<lambda>_ t. \<exists>cs. t = s\<lparr>console := cs @ console s\<rparr>) s"
    unfolding log_links_def
  proof (rule wp_for_each_inv)
    show "\<exists>cs. s = s\<lparr>console := cs @ console s\<rparr>" by (rule exI [of _ "[]"]) simp
  next
    fix i and t :: drv
    assume "\<exists>cs. t = s\<lparr>console := cs @ console s\<rparr>"
    then obtain cs where "t = s\<lparr>console := cs @ console s\<rparr>" by blast
    then show "wp (printf ''ipq4019: PHY %d  %s  %s/%s  PHY_SPECIFIC=0x%04x''
       [Num (of_nat i), Str (if link_up (vs ! i) then ''LINK_UP'' else ''no_link''), Str (link_speed (vs ! i)),
        Str (if vs ! i AND 0x2000 \<noteq> 0 then ''full'' else ''half''), Num (ucast (vs ! i))])
        (\<lambda>_ t. \<exists>cs. t = s\<lparr>console := cs @ console s\<rparr>) t"
      by (intro iffD2 [OF wp_prims(8)] exI [of _ "_ # cs"]) simp
  qed
  then show ?thesis using assms by (auto simp: wp_def)
qed

text \<open>
  On PHYs that answer with what they hold, the loop returns the link registers
  of its PHYs and sends one read frame to each.
\<close>

lemma wp_read_link_states:
  assumes "mdio_responsive P" and "mdio_answers P b"
    and "\<And>es cs. mdio_frames (es @ hist s) = mdio_frames (hist s) @ map (\<lambda>i. MdioRead (of_nat i) 0x11) is \<Longrightarrow>
      Q (map (\<lambda>i. phy_load 0x11 (wire_run b (mdio_frames (hist s)) (of_nat i))) is)
        (s\<lparr>hist := es @ hist s, console := cs @ console s\<rparr>)"
  shows "wp (read_link_states P is) Q s"
  using assms(3)
proof (induction "is" arbitrary: s Q)
  case Nil
  then show ?case using Nil [of "[]" "[]"] by simp
next
  case (Cons i "is")
  let ?v = "\<lambda>i. phy_load 0x11 (wire_run b (mdio_frames (hist s)) (of_nat i))"
  have "wp (ipq4019_mdio_read P (of_nat i) 0x11 0)
      (\<lambda>r. wp (read_link_states P is) (\<lambda>vs. Q (snd r # vs))) s"
  proof (rule wp_mdio_read)
    fix es cs and h1 :: "event list" and d
    assume es: "mdio_frames (es @ hist s) = mdio_frames (hist s) @ [MdioRead (of_nat i) 0x11]"
      and d: "d = bus_read P (es @ hist s) (mdio_base + MDIO_DATA_READ_REG)"
    have v: "ucast d = ?v i" unfolding d using assms(2) es unfolding mdio_answers_def by blast
    let ?t = "s\<lparr>hist := Rd (mdio_base + MDIO_DATA_READ_REG) d # es @ hist s, console := cs @ console s\<rparr>"
    have f: "mdio_frames (hist ?t) = mdio_frames (hist s) @ [MdioRead (of_nat i) 0x11]" using es by simp
    have w: "wire_run b (mdio_frames (hist ?t)) = wire_run b (mdio_frames (hist s))" unfolding f by simp
    have "wp (read_link_states P is) (\<lambda>vs. Q (?v i # vs)) ?t"
    proof (rule Cons.IH, unfold w)
      fix es' cs'
      assume "mdio_frames (es' @ hist ?t) = mdio_frames (hist ?t) @ map (\<lambda>i. MdioRead (of_nat i) 0x11) is"
      then have "mdio_frames ((es' @ Rd (mdio_base + MDIO_DATA_READ_REG) d # es) @ hist s) =
          mdio_frames (hist s) @ map (\<lambda>i. MdioRead (of_nat i) 0x11) (i # is)" using f by simp
      from Cons.prems [OF this, of "cs' @ cs"]
      show "Q (?v i # map ?v is) (?t\<lparr>hist := es' @ hist ?t, console := cs' @ console ?t\<rparr>)" by simp
    qed
    then show "wp (read_link_states P is) (\<lambda>vs. Q (snd (0, ucast d) # vs)) ?t" by (simp add: v)
  qed (simp_all add: responsive_idle [OF assms(1)])
  then show ?case by (simp add: case_prod_beta)
qed

text \<open>With a controller that never answers, every link register reads as 0.\<close>

lemma read_link_states_stuck:
  assumes "\<And>h. \<not> mdio_idle P h"
  shows "wp (read_link_states P is) (\<lambda>vs _. vs = replicate (length is) 0) s"
proof (induction "is" arbitrary: s)
  case Nil
  then show ?case by simp
next
  case (Cons i "is")
  have "wp (ipq4019_mdio_read P (of_nat i) 0x11 0) (\<lambda>r. wp (read_link_states P is)
      (\<lambda>vs _. snd r # vs = replicate (Suc (length is)) 0)) s"
    using assms Cons by (intro wp_mdio_read) simp_all
  then show ?case by (simp add: case_prod_beta)
qed

lemma link_up_bit: "link_up v \<longleftrightarrow> bit v 10"
  using and_exp_eq_0_iff_not_bit [of v 10] by (simp add: link_up_def)

definition started_state :: "platform \<Rightarrow> drv \<Rightarrow> drv" where
  "started_state P s = (if started (edma s) = 0 then exec (ipq4019_eth_start P) s else s)"

lemma wp_phy_check_link:
  assumes "wp (read_link_states P [0..<5]) (\<lambda>vs t.
    \<forall>cs l. Q (0, if \<exists>v \<in> set vs. bit v 10 then 1 else 0)
      (t\<lparr>console := cs @ console t, vars := (vars t)\<lparr>link_logged := l\<rparr>\<rparr>)) (started_state P s)"
  shows "wp (ipq4019_phy_check_link P) Q s"
proof -
  let ?fin = "\<lambda>vs. do {
     let ready = (if \<exists>v \<in> set vs. link_up v then 1 else 0);
     st \<leftarrow> gets vars;
     when_do (ready \<noteq> 0 \<and> link_logged st = 0)
       (do { log_links vs; upd_vars (\<lambda>st. st\<lparr>link_logged := 1\<rparr>) });
     ret (0, ready) }"
  have fin: "wp (?fin vs) Q t" if
    "\<forall>cs l. Q (0, if \<exists>v \<in> set vs. bit v 10 then 1 else 0)
      (t\<lparr>console := cs @ console t, vars := (vars t)\<lparr>link_logged := l\<rparr>\<rparr>)" for vs and t :: drv
  proof (cases "(\<exists>v \<in> set vs. bit v 10) \<and> link_logged (vars t) = 0")
    case True
    have "wp (log_links vs) (\<lambda>_ t. Q (0, 1) (t\<lparr>vars := (vars t)\<lparr>link_logged := 1\<rparr>\<rparr>)) t"
      using that True by (intro wp_log_links) simp
    then show ?thesis using True by (simp add: link_up_bit Let_def)
  next
    case False
    have "Q (0, if \<exists>v \<in> set vs. bit v 10 then 1 else 0) t"
      using that [THEN spec [of _ "[]"], THEN spec [of _ "link_logged (vars t)"]] by simp
    then show ?thesis using False by (auto simp: link_up_bit Let_def)
  qed
  have start: "wp (when_do (started (edma s) = 0) (do { _ \<leftarrow> ipq4019_eth_start P; ret () })) R s =
      R () (started_state P s)" for R
    by (cases "started (edma s) = 0") (simp_all add: started_state_def wp_def)
  have "wp (read_link_states P [0..<5]) (\<lambda>vs. wp (?fin vs) Q) (started_state P s)"
    using assms by (rule wp_mono) (rule fin)
  then show ?thesis
    unfolding ipq4019_phy_check_link_def wp_bind wp_gets start IPQ4019_NUM_PORT_PHY_def .
qed

text \<open>
  C16: on PHYs that answer, \<open>ready\<close> is reported exactly when at least one of
  the five port PHYs shows link (bit 10 of its register 0x11); the device has
  been started before, if it was not, and the only frames sent are one read to
  each PHY in order.
\<close>

theorem check_link_ready:
  assumes "mdio_responsive P" and "mdio_answers P b"
  shows "let s = started_state P w; v = (\<lambda>i. phy_load 0x11 (wire_run b (mdio_frames (hist s)) (of_nat i)));
      w' = exec (ipq4019_phy_check_link P) w
    in result (ipq4019_phy_check_link P) w = (0, if \<exists>i<5. bit (v i) 10 then 1 else 0) \<and>
       mdio_frames (hist w') = mdio_frames (hist s) @ map (\<lambda>i. MdioRead (of_nat i) 0x11) [0..<5] \<and>
       edma w' = edma s \<and> rfd_mem w' = rfd_mem s"
proof -
  let ?s = "started_state P w"
  let ?v = "\<lambda>i. phy_load 0x11 (wire_run b (mdio_frames (hist ?s)) (of_nat i))"
  have up: "(\<exists>v \<in> set (map ?v [0..<5]). bit v 10) \<longleftrightarrow> (\<exists>i<5. bit (?v i) 10)" by auto
  have "wp (ipq4019_phy_check_link P) (\<lambda>r t. r = (0, if \<exists>i<5. bit (?v i) 10 then 1 else 0) \<and>
      mdio_frames (hist t) = mdio_frames (hist ?s) @ map (\<lambda>i. MdioRead (of_nat i) 0x11) [0..<5] \<and>
      edma t = edma ?s \<and> rfd_mem t = rfd_mem ?s) w"
    by (rule wp_phy_check_link, rule wp_read_link_states [OF assms], unfold up)
      (simp del: upt_rec_numeral)
  then show ?thesis unfolding wp_def Let_def .
qed

definition one_link :: "u8 \<Rightarrow> phy_regs" where
  "one_link = (\<lambda>p. \<lparr>c22 = \<lambda>r. if p = 3 \<and> r = 0x11 then 0x8400 else 0, mmd_addr = \<lambda>_. 0, mmd_regs = \<lambda>_ _. 0\<rparr>)"

theorem check_link_ready_witness:
  "result (ipq4019_phy_check_link (phy_platform one_link)) (ready_rings\<lparr>edma := zero_dev\<lparr>started := 1\<rparr>\<rparr>) = (0, 1)"
proof -
  let ?w = "ready_rings\<lparr>edma := zero_dev\<lparr>started := 1\<rparr>\<rparr>"
  have "\<exists>i<5. bit (phy_load 0x11 (wire_run one_link (mdio_frames (hist (started_state P ?w))) (of_nat i))) 10" for P
    by (rule exI [of _ 3]) (simp add: one_link_def phy_load_def started_state_def bit_simps)
  then show ?thesis
    using check_link_ready [OF phy_platform_responsive phy_platform_answers, of one_link ?w]
    by (simp add: Let_def)
qed

text \<open>
  With a stuck MDIO controller the driver never reports a link, whatever the
  data register holds.
\<close>

theorem check_link_stuck_mdio:
  assumes "\<And>h. \<not> mdio_idle P h"
  shows "result (ipq4019_phy_check_link P) w = (0, 0)"
proof (rule wp_resultI, rule wp_phy_check_link)
  have "wp (read_link_states P [0..<5]) (\<lambda>vs _. vs = replicate (length [0..<5]) 0) (started_state P w)"
    by (rule read_link_states_stuck [OF assms])
  then show "wp (read_link_states P [0..<5]) (\<lambda>vs t. \<forall>cs l.
      (0, if \<exists>v \<in> set vs. bit v 10 then 1 else 0) = (0 :: int, 0 :: int)) (started_state P w)"
    by (rule wp_mono) auto
qed

text \<open>A controller whose busy bit never clears, with link bits on the data register.\<close>

definition stuck_mdio :: platform where
  "stuck_mdio = silent\<lparr>bus_read := \<lambda>_ _. 0xffffffff\<rparr>"

theorem check_link_stuck_mdio_witness:
  "result (ipq4019_phy_check_link stuck_mdio) ready_rings = (0, 0)"
proof -
  have "\<not> mdio_idle stuck_mdio h" for h
    by (simp add: mdio_idle_def polled_def reg_look_def stuck_mdio_def)
  then show ?thesis by (rule check_link_stuck_mdio)
qed

section \<open>The invariant of the device\<close>

text \<open>
  What holds between calls: both rings and the buffers are in place, the indices
  are in range, the transmit head is where the flush of four descriptors is
  right, once started the receive ring is in its running state, and nothing was
  accessed out of bounds.
\<close>

definition dev_ok :: "drv \<Rightarrow> bool" where
  "dev_ok s \<longleftrightarrow> \<not> ub s \<and> length (tpd_mem s) = 8 \<and> length (rfd_mem s) = 512 \<and>
     length (net_rx_packets s) = 512 \<and>
     unat (tpd_head (edma s)) < 8 \<and> unat (tpd_head (edma s)) mod 4 = 0 \<and>
     unat (rfd_head (edma s)) < 512 \<and> unat (rfd_tail (edma s)) < 512 \<and>
     (started (edma s) = 0 \<or> rx_ring_inv s)"

section \<open>The driver keeps the contract\<close>

lemma dev_ok_send:
  assumes "dev_ok s"
  shows "wp (ipq4019_eth_send P packet n) (\<lambda>rc t. dev_ok t \<and> rc = 0) s"
proof (rule wp_ipq4019_eth_send)
  have "unat (tx_next (tpd_head (edma s))) = (unat (tpd_head (edma s)) + 4) mod 8"
    using assms by (intro unat_tx_next) (simp add: dev_ok_def)
  moreover have "unat (tpd_head (edma s)) mod 4 = 0" using assms by (simp add: dev_ok_def)
  then have "(unat (tpd_head (edma s)) + 4) mod 8 mod 4 = 0" by presburger
  ultimately have next_ok: "unat (tx_next (tpd_head (edma s))) < 8" "unat (tx_next (tpd_head (edma s))) mod 4 = 0"
    by simp_all
  fix rs ps :: "event list" and cs
  show "dev_ok (s\<lparr>hist := Wr (base (edma s) + 0x240) (ucast (tx_next (tpd_head (edma s)))) # rs @ ps @
          tx_posted P packet n (edma s) @ hist s,
        console := cs @ (if tx_completes P (base (edma s) + 0x460) (tx_posted P packet n (edma s) @ hist s)
          then [] else [tx_timeout_line n]) @ console s,
        tpd_mem := tx_ring_after P packet n (tpd_head (edma s)) 4 (tpd_mem s),
        edma := (edma s)\<lparr>tpd_head := tx_next (tpd_head (edma s))\<rparr>,
        vars := count_frame (vars s)\<rparr>) \<and> (0 :: int) = 0"
    using assms next_ok by (auto simp: dev_ok_def rx_ring_inv_def simp del: tx_ring_after_steps)
qed (use assms in \<open>simp_all add: dev_ok_def\<close>)


lemma rx_len_room:
  assumes "0 \<le> m"
  shows "int (unat (rx_len m l)) \<le> m"
proof (cases "m < int (unat l)")
  case True
  moreover have "unat l < 65536" using unsigned_less [of l, where ?'a = nat] by simp
  ultimately have "m < 65536" by linarith
  then have "uint (word_of_int m :: u16) = m" using assms by (simp add: unsigned_of_int take_bit_int_eq_self)
  then show ?thesis using True by (simp add: rx_len_def)
qed (simp add: rx_len_def)

lemma dev_ok_recv:
  assumes "dev_ok s" and "0 \<le> m" and "m \<le> 2032"
  shows "wp (ipq4019_eth_recv P m)
    (\<lambda>(rc, n, d) t. dev_ok t \<and> rc = 0 \<and> length d = unat n \<and> int (unat n) \<le> m) s"
proof (rule wp_ipq4019_eth_recv, goal_cases)
  case (4 cs n)
  have room: "int (unat n) \<le> m" unfolding 4(2) by (rule rx_len_room [OF assms(2)])
  then have "\<not> rx_overrun m n" using assms(3) unfolding rx_overrun_def by linarith
  moreover have "unat (ring_next 512 (rfd_head (edma s))) < 512" "unat (ring_next 512 (rfd_tail (edma s))) < 512"
    using assms(1) rx_index.next_in_range by (simp_all add: dev_ok_def)
  moreover have "started (edma s) = 0 \<or> unat (ring_next 512 (rfd_head (edma s))) =
      (unat (ring_next 512 (rfd_tail (edma s))) + 511) mod 512"
    using assms(1) rx_ring_inv_next(2) by (auto simp: dev_ok_def)
  ultimately show ?case
    using assms(1) room by (auto simp: dev_ok_def rx_ring_inv_def rx_frame_bytes_def)
qed (use assms in \<open>auto simp: dev_ok_def rx_ring_inv_def\<close>)

lemma dev_ok_started_state:
  assumes "dev_ok s"
  shows "dev_ok (started_state P s)" and "started (edma (started_state P s)) \<noteq> 0"
proof -
  have "wp (ipq4019_eth_start P) (\<lambda>_ t. dev_ok t \<and> started (edma t) = 1) s"
    by (rule wp_ipq4019_eth_start) (use assms in \<open>simp_all add: dev_ok_def rx_ring_inv_def\<close>)
  then show "dev_ok (started_state P s)" "started (edma (started_state P s)) \<noteq> 0"
    using assms by (simp_all add: started_state_def wp_def)
qed

lemma dev_ok_check_link:
  assumes "dev_ok s"
  shows "wp (ipq4019_phy_check_link P)
    (\<lambda>(rc, r) t. dev_ok t \<and> started (edma t) \<noteq> 0 \<and> rc = 0 \<and> (r = 0 \<or> r = 1)) s"
  by (rule wp_phy_check_link, rule io_only_wp_frame [OF io_only_read_link_states])
    (use dev_ok_started_state [OF assms] in \<open>auto simp: dev_ok_def rx_ring_inv_def\<close>)

interpretation net: net_device dev_ok "ipq4019_phy_check_link P" "ipq4019_eth_recv P" "ipq4019_eth_send P" 2032
  for P
proof
  fix s :: drv and m :: int and p and n
  assume s: "dev_ok s"
  show "wp (ipq4019_phy_check_link P) (\<lambda>(rc, r) t. dev_ok t \<and> rc = 0 \<and> (r = 0 \<or> r = 1)) s"
    by (rule wp_mono [OF dev_ok_check_link [OF s]]) auto
  show "wp (ipq4019_eth_send P p n) (\<lambda>rc t. dev_ok t \<and> rc = 0) s" by (rule dev_ok_send [OF s])
  assume "0 \<le> m" "m \<le> 2032"
  then show "wp (ipq4019_eth_recv P m)
      (\<lambda>(rc, n, d) t. dev_ok t \<and> rc = 0 \<and> length d = unat n \<and> int (unat n) \<le> m) s"
    by (rule dev_ok_recv [OF s])
qed

text \<open>
  C4: from a state in which the driver's invariant holds, no sequence of calls
  the network stack can make (link checks, receives into buffers of up to 2032
  bytes, sends of any frame) leads to an access out of bounds, to indices out of
  range or to an error code, whatever the hardware answers. The bound is needed: a
  receive that offers more room can read past the driver's own buffer, whose length
  the hardware's report is not compared with.
\<close>

theorem net_calls_safe:
  assumes "dev_ok w" and "list_all (admissible 2032) cs"
  shows "let (rs, w') = run_state (run_calls (ipq4019_phy_check_link P) (ipq4019_eth_recv P) (ipq4019_eth_send P) cs) w in
    dev_ok w' \<and> \<not> ub w' \<and> length rs = length cs \<and> list_all (\<lambda>r. fst r = 0) rs"
  using net.calls_law [OF assms, of P]
  by (simp add: wp_def run_state_conv dev_ok_def)

lemma dev_ok_ready_rings: "dev_ok ready_rings"
  by (simp add: dev_ok_def)

theorem net_calls_safe_witness:
  "dev_ok (snd (run_state (run_calls (ipq4019_phy_check_link one_frame) (ipq4019_eth_recv one_frame)
     (ipq4019_eth_send one_frame) [Ready, Recv 1500, Send 0x42000000 60, Recv 1500]) ready_rings))"
  using net_calls_safe [OF dev_ok_ready_rings, of "[Ready, Recv 1500, Send 0x42000000 60, Recv 1500]" one_frame]
  by (auto simp: case_prod_beta)

end
