(* ===== verification/Ipq4019_Stream.thy ===== *)
theory Ipq4019_Stream
  imports Ipq4019_Net
begin

text \<open>
  The receive path as a queue: with hardware that fills the slots it was given in
  order, the network stack gets every frame once, whole, and in the order in
  which the frames arrived, whatever it does between two receives.
\<close>

section \<open>The hardware's side\<close>

text \<open>How many slots the driver has given back: the writes to the consumer register.\<close>

definition slots_freed :: "u32 \<Rightarrow> event list \<Rightarrow> nat" where
  "slots_freed b h = length (filter (\<lambda>w. fst w = b + 0x220) (writes h))"

text \<open>
  \<open>rx_stream P b bufs D F filled\<close>: the k-th frame to arrive is \<open>F k\<close>, with
  return descriptor \<open>D k\<close>. After history h, \<open>filled h\<close> frames have been stored,
  the k-th one in slot k modulo 512; the index register shows how many. The
  hardware never takes the slot before the last one it was given, and after an
  invalidation the CPU reads what was stored.
\<close>

definition rx_stream ::
  "platform \<Rightarrow> u32 \<Rightarrow> u32 list \<Rightarrow> (nat \<Rightarrow> edma_rrd) \<Rightarrow> (nat \<Rightarrow> u8 list) \<Rightarrow> (event list \<Rightarrow> nat) \<Rightarrow> bool" where
  "rx_stream P b bufs D F filled \<longleftrightarrow>
     (\<forall>h. drop_bit 16 (bus_read P h (b + 0x9b0)) AND 0xfff = of_nat (filled h mod 512)) \<and>
     (\<forall>h e. filled h \<le> filled (e # h)) \<and>
     (\<forall>h. filled h \<le> slots_freed b h + 511) \<and>
     (\<forall>k. F k \<noteq> [] \<and> length (F k) \<le> 2032 \<and> rrd6 (D k) = of_nat (length (F k)) \<and> bit (rrd7 (D k)) 15) \<and>
     (\<forall>h k i. slots_freed b h \<le> k \<and> k < filled h \<and> i < 16 + length (F k) \<longrightarrow>
        mem_load P (Inval (bufs ! (k mod 512)) 2048 # h) (bufs ! (k mod 512) + of_nat i) = (rrd_bytes (D k) @ F k) ! i)"

text \<open>The driver has taken c frames.\<close>

definition rx_at :: "u32 \<Rightarrow> u32 list \<Rightarrow> (event list \<Rightarrow> nat) \<Rightarrow> nat \<Rightarrow> drv \<Rightarrow> bool" where
  "rx_at b bufs filled c s \<longleftrightarrow> base (edma s) = b \<and> net_rx_packets s = bufs \<and> length bufs = 512 \<and>
     rfd_tail (edma s) = of_nat (c mod 512) \<and> slots_freed b (hist s) = c \<and> c \<le> filled (hist s)"

section \<open>One call\<close>

lemma load_rrd_bytes: "load_rrd (\<lambda>k. (rrd_bytes r @ d) ! k) = r"
  by (simp add: load_rrd_def halfword_def rrd_bytes_def halfword_bytes_def halfword_halfword_bytes nth_Cons')

lemma unat_slot: "unat (of_nat (c mod 512) :: u16) = c mod 512" "unat (of_nat (c mod 512) :: u32) = c mod 512"
  by (simp_all add: unat_of_nat take_bit_nat_eq_self_iff)

lemma ring_next_count: "ring_next 512 (of_nat (c mod 512)) = of_nat (Suc c mod 512)"
  using rx_index.next_mod [of "of_nat (c mod 512)"]
  by (simp only: word_unat_eq_iff unat_slot NO_OF_RX_DESC_def) (simp add: mod_Suc_eq)

lemma slot_index_eq: "(of_nat (f mod 512) :: u32) = ucast (of_nat (c mod 512) :: u16) \<longleftrightarrow> f mod 512 = c mod 512"
  unfolding word_unat_eq_iff unat_ucast_16_32 unat_slot ..

lemma not_lapped: "c \<le> f \<Longrightarrow> f \<le> c + 511 \<Longrightarrow> f mod 512 = c mod 512 \<longleftrightarrow> f = c" for c f :: nat
  using mod_eq_dvd_iff_nat [of c f 512] nat_dvd_not_less [of "f - c" 512] by (cases "f = c") auto

lemma recv_stream_step:
  assumes S: "rx_stream P b bufs D F filled" and at: "rx_at b bufs filled c s"
    and room: "\<And>k. int (length (F k)) \<le> maxlen"
  shows "wp (ipq4019_eth_recv P maxlen) (\<lambda>(rc, n, data) t. started (edma t) = started (edma s) \<and> filled (hist s) \<le> filled (hist t) \<and>
    (if filled (hist s) = c then data = [] \<and> rx_at b bufs filled c t
     else data = F c \<and> rx_at b bufs filled (Suc c) t)) s"
proof -
  have idx: "\<And>h. drop_bit 16 (bus_read P h (b + 0x9b0)) AND 0xfff = of_nat (filled h mod 512)"
    and mono1: "\<And>h e. filled h \<le> filled (e # h)" and cap: "\<And>h. filled h \<le> slots_freed b h + 511"
    and frame: "\<And>k. F k \<noteq> [] \<and> length (F k) \<le> 2032 \<and> rrd6 (D k) = of_nat (length (F k)) \<and> bit (rrd7 (D k)) 15"
    and mem: "\<And>h k i. slots_freed b h \<le> k \<Longrightarrow> k < filled h \<Longrightarrow> i < 16 + length (F k) \<Longrightarrow>
        mem_load P (Inval (bufs ! (k mod 512)) 2048 # h) (bufs ! (k mod 512) + of_nat i) = (rrd_bytes (D k) @ F k) ! i"
    using S unfolding rx_stream_def by blast+
  have mono: "filled h \<le> filled (es @ h)" for es h
    by (induction es) (auto intro: order_trans mono1)
  have st: "base (edma s) = b" "net_rx_packets s = bufs" "length bufs = 512" "rfd_tail (edma s) = of_nat (c mod 512)"
      "slots_freed b (hist s) = c" "c \<le> filled (hist s)"
    using at by (simp_all add: rx_at_def)
  have tail: "unat (rfd_tail (edma s)) < length (net_rx_packets s)"
    unfolding st unat_slot by simp
  have empty: "rx_hw_tail P s = ucast (rfd_tail (edma s)) \<longleftrightarrow> filled (hist s) = c"
    using idx not_lapped [OF st(6)] cap [of "hist s"] by (simp add: rx_hw_tail_def st slot_index_eq)
  have buf: "rx_buffer s = bufs ! (c mod 512)"
    by (simp only: rx_buffer_def st unat_slot)
  have got: "rx_rrd P s = D c" "rx_frame_bytes P s (length (F c)) = F c" if "filled (hist s) \<noteq> c"
  proof -
    have "c < filled (hist s)" using that st(6) by simp
    have byte: "rx_byte P s i = (rrd_bytes (D c) @ F c) ! i" if "i < 16 + length (F c)" for i
    proof -
      let ?h = "Rd (b + 0x9b0) (bus_read P (hist s) (b + 0x9b0)) # hist s"
      have "c < filled ?h" using \<open>c < filled (hist s)\<close> mono1 less_le_trans by blast
      moreover have "slots_freed b ?h = c" using st(5) by (simp add: slots_freed_def)
      ultimately show ?thesis
        using mem [of ?h c i] that by (simp add: rx_byte_def rx_looked_def buf st)
    qed
    have "load_rrd (rx_byte P s) = load_rrd (\<lambda>k. (rrd_bytes (D c) @ F c) ! k)"
      by (rule load_rrd_cong) (simp add: byte)
    then show "rx_rrd P s = D c" by (simp add: rx_rrd_def load_rrd_bytes)
    show "rx_frame_bytes P s (length (F c)) = F c"
      by (rule nth_equalityI) (simp_all add: rx_frame_bytes_def byte nth_append)
  qed
  have len: "unat (of_nat (length (F c)) :: u16) = length (F c)"
    using frame [of c] by (simp add: unat_of_nat take_bit_nat_eq_self_iff)
  have events: "slots_freed b (rx_frame_events P s) = 1"
    by (simp add: slots_freed_def rx_frame_events_def rx_looked_def st)
  show ?thesis
  proof (rule wp_ipq4019_eth_recv [OF tail], goal_cases)
    case 1
    then have "filled (hist s) = c" using empty by (simp add: rx_outcome_def split: if_splits)
    then show ?case
      using at mono [of "hist s" "tl (rx_looked P s)"]
      by (auto simp: rx_at_def rx_looked_def slots_freed_def)
  next
    case 2
    then show ?case using empty got(1) frame [of c] by (simp add: rx_outcome_def split: if_splits)
  next
    case (3 cs n)
    then have more: "filled (hist s) \<noteq> c" using empty by (simp add: rx_outcome_def split: if_splits)
    then have n: "n = of_nat (length (F c))"
      using 3(2) got(1) frame [of c] room [of c] by (simp add: rx_len_def len)
    have "\<not> rx_overrun maxlen n"
      using frame [of c] room [of c] unfolding n rx_overrun_def len by auto
    then show ?case
      using more got(2) st events mono [of "hist s" "rx_frame_events P s"]
      by (auto simp: n len rx_at_def ring_next_count slots_freed_def less_le)
  qed
qed

section \<open>What else happens\<close>

text \<open>An event that gives no slot back.\<close>

definition no_slot :: "u32 \<Rightarrow> event \<Rightarrow> bool" where
  "no_slot b e \<longleftrightarrow> (\<forall>v. e \<noteq> Wr (b + 0x220) v)"

lemma slots_freed_other:
  assumes "list_all (no_slot b) es"
  shows "slots_freed b (es @ h) = slots_freed b h"
  using assms
proof (induction es)
  case (Cons e es)
  then show ?case by (cases e) (auto simp: no_slot_def slots_freed_def)
qed simp

lemma no_slot_quiet: "writes es = [] \<Longrightarrow> list_all (no_slot b) es"
proof (induction es)
  case (Cons e es)
  then show ?case by (cases e) (auto simp: no_slot_def)
qed simp

lemma filled_mono:
  assumes "\<And>h e. filled h \<le> filled (e # h :: event list)"
  shows "filled h \<le> (filled (es @ h) :: nat)"
  by (induction es) (auto intro: order_trans assms)

lemma rx_at_other:
  assumes "rx_at b bufs filled c s" and "\<And>h e. filled h \<le> filled (e # h)"
    and "list_all (no_slot b) es" and "hist t = es @ hist s"
    and "base (edma t) = base (edma s)" and "rfd_tail (edma t) = rfd_tail (edma s)"
    and "net_rx_packets t = net_rx_packets s"
  shows "rx_at b bufs filled c t \<and> filled (hist s) \<le> filled (hist t)"
  using assms slots_freed_other [OF assms(3), of "hist s"] filled_mono [OF assms(2), of "hist s" es]
  by (auto simp: rx_at_def)

lemma send_stream_step:
  assumes "rx_at b bufs filled c s" and mono: "\<And>h e. filled h \<le> filled (e # h)"
    and "length (tpd_mem s) = 8" and "unat (tpd_head (edma s)) < 8"
  shows "wp (ipq4019_eth_send P packet n)
    (\<lambda>_ t. rx_at b bufs filled c t \<and> filled (hist s) \<le> filled (hist t) \<and> started (edma t) = started (edma s)) s"
proof (rule wp_ipq4019_eth_send [OF assms(3,4)], goal_cases)
  case 1
  then show ?case using assms by simp
next
  case (2 rs ps cs)
  have b: "base (edma s) = b" using assms(1) by (simp add: rx_at_def)
  have quiet: "list_all (no_slot b) rs" "list_all (no_slot b) ps" "list_all (no_slot b) (tx_stores P packet n h k)" for h k
    using is_read_events(1) [OF 2(2)] poll_events_writes [OF 2(4)] by (simp_all add: no_slot_quiet)
  let ?es = "Wr (b + 0x240) (ucast (tx_next (tpd_head (edma s)))) # rs @ ps @ tx_posted P packet n (edma s)"
  have "list_all (no_slot b) ?es"
    using quiet by (simp add: tx_posted_def b) (simp add: no_slot_def)
  then show ?case by (intro conjI rx_at_other [OF assms(1) mono, THEN conjunct1] rx_at_other [OF assms(1) mono, THEN conjunct2])
      (simp_all add: b)
qed

lemma no_slot_mdio_read:
  assumes "b = IPQ4019_EDMA_BASE"
  shows "io_within (no_slot b) (ipq4019_mdio_read P phy reg v)"
  unfolding ipq4019_mdio_read_def mdio_wait_busy_def Let_def
  by (intro io_within_rules) (simp_all add: no_slot_def assms)

lemma check_link_stream_step:
  assumes "rx_at b bufs filled c s" and mono: "\<And>h e. filled h \<le> filled (e # h)"
    and "started (edma s) \<noteq> 0" and "b = IPQ4019_EDMA_BASE"
  shows "wp (ipq4019_phy_check_link P)
    (\<lambda>_ t. rx_at b bufs filled c t \<and> filled (hist s) \<le> filled (hist t) \<and> started (edma t) = started (edma s)) s"
proof (rule wp_phy_check_link)
  have "io_within (no_slot b) (read_link_states P is)" for "is"
    by (induction "is") (auto intro!: io_within_rules no_slot_mdio_read assms(4))
  moreover have "started_state P s = s" using assms(3) by (simp add: started_state_def)
  ultimately show "wp (read_link_states P [0..<5]) (\<lambda>vs t. \<forall>cs l. rx_at b bufs filled c (t\<lparr>console := cs @ console t,
      vars := (vars t)\<lparr>link_logged := l\<rparr>\<rparr>) \<and> filled (hist s) \<le> filled (hist (t\<lparr>console := cs @ console t,
      vars := (vars t)\<lparr>link_logged := l\<rparr>\<rparr>)) \<and> started (edma (t\<lparr>console := cs @ console t,
      vars := (vars t)\<lparr>link_logged := l\<rparr>\<rparr>)) = started (edma s)) (started_state P s)"
    by (simp, intro io_within_wp [of "no_slot b"]) (auto intro!: rx_at_other [OF assms(1) mono, THEN conjunct1]
        filled_mono [OF mono])
qed

section \<open>The queue\<close>

primrec is_recv :: "net_call \<Rightarrow> bool" where
  "is_recv Ready = False"
| "is_recv (Recv m) = True"
| "is_recv (Send p n) = False"

text \<open>
  The state between two calls: the driver's invariant holds, the device runs and
  c frames have been taken.
\<close>

definition streaming :: "u32 list \<Rightarrow> (event list \<Rightarrow> nat) \<Rightarrow> nat \<Rightarrow> drv \<Rightarrow> bool" where
  "streaming bufs filled c s \<longleftrightarrow> dev_ok s \<and> started (edma s) \<noteq> 0 \<and> rx_at IPQ4019_EDMA_BASE bufs filled c s"

text \<open>Every receive offers room for any of the frames.\<close>

definition roomy :: "(nat \<Rightarrow> u8 list) \<Rightarrow> net_call \<Rightarrow> bool" where
  "roomy F call \<longleftrightarrow> admissible 2032 call \<and> (\<forall>m k. call = Recv m \<longrightarrow> int (length (F k)) \<le> m)"

lemma call_stream_step:
  assumes S: "rx_stream P IPQ4019_EDMA_BASE bufs D F filled" and at: "streaming bufs filled c s"
    and room: "roomy F call"
  shows "wp (run_call (ipq4019_phy_check_link P) (ipq4019_eth_recv P) (ipq4019_eth_send P) call)
    (\<lambda>(rc, d) t. filled (hist s) \<le> filled (hist t) \<and>
      (if is_recv call \<and> filled (hist s) \<noteq> c then d = F c \<and> streaming bufs filled (Suc c) t
       else d = [] \<and> streaming bufs filled c t)) s"
proof -
  have mono: "filled h \<le> filled (e # h)" for h e using S by (simp add: rx_stream_def)
  have s: "dev_ok s" "started (edma s) \<noteq> 0" "rx_at IPQ4019_EDMA_BASE bufs filled c s"
    using at by (simp_all add: streaming_def)
  show ?thesis
  proof (cases call)
    case Ready
    show ?thesis
      unfolding Ready run_call.simps wp_bind
      by (rule wp_mono [OF wp_conjI [OF dev_ok_check_link [OF s(1)] check_link_stream_step [OF s(3) mono s(2) refl]]])
        (use s(2) in \<open>auto simp: streaming_def\<close>)
  next
    case (Recv m)
    then have m: "0 \<le> m" "m \<le> 2032" "\<And>k. int (length (F k)) \<le> m"
      using room by (simp_all add: roomy_def)
    show ?thesis
      unfolding Recv run_call.simps wp_bind
      by (rule wp_mono [OF wp_conjI [OF dev_ok_recv [OF s(1) m(1,2)] recv_stream_step [OF S s(3) m(3)]]])
        (use s(2) in \<open>auto simp: streaming_def split: if_splits\<close>)
  next
    case (Send p n)
    have "length (tpd_mem s) = 8" "unat (tpd_head (edma s)) < 8" using s(1) by (simp_all add: dev_ok_def)
    then show ?thesis
      unfolding Send run_call.simps wp_bind
      by (intro wp_mono [OF wp_conjI [OF dev_ok_send [OF s(1)] send_stream_step [OF s(3) mono]]])
        (use s(2) in \<open>auto simp: streaming_def\<close>)
  qed
qed

text \<open>The frames that a sequence of calls delivers.\<close>

definition delivered :: "(int \<times> u8 list) list \<Rightarrow> u8 list list" where
  "delivered rs = filter (\<lambda>d. d \<noteq> []) (map snd rs)"

lemma wp_stream_calls:
  assumes S: "rx_stream P IPQ4019_EDMA_BASE bufs D F filled"
    and "streaming bufs filled c s" and "list_all (roomy F) cs"
  shows "wp (run_calls (ipq4019_phy_check_link P) (ipq4019_eth_recv P) (ipq4019_eth_send P) cs)
    (\<lambda>rs t. let fs = delivered rs in fs = map F [c..<c + length fs] \<and> streaming bufs filled (c + length fs) t \<and>
      filled (hist s) \<le> filled (hist t) \<and> min (length (filter is_recv cs)) (filled (hist s) - c) \<le> length fs) s"
  using assms(2,3)
proof (induction cs arbitrary: c s)
  case Nil
  then show ?case by (simp add: delivered_def)
next
  case (Cons call cs)
  have F: "F k \<noteq> []" for k using S by (simp add: rx_stream_def)
  let ?calls = "run_calls (ipq4019_phy_check_link P) (ipq4019_eth_recv P) (ipq4019_eth_send P) cs"
  let ?post = "\<lambda>cs c s rs t. let fs = delivered rs in fs = map F [c..<c + length fs] \<and> streaming bufs filled (c + length fs) t \<and>
      filled (hist s) \<le> filled (hist t) \<and> min (length (filter is_recv cs)) (filled (hist s) - c) \<le> length fs"
  have rest: "wp ?calls (\<lambda>rs t'. ?post (call # cs) c s ((rc, d) # rs) t') t"
    if step: "filled (hist s) \<le> filled (hist t)"
      "if is_recv call \<and> filled (hist s) \<noteq> c then d = F c \<and> streaming bufs filled (Suc c) t
       else d = [] \<and> streaming bufs filled c t" for rc d t
  proof (cases "is_recv call \<and> filled (hist s) \<noteq> c")
    case True
    then have "streaming bufs filled (Suc c) t" using step by simp
    moreover have "list_all (roomy F) cs" using Cons.prems(2) by simp
    ultimately have "wp ?calls (?post cs (Suc c) t) t" by (rule Cons.IH)
    then show ?thesis
      by (rule wp_mono) (use step True F in \<open>auto simp: Let_def delivered_def upt_conv_Cons simp del: upt_Suc\<close>)
  next
    case False
    then have "streaming bufs filled c t" using step by simp
    moreover have "list_all (roomy F) cs" using Cons.prems(2) by simp
    ultimately have "wp ?calls (?post cs c t) t" by (rule Cons.IH)
    then show ?thesis
      by (rule wp_mono) (use step False in \<open>auto simp: Let_def delivered_def\<close>)
  qed
  have "roomy F call" using Cons.prems(2) by simp
  from call_stream_step [OF S Cons.prems(1) this] show ?case
    unfolding run_calls.simps wp_bind wp_ret
    by (rule wp_mono) (use rest in auto)
qed

text \<open>
  C5: with hardware that stores arriving frames, of 1 to 2032 bytes, in order in
  the slots it was given and marks each of them valid, and a stack whose receives
  all offer room for the longest frame and at most 2032 bytes, a running device
  delivers to the stack, whatever calls it makes in whatever order (receives,
  sends, link checks), consecutive frames, each once, whole and in the order of
  their arrival; as many as were waiting at the start, if the stack receives at
  least that often, and never one that has not arrived. (With less room the driver
  cuts a frame off; a slot not marked valid stops reception, C18.)
\<close>

theorem recv_fifo:
  assumes "rx_stream P IPQ4019_EDMA_BASE bufs D F filled" and "streaming bufs filled c w"
    and "list_all (roomy F) cs"
  shows "let (rs, w') = run_state (run_calls (ipq4019_phy_check_link P) (ipq4019_eth_recv P) (ipq4019_eth_send P) cs) w;
      fs = delivered rs
    in fs = map F [c..<c + length fs] \<and> streaming bufs filled (c + length fs) w' \<and>
      min (length (filter is_recv cs)) (filled (hist w) - c) \<le> length fs"
  using wp_stream_calls [OF assms] by (simp add: wp_def Let_def run_state_conv)

text \<open>Three frames of 64, 65 and 66 bytes in a memory with one buffer per slot.\<close>

definition three_frames :: "nat \<Rightarrow> u8 list" where
  "three_frames k = replicate (64 + k mod 3) (of_nat k)"

definition three_desc :: "nat \<Rightarrow> edma_rrd" where
  "three_desc k = \<lparr>rrd0 = 0, rrd1 = 0, rrd2 = 0, rrd3 = 0, rrd4 = 0, rrd5 = 0,
     rrd6 = of_nat (length (three_frames k)), rrd7 = 0x8000\<rparr>"

definition three_platform :: platform where
  "three_platform = silent\<lparr>bus_read := \<lambda>_ _. 0x30000,
     mem_load := \<lambda>_ a. let k = unat (drop_bit 11 (a - 0x40000000)); i = unat ((a - 0x40000000) AND 0x7ff)
       in (rrd_bytes (three_desc k) @ three_frames k) ! i\<rparr>"

definition slot_buffers :: "u32 list" where
  "slot_buffers = map (\<lambda>k. 0x40000000 + of_nat k * 2048) [0..<512]"

lemma three_stream: "rx_stream three_platform b slot_buffers three_desc three_frames (\<lambda>_. 3)"
proof -
  have len: "length (three_frames k) \<le> 66" for k
    using mod_less_divisor [of 3 k] by (simp add: three_frames_def)
  have split: "unat (drop_bit 11 (of_nat k * 2048 + of_nat i :: u32)) = k"
    "unat ((of_nat k * 2048 + of_nat i :: u32) AND 0x7ff) = i" if "k < 3" "i < 2048" for k i
  proof -
    have u: "unat (of_nat k * 2048 + of_nat i :: u32) = k * 2048 + i"
      using that by (simp add: unat_word_ariths unat_of_nat take_bit_nat_eq_self_iff)
    have "take_bit 32 (k * 2048 + i) = k * 2048 + i" using that by (intro take_bit_nat_eq_self) simp
    then show "unat (drop_bit 11 (of_nat k * 2048 + of_nat i :: u32)) = k"
      using that by (simp add: unsigned_drop_bit_eq u drop_bit_nat_def)
    have m: "(0x7ff :: u32) = mask 11" by (simp add: mask_eq_exp_minus_1)
    show "unat ((of_nat k * 2048 + of_nat i :: u32) AND 0x7ff) = i"
      using that unfolding m take_bit_eq_mask [symmetric] unsigned_take_bit_eq u by (simp add: take_bit_eq_mod)
  qed
  have mem: "mem_load three_platform (Inval (slot_buffers ! (k mod 512)) 2048 # h)
      (slot_buffers ! (k mod 512) + of_nat i) = (rrd_bytes (three_desc k) @ three_frames k) ! i"
    if "k < 3" "i < 16 + length (three_frames k)" for h k i
    using that split [of k i] len [of k] by (simp add: three_platform_def slot_buffers_def Let_def)
  show ?thesis
    unfolding rx_stream_def using mem len
    by (auto simp: three_desc_def three_frames_def three_platform_def intro: order_trans)
qed

definition streaming_drv :: drv where
  "streaming_drv = ready_rings\<lparr>net_rx_packets := slot_buffers,
     edma := zero_dev\<lparr>base := IPQ4019_EDMA_BASE, rfd_head := 511, started := 1\<rparr>\<rparr>"

theorem recv_fifo_witness:
  "delivered (result (run_calls (ipq4019_phy_check_link three_platform) (ipq4019_eth_recv three_platform)
      (ipq4019_eth_send three_platform) [Ready, Recv 1500, Send 0x42000000 60, Recv 1500, Recv 1500, Recv 1500]) streaming_drv)
    = map three_frames [0, 1, 2]"
proof -
  let ?cs = "[Ready, Recv 1500, Send 0x42000000 60, Recv 1500, Recv 1500, Recv 1500]"
  let ?m = "run_calls (ipq4019_phy_check_link three_platform) (ipq4019_eth_recv three_platform)
      (ipq4019_eth_send three_platform) ?cs"
  have at: "streaming slot_buffers (\<lambda>_. 3) 0 streaming_drv"
    by (simp add: streaming_def streaming_drv_def rx_at_def slots_freed_def slot_buffers_def dev_ok_def rx_ring_inv_def)
  have "int (length (three_frames k)) \<le> 1500" for k
    using mod_less_divisor [of 3 k] by (simp add: three_frames_def)
  then have room: "list_all (roomy three_frames) ?cs" by (simp add: roomy_def)
  let ?fs = "delivered (result ?m streaming_drv)"
  have "?fs = map three_frames [0..<length ?fs]" "3 \<le> length ?fs" "streaming slot_buffers (\<lambda>_. 3) (length ?fs)
      (exec ?m streaming_drv)"
    using recv_fifo [OF three_stream at room] by (simp_all add: Let_def run_state_conv del: run_calls.simps)
  moreover from this(3) have "length ?fs \<le> 3" by (simp add: streaming_def rx_at_def)
  ultimately have "?fs = map three_frames [0..<3]" by (metis le_antisym)
  then show ?thesis by (simp add: upt_conv_Cons numeral_eq_Suc del: run_calls.simps)
qed

end
