(* ===== verification/Ipq4019_Bringup.thy ===== *)
theory Ipq4019_Bringup
  imports Ipq4019_Net
begin

text \<open>
  One-time bring-up of ipq4019.c: pin multiplexing, clock and resets of the ESS
  block, the initialisation of switch and EDMA, and the poller that runs it with
  a bounded number of retries.
\<close>

section \<open>The code\<close>

definition IPQ4019_GCC_BASE :: u32 where [simp]: "IPQ4019_GCC_BASE = 0x01800000"
definition GCC_ESS_CBCR_OFFSET :: u32 where [simp]: "GCC_ESS_CBCR_OFFSET = 0x12010"
definition GCC_ESS_BCR_OFFSET :: u32 where [simp]: "GCC_ESS_BCR_OFFSET = 0x12008"
definition GCC_ESS_CBCR_CLK_ENA :: u32 where [simp]: "GCC_ESS_CBCR_CLK_ENA = push_bit 0 1"
definition GCC_ESS_BCR_BLK_ARES :: u32 where [simp]: "GCC_ESS_BCR_BLK_ARES = push_bit 0 1"
definition IPQ4019_TLMM_BASE :: u32 where [simp]: "IPQ4019_TLMM_BASE = 0x01000000"
definition TLMM_GPIO_CFG :: "nat \<Rightarrow> u32" where [simp]:
  "TLMM_GPIO_CFG n = IPQ4019_TLMM_BASE + 0x1000 * of_nat n"
definition TLMM_GPIO_IN_OUT :: "nat \<Rightarrow> u32" where [simp]:
  "TLMM_GPIO_IN_OUT n = IPQ4019_TLMM_BASE + 0x1000 * of_nat n + 4"
definition GCC_ESS_PORT_ARES_OFFSET :: u32 where [simp]: "GCC_ESS_PORT_ARES_OFFSET = 0x1200C"
definition IPQ4019_ETH_INIT_MAX_RETRIES :: int where [simp]: "IPQ4019_ETH_INIT_MAX_RETRIES = 3"

definition tlmm_cfg :: "u32 \<Rightarrow> u32 \<Rightarrow> u32 \<Rightarrow> u32 \<Rightarrow> u32" where
  "tlmm_cfg pull func drv oe = (pull AND 0x3) OR push_bit 2 (func AND 0xf) OR push_bit 6 (drv AND 0x7) OR
     push_bit 9 (oe AND 0x1)"

definition ipq4019_mdio_pinmux_init :: "platform \<Rightarrow> (drv, unit) state" where
  "ipq4019_mdio_pinmux_init P = do {
     cfg6_pre \<leftarrow> readl P (TLMM_GPIO_CFG 6);
     cfg7_pre \<leftarrow> readl P (TLMM_GPIO_CFG 7);
     cfg40_pre \<leftarrow> readl P (TLMM_GPIO_CFG 40);
     printf ''ipq4019: TLMM pre-pinmux  gpio6=0x%08x gpio7=0x%08x gpio40=0x%08x''
       [Num cfg6_pre, Num cfg7_pre, Num cfg40_pre];
     writel (tlmm_cfg 0 1 3 0) (TLMM_GPIO_CFG 6);
     writel (tlmm_cfg 0 1 3 0) (TLMM_GPIO_CFG 7);
     writel (tlmm_cfg 0 0 3 1) (TLMM_GPIO_CFG 40);
     writel (push_bit 1 1) (TLMM_GPIO_IN_OUT 40);
     a \<leftarrow> readl P (TLMM_GPIO_CFG 6);
     b \<leftarrow> readl P (TLMM_GPIO_CFG 7);
     c \<leftarrow> readl P (TLMM_GPIO_CFG 40);
     d \<leftarrow> readl P (TLMM_GPIO_IN_OUT 40);
     printf ''ipq4019: TLMM post-pinmux gpio6=0x%08x gpio7=0x%08x gpio40=0x%08x out40=0x%08x''
       [Num a, Num b, Num c, Num d] }"

definition ipq4019_ess_clock_and_reset_init :: "platform \<Rightarrow> (drv, unit) state" where
  "ipq4019_ess_clock_and_reset_init P = do {
     let cbcr = IPQ4019_GCC_BASE + GCC_ESS_CBCR_OFFSET;
     let bcr = IPQ4019_GCC_BASE + GCC_ESS_BCR_OFFSET;
     let pares = IPQ4019_GCC_BASE + GCC_ESS_PORT_ARES_OFFSET;
     v \<leftarrow> readl P cbcr;
     printf ''ipq4019: GCC_ESS_CBCR pre-enable    = 0x%08x'' [Num v];
     v \<leftarrow> readl P bcr;
     printf ''ipq4019: GCC_ESS_BCR  pre-toggle    = 0x%08x'' [Num v];
     v \<leftarrow> readl P pares;
     printf ''ipq4019: GCC_ESS_PORT_ARES initial   = 0x%08x'' [Num v];
     v \<leftarrow> readl P cbcr;
     writel (v OR GCC_ESS_CBCR_CLK_ENA) cbcr;
     mdelay 10;
     v \<leftarrow> readl P cbcr;
     printf ''ipq4019: GCC_ESS_CBCR post-enable   = 0x%08x'' [Num v];
     writel GCC_ESS_BCR_BLK_ARES bcr;
     mdelay 10;
     writel 0 bcr;
     mdelay 10;
     v \<leftarrow> readl P bcr;
     printf ''ipq4019: GCC_ESS_BCR  post-toggle   = 0x%08x'' [Num v];
     v \<leftarrow> readl P pares;
     when_do (v AND 0x3F \<noteq> 0) (do {
       printf ''ipq4019: clearing per-port resets, was 0x%08x'' [Num v];
       writel (v AND NOT 0x3F) pares;
       mdelay 10 });
     v \<leftarrow> readl P pares;
     printf ''ipq4019: GCC_ESS_PORT_ARES final    = 0x%08x'' [Num v] }"

definition net_add_device :: "(drv, unit) state" where
  "net_add_device = emit NetAddDevice"

text \<open>
  \<open>ipq4019_eth_init\<close> in three parts: the blocks the EDMA depends on, the
  engine once its rings are allocated, and the function itself.
\<close>

definition init_blocks :: "platform \<Rightarrow> u8 list \<Rightarrow> (drv, unit) state" where
  "init_blocks P mac = do {
     printf ''ipq4019: MAC %02x:%02x:%02x:%02x:%02x:%02x'' (map (\<lambda>b. Num (ucast b)) mac);
     ipq4019_mdio_pinmux_init P;
     printf ''ipq4019: MDIO pinmux initialized'' [];
     ipq4019_ess_clock_and_reset_init P;
     printf ''ipq4019: ESS clock+reset initialized'' [];
     ipq4019_mdio_init P;
     printf ''ipq4019: PSGMII cal SKIPPED (static config test)'' [];
     ess_switch_init P }"

definition init_engine :: "platform \<Rightarrow> (drv, unit) state" where
  "init_engine P = do {
     edma_stop_rx_tx P;
     edma_configure;
     edma_init_desc P;
     ess_switch_disable_lookup P;
     _ \<leftarrow> ipq4019_eth_write_hwaddr;
     net_add_device }"

definition ipq4019_eth_init :: "platform \<Rightarrow> (drv, int) state" where
  "ipq4019_eth_init P = do {
     upd_edma (\<lambda>_. zero_dev);
     upd_edma (\<lambda>p. p\<lparr>base := IPQ4019_EDMA_BASE\<rparr>);
     upd_edma (\<lambda>p. p\<lparr>esw := IPQ4019_ESS_BASE\<rparr>);
     (_, mac) \<leftarrow> get_eth_mac_address P;
     upd_edma (\<lambda>p. p\<lparr>mac_addr := mac\<rparr>);
     init_blocks P mac;
     rc \<leftarrow> edma_alloc_rings P;
     if rc \<noteq> 0
     then do { printf ''ipq4019: ring alloc failed'' []; ret (- 1) }
     else do { init_engine P; ret 0 } }"

definition ipq4019_net_poller :: "platform \<Rightarrow> (drv, unit) state" where
  "ipq4019_net_poller P = do {
     st \<leftarrow> gets vars;
     if initted st \<noteq> 0 \<or> gave_up st \<noteq> 0 then ret ()
     else if IPQ4019_ETH_INIT_MAX_RETRIES \<le> retry_count st
     then do {
       printf ''ipq4019: eth_init failed %d times - giving up (driver halted)'' [Num (of_int (retry_count st))];
       upd_vars (\<lambda>st. st\<lparr>gave_up := 1\<rparr>) }
     else do {
       upd_vars (\<lambda>st. st\<lparr>retry_count := retry_count st + 1\<rparr>);
       st \<leftarrow> gets vars;
       printf ''ipq4019: eth_init attempt %d/%d''
         [Num (of_int (retry_count st)), Num (of_int IPQ4019_ETH_INIT_MAX_RETRIES)];
       rc \<leftarrow> ipq4019_eth_init P;
       when_do (rc = 0) (upd_vars (\<lambda>st. st\<lparr>initted := 1\<rparr>)) } }"

text \<open>\<open>list_insert_after(&net_poller.list_node, &net_pollers)\<close>.\<close>

definition ipq4019_eth_driver_register :: "(drv, int) state" where
  "ipq4019_eth_driver_register = do { emit NetPollerInsert; ret 0 }"

section \<open>Pins, clock and resets\<close>

text \<open>The fields of a pin configuration do not overlap.\<close>

lemma tlmm_cfg_fields:
  "let c = tlmm_cfg pull func drv oe in
     c AND 3 = pull AND 3 \<and> drop_bit 2 c AND 0xf = func AND 0xf \<and> drop_bit 6 c AND 7 = drv AND 7 \<and>
     drop_bit 9 c AND 1 = oe AND 1 \<and> drop_bit 10 c = 0"
proof -
  have m: "(3 :: u32) = mask 2" "(7 :: u32) = mask 3" "(1 :: u32) = mask 1"
    by (simp_all add: mask_eq_exp_minus_1)
  show ?thesis
    unfolding Let_def tlmm_cfg_def m mask_numerals
    by (intro conjI; rule bit_word_eqI; auto simp: bit_simps)
qed

lemma wp_mdio_pinmux_init:
  assumes "\<And>es cs. writes es = [(0x01006000, 0xc4), (0x01007000, 0xc4), (0x01028000, 0x2c0), (0x01028004, 2)] \<Longrightarrow>
      delay_us es = 0 \<Longrightarrow> Q () (s\<lparr>hist := es @ hist s, console := cs @ console s\<rparr>)"
  shows "wp (ipq4019_mdio_pinmux_init P) Q s"
  unfolding ipq4019_mdio_pinmux_init_def
  by (rule grown_start, intro grown_rules, unfold grown_def, rule assms)
    (simp_all add: tlmm_cfg_def)

lemma wp_ess_clock_and_reset_init:
  assumes "\<And>es cs v r. writes es = [(0x01812010, v OR 1), (0x01812008, 1), (0x01812008, 0)] @
        (if r AND 0x3f = 0 then [] else [(0x0181200c, r AND NOT 0x3f)]) \<Longrightarrow>
      delay_us es = (if r AND 0x3f = 0 then 30000 else 40000) \<Longrightarrow>
    Q () (s\<lparr>hist := es @ hist s, console := cs @ console s\<rparr>)"
  shows "wp (ipq4019_ess_clock_and_reset_init P) Q s"
  unfolding ipq4019_ess_clock_and_reset_init_def Let_def
  by (rule grown_start, intro grown_rules; unfold grown_def; rule assms) simp_all

text \<open>
  Before any MDIO access the driver routes MDIO and MDC to gpio6 and gpio7
  (function 1, 8 mA), drives gpio40 high, gates the ESS clock on, pulses the
  block reset and clears the per-port resets if one is set, and in these steps
  writes nothing else; the resets are given 30 ms, 40 ms if a port reset was set.
\<close>

theorem pinmux_clock_writes:
  "\<exists>es cs v r. exec (do { ipq4019_mdio_pinmux_init P; ipq4019_ess_clock_and_reset_init P }) w =
      w\<lparr>hist := es @ hist w, console := cs @ console w\<rparr> \<and>
    writes es = [(0x01006000, 0xc4), (0x01007000, 0xc4), (0x01028000, 0x2c0), (0x01028004, 2),
      (0x01812010, v OR 1), (0x01812008, 1), (0x01812008, 0)] @
      (if r AND 0x3f = 0 then [] else [(0x0181200c, r AND NOT 0x3f)]) \<and>
    delay_us es = (if r AND 0x3f = 0 then 30000 else 40000) \<and>
    mdio_frames (es @ hist w) = mdio_frames (hist w)"
proof (rule wp_execI, unfold wp_bind, rule wp_mdio_pinmux_init, rule wp_ess_clock_and_reset_init)
  fix es es' :: "event list" and cs cs' :: "(string \<times> parg list) list" and v r :: u32
  let ?e = "es' @ es"
  assume "writes es = [(0x01006000, 0xc4), (0x01007000, 0xc4), (0x01028000, 0x2c0), (0x01028004, 2)]"
    "delay_us es = 0"
    "writes es' = [(0x01812010, v OR 1), (0x01812008, 1), (0x01812008, 0)] @
        (if r AND 0x3f = 0 then [] else [(0x0181200c, r AND NOT 0x3f)])"
    "delay_us es' = (if r AND 0x3f = 0 then 30000 else 40000)"
  then have w: "writes ?e = [(0x01006000, 0xc4), (0x01007000, 0xc4), (0x01028000, 0x2c0), (0x01028004, 2),
      (0x01812010, v OR 1), (0x01812008, 1), (0x01812008, 0)] @
      (if r AND 0x3f = 0 then [] else [(0x0181200c, r AND NOT 0x3f)])"
    and d: "delay_us ?e = (if r AND 0x3f = 0 then 30000 else 40000)" by simp_all
  have "mdio_base + MDIO_CMD_REG \<notin> fst ` set (writes ?e)" unfolding w by simp
  then have f: "mdio_frames (?e @ hist w) = mdio_frames (hist w)" by (rule mdio_frames_other)
  let ?t = "w\<lparr>hist := es @ hist w, console := cs @ console w\<rparr>"
  show "\<exists>es cs v r. ?t\<lparr>hist := es' @ hist ?t, console := cs' @ console ?t\<rparr> =
      w\<lparr>hist := es @ hist w, console := cs @ console w\<rparr> \<and>
    writes es = [(0x01006000, 0xc4), (0x01007000, 0xc4), (0x01028000, 0x2c0), (0x01028004, 2),
      (0x01812010, v OR 1), (0x01812008, 1), (0x01812008, 0)] @
      (if r AND 0x3f = 0 then [] else [(0x0181200c, r AND NOT 0x3f)]) \<and>
    delay_us es = (if r AND 0x3f = 0 then 30000 else 40000) \<and>
    mdio_frames (es @ hist w) = mdio_frames (hist w)"
    by (rule exI [of _ ?e], rule exI [of _ "cs' @ cs"], rule exI [of _ v], rule exI [of _ r])
      (use w d f in simp)
qed

section \<open>Initialisation\<close>

lemma io_only_early:
  "io_only (ipq4019_mdio_pinmux_init P)" "io_only (ipq4019_ess_clock_and_reset_init P)"
  "io_only (ess_switch_init P)" "io_only (get_eth_mac_address P)"
  unfolding ipq4019_mdio_pinmux_init_def ipq4019_ess_clock_and_reset_init_def ess_switch_init_def
    get_eth_mac_address_def Let_def
  by (intro io_only_rules; simp)+

text \<open>The state after the steps that touch only registers and console.\<close>

definition fresh_dev :: "u8 list \<Rightarrow> IpqEdmaDev" where
  "fresh_dev mac = zero_dev\<lparr>base := IPQ4019_EDMA_BASE, esw := IPQ4019_ESS_BASE, mac_addr := mac\<rparr>"

definition chosen_mac :: "platform \<Rightarrow> u8 list" where
  "chosen_mac P = (if \<exists>b \<in> set (map (sysinfo_mac P) [0..<6]). b \<noteq> 0 then map (sysinfo_mac P) [0..<6]
     else [0x02, 0x00, 0xc0, 0xff, 0xee, 0x01])"

lemma length_chosen_mac [simp]: "length (chosen_mac P) = 6"
  by (simp add: chosen_mac_def)

lemma wp_get_eth_mac_address:
  assumes "\<And>cs. Q (1, chosen_mac P) (s\<lparr>console := cs @ console s\<rparr>)"
  shows "wp (get_eth_mac_address P) Q s"
proof (cases "\<exists>b \<in> set (map (sysinfo_mac P) [0..<6]). b \<noteq> 0")
  case True
  then show ?thesis using assms [of "[]"]
    by (simp add: get_eth_mac_address_def chosen_mac_def Let_def del: set_map upt_rec_numeral)
next
  case False
  then show ?thesis using assms [of "[_]"]
    by (simp add: get_eth_mac_address_def chosen_mac_def Let_def del: set_map upt_rec_numeral)
qed

lemma io_only_init_blocks: "io_only (init_blocks P mac)"
  unfolding init_blocks_def by (intro io_only_rules io_only_early io_only_mdio)

lemma wp_init_engine:
  assumes "base (edma s) = 0x0c080000" and "esw (edma s) = 0x0c000000"
    and "\<And>es ls v h c. c = drop_bit 16 (bus_read P h 0x0c080460) AND 0xffff \<Longrightarrow>
      lookup_accesses disabled_vid 0x3e3e3e 0x0c000000 v ls \<Longrightarrow>
      Q () (s\<lparr>hist := [NetAddDevice, Wr 0x0c080c24 (mac_hi (mac_addr (edma s))),
          Wr 0x0c080c20 (mac_lo (mac_addr (edma s)))] @ ls @ es @ hist s,
        edma := (edma s)\<lparr>tpd_head := ucast c, tpd_tail := ucast c\<rparr>\<rparr>)"
  shows "wp (init_engine P) Q s"
  unfolding init_engine_def wp_bind
proof (rule wp_edma_stop, rule wp_edma_configure, rule wp_edma_init_desc, rule wp_disable_lookup,
    rule wp_write_hwaddr, goal_cases)
  case (1 r t es d ra c v ls)
  have l: "lookup_accesses disabled_vid 0x3e3e3e 0x0c000000 v ls" using 1(5) assms(2) by simp
  obtain h where c: "c = drop_bit 16 (bus_read P h 0x0c080460) AND 0xffff"
    using 1(3,4) assms(1) by simp
  show ?case
    using assms(3) [OF c l, of "_ # _ # _ # _ # _ # _ # _ # _ # _ # _ # es @ [_, _, _, _]"]
    by (simp add: assms(1,2) net_add_device_def)
qed

lemma wp_ipq4019_eth_init:
  assumes "length (net_rx_packets s) = 512"
    and ok: "\<And>es cs ls v h c ps t r. length ps = 512 \<Longrightarrow>
      c = drop_bit 16 (bus_read P h 0x0c080460) AND 0xffff \<Longrightarrow>
      lookup_accesses disabled_vid 0x3e3e3e 0x0c000000 v ls \<Longrightarrow>
      Q 0 (s\<lparr>hist := [NetAddDevice, Wr 0x0c080c24 (mac_hi (chosen_mac P)), Wr 0x0c080c20 (mac_lo (chosen_mac P))] @
          ls @ es @ hist s, console := cs @ console s,
        net_rx_packets := ps, tpd_mem := replicate 8 zero_tpd, rfd_mem := replicate 512 zero_rfd,
        edma := (fresh_dev (chosen_mac P))\<lparr>tpd_ring := t, rfd_ring := r, rfd_head := 0, rfd_tail := 0,
          tpd_head := ucast c, tpd_tail := ucast c\<rparr>\<rparr>)"
    and fail: "\<And>es cs ps tm rm p. length ps = 512 \<Longrightarrow> 0 \<in> (snd \<circ> snd) ` set (allocs es) \<Longrightarrow>
      Q (- 1) (s\<lparr>hist := es @ hist s, console := cs @ console s, net_rx_packets := ps, tpd_mem := tm, rfd_mem := rm,
        edma := p\<rparr>)"
  shows "wp (ipq4019_eth_init P) Q s"
  unfolding ipq4019_eth_init_def wp_bind wp_modify
proof (rule wp_get_eth_mac_address, unfold prod.case wp_bind wp_modify, rule io_only_wp_frame [OF io_only_init_blocks],
    rule wp_edma_alloc_rings, goal_cases)
  case (1 cs r es cs')
  then show ?case using assms(1) by simp
next
  case (2 cs ru es cs' es2 ps t r)
  let ?t = "s\<lparr>hist := es2 @ es @ hist s, console := cs' @ cs @ console s, net_rx_packets := ps,
    tpd_mem := replicate 8 zero_tpd, rfd_mem := replicate 512 zero_rfd,
    edma := (fresh_dev (chosen_mac P))\<lparr>tpd_ring := t, rfd_ring := r, tpd_head := 0, tpd_tail := 0,
      rfd_head := 0, rfd_tail := 0\<rparr>\<rparr>"
  have "wp (init_engine P) (\<lambda>_. Q 0) ?t"
  proof (rule wp_init_engine)
    fix es3 ls v h c
    assume "c = drop_bit 16 (bus_read P h 0x0c080460) AND 0xffff"
      "lookup_accesses disabled_vid 0x3e3e3e 0x0c000000 v ls"
    from ok [OF 2(1) this, where es = "es3 @ es2 @ es" and cs = "cs' @ cs" and t = t and r = r]
    show "Q 0 (?t\<lparr>hist := [NetAddDevice, Wr 0x0c080c24 (mac_hi (mac_addr (edma ?t))),
          Wr 0x0c080c20 (mac_lo (mac_addr (edma ?t)))] @ ls @ es3 @ hist ?t,
        edma := (edma ?t)\<lparr>tpd_head := ucast c, tpd_tail := ucast c\<rparr>\<rparr>)"
      by (simp add: fresh_dev_def)
  qed (simp_all add: fresh_dev_def)
  then show ?case by (simp add: fresh_dev_def)
next
  case (3 cs ru es cs' es2 t r tm rm ps)
  from 3(1) have "0 \<in> (snd \<circ> snd) ` set (allocs (es2 @ es))" by auto
  from fail [OF 3(2) this, where cs = "_ # cs' @ cs" and tm = tm and rm = rm
      and p = "fresh_dev (chosen_mac P)\<lparr>tpd_ring := t, rfd_ring := r\<rparr>"] show ?case
    by (simp add: fresh_dev_def)
qed


text \<open>
  What the network stack and the poller can see of the driver: how often a
  device was registered and the poller's three variables.
\<close>

fun registrations :: "event list \<Rightarrow> nat" where
  "registrations [] = 0"
| "registrations (NetAddDevice # es) = Suc (registrations es)"
| "registrations (_ # es) = registrations es"

definition net_status :: "drv \<Rightarrow> nat \<times> int \<times> int \<times> int" where
  "net_status s = (registrations (hist s), initted (vars s), retry_count (vars s), gave_up (vars s))"

lemma keeps_alloc_rx_buffers: "keeps net_status (alloc_rx_buffers P is)"
  by (induction "is") (auto intro!: keeps_rules simp: net_status_def)

text \<open>Everything the driver does apart from registering leaves these alone.\<close>

lemma keeps_net_status_engine:
  "keeps net_status (edma_alloc_rings P)" "keeps net_status (edma_stop_rx_tx P)"
  "keeps net_status (edma_start_rx_tx P)" "keeps net_status edma_configure"
  "keeps net_status (edma_init_desc P)" "keeps net_status (edma_init_rfd_ring P)"
  unfolding edma_alloc_rings_def edma_stop_rx_tx_def edma_start_rx_tx_def edma_configure_def edma_init_desc_def
    edma_init_rfd_ring_def Let_def flush_range_def load_rx_packet_def store_rfd_def
  by (intro keeps_rules keeps_alloc_rx_buffers; simp add: net_status_def)+

lemma keeps_net_status_blocks:
  "keeps net_status (ess_switch_disable_lookup P)" "keeps net_status (ess_switch_enable_lookup P)"
  "keeps net_status (ess_switch_init P)" "keeps net_status (mdio_wait_busy P)"
  "keeps net_status (ipq4019_mdio_pinmux_init P)" "keeps net_status (ipq4019_ess_clock_and_reset_init P)"
  "keeps net_status (ipq4019_mdio_init P)" "keeps net_status (get_eth_mac_address P)"
  "keeps net_status ipq4019_eth_write_hwaddr"
  unfolding ess_switch_disable_lookup_def ess_switch_enable_lookup_def ess_switch_init_def mdio_wait_busy_def
    ipq4019_mdio_pinmux_init_def ipq4019_ess_clock_and_reset_init_def ipq4019_mdio_init_def
    get_eth_mac_address_def ipq4019_eth_write_hwaddr_def Let_def
  by (intro keeps_rules; simp add: net_status_def)+

lemma keeps_net_status_calls:
  "keeps net_status (ipq4019_eth_start P)" "keeps net_status (ipq4019_eth_send P packet len)"
  "keeps net_status (ipq4019_eth_recv P m)" "keeps net_status (ipq4019_mdio_read P phy reg val)"
  unfolding ipq4019_eth_start_def ipq4019_eth_send_def ipq4019_eth_recv_def send_tpd_def tx_wait_def tx_dump_regs_def
    tx_dump_tpd_def tx_dump_counters_def copy_frame_def rx_account_def rx_recycle_def Let_def flush_range_def
    invalidate_range_def load_rx_packet_def store_tpd_def ipq4019_mdio_read_def
  by (intro keeps_rules keeps_net_status_engine keeps_net_status_blocks; simp add: net_status_def)+

lemma keeps_net_status_check_link: "keeps net_status (ipq4019_phy_check_link P)"
proof -
  have "keeps net_status (read_link_states P is)" for "is"
    by (induction "is") (auto intro!: keeps_rules keeps_net_status_calls)
  then show ?thesis
    unfolding ipq4019_phy_check_link_def log_links_def Let_def
    by (intro keeps_rules keeps_net_status_calls; simp add: net_status_def)
qed

lemma wp_keeps: "keeps f m \<Longrightarrow> (\<And>r t. f t = f s \<Longrightarrow> Q r t) \<Longrightarrow> wp m Q s"
  by (simp add: keeps_def wp_def)

lemma keeps_net_status_init_blocks: "keeps net_status (init_blocks P mac)"
  unfolding init_blocks_def
  by (intro keeps_rules keeps_net_status_blocks; simp add: net_status_def)

lemma net_status_updates [simp]:
  "net_status (s\<lparr>edma := p\<rparr>) = net_status s" "net_status (s\<lparr>console := c\<rparr>) = net_status s"
  by (simp_all add: net_status_def)

lemma net_status_eth_init:
  "wp (ipq4019_eth_init P) (\<lambda>rc t. (rc = 0 \<or> rc = - 1) \<and>
     net_status t = (case net_status s of (r, x) \<Rightarrow> (if rc = 0 then Suc r else r, x))) s"
  unfolding ipq4019_eth_init_def init_engine_def net_add_device_def wp_bind wp_modify
  apply (rule wp_keeps [OF keeps_net_status_blocks(8)], simp add: case_prod_beta)
  apply (rule wp_keeps [OF keeps_net_status_init_blocks])
  apply (rule wp_keeps [OF keeps_net_status_engine(1)])
  apply (simp, intro conjI impI)
  apply (rule wp_keeps [OF keeps_net_status_engine(2)])
  apply (rule wp_keeps [OF keeps_net_status_engine(4)])
  apply (rule wp_keeps [OF keeps_net_status_engine(5)])
  apply (rule wp_keeps [OF keeps_net_status_blocks(1)])
  apply (rule wp_keeps [OF keeps_net_status_blocks(9)])
  apply (simp add: net_status_def)
  done

text \<open>
  The consumer index the transmit engine reports after its reset: 0 or 4, where
  a frame's four descriptors start.
\<close>

definition tx_reset_ok :: "platform \<Rightarrow> bool" where
  "tx_reset_ok P \<longleftrightarrow> (\<forall>h. drop_bit 16 (bus_read P h 0x0c080460) AND 0xffff \<in> {0, 4})"

lemma tx_reset_slot:
  assumes "tx_reset_ok P" and "c = drop_bit 16 (bus_read P h 0x0c080460) AND 0xffff"
  shows "unat (ucast c :: u16) < 8" and "unat (ucast c :: u16) mod 4 = 0"
proof -
  have "c = 0 \<or> c = 4" using assms by (auto simp: tx_reset_ok_def)
  then show "unat (ucast c :: u16) < 8" "unat (ucast c :: u16) mod 4 = 0" by auto
qed

lemma eth_init_inv:
  assumes "length (net_rx_packets s) = 512" and "\<not> ub s" and "tx_reset_ok P"
  shows "wp (ipq4019_eth_init P) (\<lambda>rc t. \<not> ub t \<and> length (net_rx_packets t) = 512 \<and> (rc = 0 \<longrightarrow> dev_ok t)) s"
proof (rule wp_ipq4019_eth_init [OF assms(1)], goal_cases)
  case (1 es cs ls v h c ps t r)
  then show ?case using assms(2) tx_reset_slot [OF assms(3) 1(2)] by (simp add: dev_ok_def fresh_dev_def)
qed (use assms(2) in simp_all)

text \<open>
  C6: on hardware whose transmit engine resets to consumer index 0 or 4, if
  \<open>ipq4019_eth_init\<close> succeeds, the driver's invariant holds, the device is not
  started, no traffic is forwarded between the CPU port and the others, the device
  and its address registers hold the MAC address that \<open>get_eth_mac_address\<close> chose
  (the one of sysinfo, or 02:00:c0:ff:ee:01 if that is all zeros), and the device has
  just been handed to the network stack. It fails only after an allocation that
  returned NULL; then it returns -1 and hands over nothing.
\<close>

theorem eth_init_establishes:
  assumes "length (net_rx_packets w) = 512" and "\<not> ub w" and "tx_reset_ok P"
  shows "let w' = exec (ipq4019_eth_init P) w; rc = result (ipq4019_eth_init P) w;
      sys = map (sysinfo_mac P) [0..<6];
      mac = (if \<exists>x \<in> set sys. x \<noteq> 0 then sys else [0x02, 0x00, 0xc0, 0xff, 0xee, 0x01]) in
    if rc = 0
    then dev_ok w' \<and> started (edma w') = 0 \<and>
      forwarding (hist w') 0x0c000000 = {(i, j). i < 6 \<and> j < 6 \<and> disabled_pair i j} \<and>
      snd (result (get_eth_mac_address P) w) = mac \<and> mac_addr (edma w') = mac \<and>
      (\<exists>h lo hi. hist w' = NetAddDevice # h \<and> last_write h 0x0c080c20 = Some lo \<and> last_write h 0x0c080c24 = Some hi \<and>
         mac_of_regs lo hi = mac) \<and>
      registrations (hist w') = Suc (registrations (hist w))
    else rc = - 1 \<and> \<not> ub w' \<and> length (net_rx_packets w') = 512 \<and> registrations (hist w') = registrations (hist w) \<and>
      (\<exists>es. hist w' = es @ hist w \<and> 0 \<in> (snd \<circ> snd) ` set (allocs es))"
proof -
  have "wp (ipq4019_eth_init P) (\<lambda>rc w'. if rc = 0
    then dev_ok w' \<and> started (edma w') = 0 \<and>
      forwarding (hist w') 0x0c000000 = {(i, j). i < 6 \<and> j < 6 \<and> disabled_pair i j} \<and>
      mac_addr (edma w') = chosen_mac P \<and>
      (\<exists>h lo hi. hist w' = NetAddDevice # h \<and> last_write h 0x0c080c20 = Some lo \<and> last_write h 0x0c080c24 = Some hi \<and>
         mac_of_regs lo hi = chosen_mac P)
    else rc = - 1 \<and> \<not> ub w' \<and> length (net_rx_packets w') = 512 \<and>
      (\<exists>es. hist w' = es @ hist w \<and> 0 \<in> (snd \<circ> snd) ` set (allocs es))) w"
  proof (rule wp_ipq4019_eth_init [OF assms(1)], goal_cases)
    case (1 es cs ls v h c ps t r)
    note tx = tx_reset_slot [OF assms(3) 1(2)]
    have fw: "forwarding ([NetAddDevice, Wr 0x0c080c24 hi, Wr 0x0c080c20 lo] @ ls @ es @ hist w) 0x0c000000 =
        {(i, j). i < 6 \<and> j < 6 \<and> disabled_pair i j}" for hi lo
    proof -
      have "forwards (NetAddDevice # Wr 0x0c080c24 hi # Wr 0x0c080c20 lo # ls @ es @ hist w) 0x0c000000 i j =
          forwards (ls @ es @ hist w) 0x0c000000 i j" if "i < 6" for i j
        using that by (rule ports_cases) (simp_all add: forwards_def)
      then have "forwarding (NetAddDevice # Wr 0x0c080c24 hi # Wr 0x0c080c20 lo # ls @ es @ hist w) 0x0c000000 =
          forwarding (ls @ es @ hist w) 0x0c000000" by (auto simp: forwarding_def)
      then show ?thesis by (simp add: forwarding_members [OF 1(3)] bit_enabled_vid_set)
    qed
    show ?case
      using assms(2) 1(1) tx fw mac_of_regs_inverse [OF length_chosen_mac, of P]
      by (simp add: dev_ok_def fresh_dev_def)
  qed (use assms(2) in auto)
  moreover have "snd (result (get_eth_mac_address P) w) = chosen_mac P"
    using wp_get_eth_mac_address [where Q = "\<lambda>r _. snd r = chosen_mac P" and s = w] by (simp add: wp_def)
  ultimately show ?thesis
    using net_status_eth_init [of P w]
    unfolding chosen_mac_def [symmetric] wp_def Let_def net_status_def by (auto split: if_splits)
qed

lemma tx_reset_ok_silent: "tx_reset_ok silent"
  by (simp add: tx_reset_ok_def)

text \<open>With memory for everything it does not fail.\<close>

lemma alloc_buffers_succeeds:
  assumes "\<And>h al n. memalign_ptr P h al n \<noteq> 0"
  shows "wp (alloc_rx_buffers P is) (\<lambda>rc _. rc = 0) s"
  by (induction "is" arbitrary: s) (simp_all add: wp_xmemalign assms)

lemma eth_init_succeeds:
  assumes "\<And>h al n. memalign_ptr P h al n \<noteq> 0"
  shows "wp (ipq4019_eth_init P) (\<lambda>rc _. rc = 0) s"
proof -
  have rings: "wp (edma_alloc_rings P) (\<lambda>rc _. rc = 0) t" for t
    unfolding edma_alloc_rings_def Let_def wp_bind
    by (simp add: wp_xmemalign assms del: upt_rec_numeral) (rule wp_mono [OF alloc_buffers_succeeds [OF assms]], simp)
  show ?thesis
    unfolding ipq4019_eth_init_def wp_bind wp_modify case_prod_beta
    by (rule wp_any, rule wp_any, rule wp_mono [OF rings], simp, rule wp_any, simp)
qed

theorem eth_init_establishes_witness:
  "let w' = exec (ipq4019_eth_init silent) boot in
   result (ipq4019_eth_init silent) boot = 0 \<and> dev_ok w' \<and> registrations (hist w') = 1 \<and>
   (\<exists>h lo hi. hist w' = NetAddDevice # h \<and> last_write h 0x0c080c20 = Some lo \<and> last_write h 0x0c080c24 = Some hi \<and>
     mac_of_regs lo hi = [0x02, 0x00, 0xc0, 0xff, 0xee, 0x01])"
proof -
  have "length (net_rx_packets boot) = 512" "\<not> ub boot" "registrations (hist boot) = 0" by (simp_all add: boot_def)
  moreover have "result (ipq4019_eth_init silent) boot = 0"
    using eth_init_succeeds [of silent boot] by (simp add: wp_def)
  ultimately show ?thesis
    using eth_init_establishes [OF _ _ tx_reset_ok_silent, of boot] by (simp add: Let_def del: upt_rec_numeral)
qed

section \<open>The poller\<close>

text \<open>
  What the poller promises: it tries at most three times, keeps a device it got
  and gives up for good after the third failure.
\<close>

datatype poll_phase = Trying nat | Up | Halted

inductive poll_step :: "poll_phase \<Rightarrow> poll_phase \<Rightarrow> bool" where
  success: "n < 3 \<Longrightarrow> poll_step (Trying n) Up"
| failure: "n < 3 \<Longrightarrow> poll_step (Trying n) (Trying (Suc n))"
| give_up: "poll_step (Trying 3) Halted"
| stay_up: "poll_step Up Up"
| stay_halted: "poll_step Halted Halted"

code_pred poll_step .

inductive_simps poll_step_simps [simp]:
  "poll_step (Trying n) t" "poll_step Up t" "poll_step Halted t"

definition phase_of :: "nat \<times> int \<times> int \<times> int \<Rightarrow> poll_phase" where
  "phase_of x = (case x of (r, i, c, g) \<Rightarrow> if i \<noteq> 0 then Up else if g \<noteq> 0 then Halted else Trying (nat c))"

definition poller_inv :: "drv \<Rightarrow> bool" where
  "poller_inv s \<longleftrightarrow> (case net_status s of (r, i, c, g) \<Rightarrow>
     0 \<le> c \<and> c \<le> 3 \<and> (i = 0 \<or> i = 1) \<and> (i = 0 \<or> g = 0) \<and> int r = i)"

lemma net_status_vars [simp]:
  "net_status (s\<lparr>vars := (vars s)\<lparr>initted := i\<rparr>\<rparr>) = (case net_status s of (r, _, c, g) \<Rightarrow> (r, i, c, g))"
  "net_status (s\<lparr>vars := (vars s)\<lparr>retry_count := c\<rparr>\<rparr>) = (case net_status s of (r, i, _, g) \<Rightarrow> (r, i, c, g))"
  "net_status (s\<lparr>vars := (vars s)\<lparr>gave_up := g\<rparr>\<rparr>) = (case net_status s of (r, i, c, _) \<Rightarrow> (r, i, c, g))"
  by (simp_all add: net_status_def)

lemma wp_poller:
  assumes idle: "initted (vars s) \<noteq> 0 \<or> gave_up (vars s) \<noteq> 0 \<Longrightarrow> Q s"
    and halt: "\<And>c. initted (vars s) = 0 \<Longrightarrow> gave_up (vars s) = 0 \<Longrightarrow> 3 \<le> retry_count (vars s) \<Longrightarrow>
      Q (s\<lparr>console := c # console s, vars := (vars s)\<lparr>gave_up := 1\<rparr>\<rparr>)"
    and attempt: "\<And>c. initted (vars s) = 0 \<Longrightarrow> gave_up (vars s) = 0 \<Longrightarrow> retry_count (vars s) < 3 \<Longrightarrow>
      wp (ipq4019_eth_init P) (\<lambda>rc t. Q (if rc = 0 then t\<lparr>vars := (vars t)\<lparr>initted := 1\<rparr>\<rparr> else t))
        (s\<lparr>console := c # console s, vars := (vars s)\<lparr>retry_count := retry_count (vars s) + 1\<rparr>\<rparr>)"
  shows "wp (ipq4019_net_poller P) (\<lambda>_. Q) s"
proof (cases "initted (vars s) \<noteq> 0 \<or> gave_up (vars s) \<noteq> 0")
  case True
  then show ?thesis using idle by (simp add: ipq4019_net_poller_def)
next
  case False
  then have z: "initted (vars s) = 0" "gave_up (vars s) = 0" by simp_all
  show ?thesis
  proof (cases "3 \<le> retry_count (vars s)")
    case True
    then show ?thesis using halt z by (simp add: ipq4019_net_poller_def)
  next
    case False
    have "wp (ipq4019_eth_init P) (\<lambda>rc. wp (when_do (rc = 0) (upd_vars (\<lambda>st. st\<lparr>initted := 1\<rparr>))) (\<lambda>_. Q))
        (s\<lparr>console := c # console s, vars := (vars s)\<lparr>retry_count := retry_count (vars s) + 1\<rparr>\<rparr>)" for c
      using attempt [of c] z False by (auto elim!: wp_mono split: if_splits)
    then show ?thesis using z False by (simp add: ipq4019_net_poller_def)
  qed
qed

lemma poller_status:
  assumes "poller_inv s"
  shows "wp (ipq4019_net_poller P) (\<lambda>_ t. poller_inv t \<and>
    poll_step (phase_of (net_status s)) (phase_of (net_status t)) \<and>
    (initted (vars s) = 0 \<and> gave_up (vars s) = 0 \<or> t = s)) s"
proof (rule wp_poller)
  assume "initted (vars s) \<noteq> 0 \<or> gave_up (vars s) \<noteq> 0"
  then show "poller_inv s \<and> poll_step (phase_of (net_status s)) (phase_of (net_status s)) \<and>
      (initted (vars s) = 0 \<and> gave_up (vars s) = 0 \<or> s = s)"
    using assms by (auto simp: phase_of_def net_status_def)
next
  fix c
  assume s: "initted (vars s) = 0" "gave_up (vars s) = 0" "3 \<le> retry_count (vars s)"
  then have "retry_count (vars s) = 3" using assms by (auto simp: poller_inv_def net_status_def)
  then show "poller_inv (s\<lparr>console := c # console s, vars := (vars s)\<lparr>gave_up := 1\<rparr>\<rparr>) \<and>
      poll_step (phase_of (net_status s)) (phase_of (net_status (s\<lparr>console := c # console s, vars := (vars s)\<lparr>gave_up := 1\<rparr>\<rparr>))) \<and>
      (initted (vars s) = 0 \<and> gave_up (vars s) = 0 \<or> s\<lparr>console := c # console s, vars := (vars s)\<lparr>gave_up := 1\<rparr>\<rparr> = s)"
    using assms s by (auto simp: poller_inv_def phase_of_def net_status_def)
next
  fix c
  assume s: "initted (vars s) = 0" "gave_up (vars s) = 0" "retry_count (vars s) < 3"
  let ?s = "s\<lparr>console := c # console s, vars := (vars s)\<lparr>retry_count := retry_count (vars s) + 1\<rparr>\<rparr>"
  show "wp (ipq4019_eth_init P) (\<lambda>rc t. poller_inv (if rc = 0 then t\<lparr>vars := (vars t)\<lparr>initted := 1\<rparr>\<rparr> else t) \<and>
      poll_step (phase_of (net_status s)) (phase_of (net_status (if rc = 0 then t\<lparr>vars := (vars t)\<lparr>initted := 1\<rparr>\<rparr> else t))) \<and>
      (initted (vars s) = 0 \<and> gave_up (vars s) = 0 \<or> (if rc = 0 then t\<lparr>vars := (vars t)\<lparr>initted := 1\<rparr>\<rparr> else t) = s)) ?s"
    by (rule wp_mono [OF net_status_eth_init])
      (use assms s in \<open>auto simp: poller_inv_def phase_of_def net_status_def nat_add_distrib\<close>)
qed

text \<open>
  C7: each poll is a step of the three-phase machine: trying with a count of
  failures below three, up, or halted; up and halted are final and a poll there
  does nothing at all. At most one device is ever registered, and it is
  registered exactly when the poller is up.
\<close>

theorem poller_refines:
  assumes "poller_inv w"
  shows "let w' = exec (ipq4019_net_poller P) w in
    poller_inv w' \<and> poll_step (phase_of (net_status w)) (phase_of (net_status w')) \<and>
    (if phase_of (net_status w) = Up \<or> phase_of (net_status w) = Halted then w' = w else True) \<and>
    registrations (hist w') = (if phase_of (net_status w') = Up then 1 else 0)"
proof -
  have reg: "registrations (hist t) = (if phase_of (net_status t) = Up then 1 else 0)" if "poller_inv t" for t
    using that by (auto simp: poller_inv_def phase_of_def net_status_def)
  have final: "initted (vars w) \<noteq> 0 \<or> gave_up (vars w) \<noteq> 0"
    if "phase_of (net_status w) = Up \<or> phase_of (net_status w) = Halted"
    using that by (auto simp: phase_of_def net_status_def split: if_splits)
  show ?thesis
    using poller_status [OF assms, of P] reg final unfolding wp_def Let_def by auto
qed

lemma poller_inv_boot: "poller_inv boot"
  by (simp add: poller_inv_def net_status_def boot_def zero_statics_def)

theorem poller_refines_witness:
  "poller_inv (exec (ipq4019_net_poller silent) boot) \<and>
   registrations (hist (exec (ipq4019_net_poller silent) boot)) \<le> 1"
  using poller_refines [OF poller_inv_boot, of silent] by (auto simp: Let_def)

text \<open>How many polls a phase is away from a final one.\<close>

definition poll_rank :: "poll_phase \<Rightarrow> nat" where
  "poll_rank p = (case p of Trying n \<Rightarrow> 4 - n | Up \<Rightarrow> 0 | Halted \<Rightarrow> 0)"

lemma poll_step_rank: "poll_step p q \<Longrightarrow> poll_rank q \<le> poll_rank p - 1"
  by (induction rule: poll_step.induct) (simp_all add: poll_rank_def)

lemma polls_rank:
  assumes "poller_inv s"
  shows "poller_inv ((exec (ipq4019_net_poller P) ^^ n) s) \<and>
    poll_rank (phase_of (net_status ((exec (ipq4019_net_poller P) ^^ n) s))) \<le> poll_rank (phase_of (net_status s)) - n"
proof (induction n)
  case 0
  then show ?case using assms by simp
next
  case (Suc n)
  then show ?case
    using poller_status [of "(exec (ipq4019_net_poller P) ^^ n) s" P] poll_step_rank
    by (fastforce simp: wp_def)
qed

text \<open>
  C31: the driver does not retry for ever: from boot, four polls lead to a final
  phase on every hardware, and any further poll changes nothing.
\<close>

theorem poller_settles:
  "let w = (exec (ipq4019_net_poller P) ^^ 4) boot in
     phase_of (net_status w) \<in> {Up, Halted} \<and> (exec (ipq4019_net_poller P) ^^ n) w = w"
proof -
  let ?w = "(exec (ipq4019_net_poller P) ^^ 4) boot"
  have inv: "poller_inv ?w" and "poll_rank (phase_of (net_status ?w)) \<le> 4 - 4"
    using polls_rank [OF poller_inv_boot, of 4 P] by (auto simp: phase_of_def net_status_def boot_def zero_statics_def poll_rank_def)
  moreover have "poll_rank p = 0 \<longleftrightarrow> p \<in> {Up, Halted} \<or> (\<exists>n\<ge>4. p = Trying n)" for p
    by (cases p) (auto simp: poll_rank_def)
  moreover have "phase_of (net_status ?w) \<noteq> Trying n" if "n \<ge> 4" for n
    using inv that by (auto simp: poller_inv_def phase_of_def net_status_def)
  ultimately have final: "phase_of (net_status ?w) \<in> {Up, Halted}" by fastforce
  then have "initted (vars ?w) \<noteq> 0 \<or> gave_up (vars ?w) \<noteq> 0"
    by (auto simp: phase_of_def net_status_def split: if_splits)
  then have "exec (ipq4019_net_poller P) ?w = ?w"
    using poller_status [OF inv, of P] by (auto simp: wp_def)
  then have "(exec (ipq4019_net_poller P) ^^ n) ?w = ?w" by (induction n) simp_all
  with final show ?thesis unfolding Let_def by blast
qed

end
