(* ===== verification/Ipq4019_Psgmii.thy ===== *)
theory Ipq4019_Psgmii
  imports Ipq4019_Bringup
begin

text \<open>
  ipq4019_psgmii.c: calibration of the PSGMII link to the QCA8075 PHYs and the
  loopback self-test. PHYs are MDIO addresses 0 to 4, the PSGMII PHY is 5.
\<close>

section \<open>The code\<close>

definition GCC_ESS_BCR :: u32 where [simp]: "GCC_ESS_BCR = 0x12008"

definition ess :: u32 where [simp]: "ess = IPQ4019_ESS_BASE"
definition psgmii :: u32 where [simp]: "psgmii = IPQ4019_PSGMII_BASE"
definition psgmii_phy :: u8 where [simp]: "psgmii_phy = IPQ4019_PHY_PSGMII_ADDR"

definition ess_reset :: "(drv, unit) state" where
  "ess_reset = do {
     let bcr = IPQ4019_GCC_BASE + GCC_ESS_BCR;
     writel GCC_ESS_BCR_BLK_ARES bcr;
     mdelay 10;
     writel 0 bcr;
     mdelay 10 }"

definition esw_port_loopback_set :: "platform \<Rightarrow> nat \<Rightarrow> int \<Rightarrow> (drv, unit) state" where
  "esw_port_loopback_set P port enable = do {
     t \<leftarrow> readl P (ess + ESS_PORT_LOOKUP_CTRL port);
     let t = (if enable \<noteq> 0 then t OR ESS_PORT_LOOP_BACK_EN else t AND NOT ESS_PORT_LOOP_BACK_EN);
     writel t (ess + ESS_PORT_LOOKUP_CTRL port) }"

definition esw_port_loopback_set_all :: "platform \<Rightarrow> int \<Rightarrow> (drv, unit) state" where
  "esw_port_loopback_set_all P enable =
     for_each [1..<ESS_PORTS_NUM] (\<lambda>i. esw_port_loopback_set P i enable)"

text \<open>The probe of the PHY identifiers on the first call.\<close>

definition probe_phy_ids :: "platform \<Rightarrow> (drv, unit) state" where
  "probe_phy_ids P = for_each [0..<6] (\<lambda>i. do {
     (_, id1) \<leftarrow> ipq4019_mdio_read P (of_nat i) 2 0xdead;
     (_, id2) \<leftarrow> ipq4019_mdio_read P (of_nat i) 3 0xdead;
     printf ''ipq4019: MDIO addr %d  id_hi=0x%04x id_lo=0x%04x''
       [Num (of_nat i), Num (ucast id1), Num (ucast id2)] })"

definition qca8075_ess_reset :: "platform \<Rightarrow> (drv, unit) state" where
  "qca8075_ess_reset P = do {
     st \<leftarrow> gets vars;
     when_do (probe_done st = 0)
       (do { probe_phy_ids P; upd_vars (\<lambda>st. st\<lparr>probe_done := 1\<rparr>) });
     _ \<leftarrow> ipq4019_mdio_write P psgmii_phy MII_BMCR 0x005b;
     _ \<leftarrow> ipq4019_mdio_write P psgmii_phy MII_BMCR 0x001b;
     _ \<leftarrow> ipq4019_mdio_write P psgmii_phy MII_BMCR 0x005b;
     (i, val) \<leftarrow> poll_loop (\<lambda>_. ipq4019_phy_read_mmd P psgmii_phy MDIO_MMD_PMAPMD 0x28)
       (\<lambda>val. val AND 0x1 \<noteq> 0) (mdelay 1) 100 0 0;
     when_do (100 \<le> i)
       (printf ''ipq4019: QCA807x PSGMII PLL_VCO_CALIB Not Ready (last MMD/PMAPMD reg 0x28 read = 0x%04x)''
         [Num (ucast val)]);
     _ \<leftarrow> ipq4019_mdio_write P psgmii_phy 0x1a 0x2230;
     ess_reset;
     (i, val) \<leftarrow> poll_loop (\<lambda>_. readl P (psgmii + PSGMIIPHY_VCO_CALIBRATION_CTRL_REGISTER_2))
       (\<lambda>val. val AND 0x1 \<noteq> 0) (mdelay 1) 100 0 0;
     when_do (100 \<le> i) (printf ''ipq4019: PSGMII PLL_VCO_CALIB Not Ready'' []);
     _ \<leftarrow> ipq4019_mdio_write P psgmii_phy 0x1a 0x3230;
     _ \<leftarrow> ipq4019_mdio_write P psgmii_phy MII_BMCR 0x005f;
     ret () }"

definition PSGMII_ST_PKT_COUNT :: u16 where [simp]: "PSGMII_ST_PKT_COUNT = 4 * 1024"
definition PSGMII_ST_PKT_SIZE :: u16 where [simp]: "PSGMII_ST_PKT_SIZE = 1504"

definition psgmii_st_phy_power_down :: "platform \<Rightarrow> u8 \<Rightarrow> (drv, unit) state" where
  "psgmii_st_phy_power_down P phy = do {
     (_, val) \<leftarrow> ipq4019_mdio_read P phy MII_BMCR 0;
     _ \<leftarrow> ipq4019_mdio_write P phy MII_BMCR (val OR QCA807X_POWER_DOWN);
     ret () }"

definition psgmii_st_phy_prepare :: "platform \<Rightarrow> u8 \<Rightarrow> (drv, unit) state" where
  "psgmii_st_phy_prepare P phy = do {
     (_, val) \<leftarrow> ipq4019_mdio_read P phy QCA807X_CHIP_CONFIGURATION 0;
     let val' = (if val \<noteq> 0 then val OR QCA807X_MEDIA_PAGE_SELECT else val);
     when_do (val \<noteq> 0) (do { _ \<leftarrow> ipq4019_mdio_write P phy QCA807X_CHIP_CONFIGURATION val'; ret () });
     psgmii_st_phy_power_down P phy;
     ipq4019_phy_write_mmd P phy MDIO_MMD_AN 0x8021 PSGMII_ST_PKT_COUNT;
     ipq4019_phy_write_mmd P phy MDIO_MMD_AN 0x8062 PSGMII_ST_PKT_SIZE;
     (_, val) \<leftarrow> ipq4019_mdio_read P phy QCA807X_FUNCTION_CONTROL val';
     let val = val AND NOT QCA807X_MDI_CROSSOVER_MODE_MASK;
     let val = val AND NOT QCA807X_POLARITY_REVERSAL;
     _ \<leftarrow> ipq4019_mdio_write P phy QCA807X_FUNCTION_CONTROL val;
     ret () }"

definition psgmii_st_phy_recover :: "platform \<Rightarrow> u8 \<Rightarrow> (drv, unit) state" where
  "psgmii_st_phy_recover P phy = do {
     ipq4019_phy_write_mmd P phy MDIO_MMD_AN 0x8021 0x0;
     val \<leftarrow> ipq4019_phy_read_mmd P phy MDIO_MMD_AN QCA807X_MMD7_CRC_PACKET_COUNTER;
     let val = val AND NOT QCA807X_MMD7_PACKET_COUNTER_SELFCLR;
     let val = val AND NOT QCA807X_MMD7_CRC_PACKET_COUNTER_EN;
     ipq4019_phy_write_mmd P phy MDIO_MMD_AN QCA807X_MMD7_CRC_PACKET_COUNTER val;
     ipq4019_phy_write_mmd P phy MDIO_MMD_AN 0x8020 0x0 }"

definition psgmii_st_phy_start_traffic :: "platform \<Rightarrow> u8 \<Rightarrow> (drv, unit) state" where
  "psgmii_st_phy_start_traffic P phy = do {
     val \<leftarrow> ipq4019_phy_read_mmd P phy MDIO_MMD_AN QCA807X_MMD7_CRC_PACKET_COUNTER;
     ipq4019_phy_write_mmd P phy MDIO_MMD_AN QCA807X_MMD7_CRC_PACKET_COUNTER
       (val OR QCA807X_MMD7_CRC_PACKET_COUNTER_EN);
     ipq4019_phy_write_mmd P phy MDIO_MMD_AN 0x8020 0xa000 }"

definition psgmii_st_phy_check_counters :: "platform \<Rightarrow> u8 \<Rightarrow> (drv, int) state" where
  "psgmii_st_phy_check_counters P phy = do {
     tx_ok \<leftarrow> ipq4019_phy_read_mmd P phy MDIO_MMD_AN QCA807X_MMD7_VALID_EGRESS_COUNTER_2;
     ret (if tx_ok = PSGMII_ST_PKT_COUNT AND 0xffff then 1 else 0) }"

definition psgmii_st_phy_reset_loopback :: "platform \<Rightarrow> u8 \<Rightarrow> (drv, unit) state" where
  "psgmii_st_phy_reset_loopback P phy = do {
     _ \<leftarrow> ipq4019_mdio_write P phy MII_BMCR 0x9000;
     _ \<leftarrow> ipq4019_mdio_write P phy MII_BMCR 0x4140;
     ret () }"

definition psgmii_st_phy_link_is_up :: "platform \<Rightarrow> u8 \<Rightarrow> (drv, int) state" where
  "psgmii_st_phy_link_is_up P phy = do {
     (_, val) \<leftarrow> ipq4019_mdio_read P phy QCA807X_PHY_SPECIFIC 0;
     ret (if val AND QCA807X_PHY_SPECIFIC_LINK \<noteq> 0 then 1 else 0) }"

text \<open>One pass over the PHYs: the bits of those whose check succeeds are cleared.\<close>

primrec st_phy_scan :: "(u8 \<Rightarrow> (drv, int) state) \<Rightarrow> nat list \<Rightarrow> u32 \<Rightarrow> (drv, u32) state" where
  "st_phy_scan check [] msk = ret msk"
| "st_phy_scan check (phy # ps) msk =
     (if msk AND push_bit phy 1 = 0 then st_phy_scan check ps msk
      else do {
        r \<leftarrow> check (of_nat phy);
        st_phy_scan check ps (if r \<noteq> 0 then msk AND NOT (push_bit phy 1) else msk) })"

definition psgmii_st_phy_wait :: "u32 \<Rightarrow> nat \<Rightarrow> nat \<Rightarrow> (u8 \<Rightarrow> (drv, int) state) \<Rightarrow> (drv, int) state" where
  "psgmii_st_phy_wait msk retries delay check = do {
     (i, msk) \<leftarrow> poll_loop (st_phy_scan check [0..<IPQ4019_NUM_PORT_PHY]) (\<lambda>msk. msk = 0)
       (mdelay delay) retries 0 msk;
     ret (if msk = 0 then 1 else 0) }"

text \<open>The loop of the serial test, which stops at the first failure.\<close>

primrec st_serial_from :: "platform \<Rightarrow> nat list \<Rightarrow> int \<Rightarrow> (drv, int) state" where
  "st_serial_from P [] res = ret res"
| "st_serial_from P (i # is) res = do {
     psgmii_st_phy_reset_loopback P (of_nat i);
     _ \<leftarrow> psgmii_st_phy_wait (push_bit i 1) 100 10 (psgmii_st_phy_link_is_up P);
     psgmii_st_phy_start_traffic P (of_nat i);
     r \<leftarrow> psgmii_st_phy_wait (push_bit i 1) 5000 1 (psgmii_st_phy_check_counters P);
     let res = res AND r;
     psgmii_st_phy_power_down P (of_nat i);
     if res = 0 then ret res else st_serial_from P is res }"

definition psgmii_st_run_test_serial :: "platform \<Rightarrow> u32 \<Rightarrow> (drv, int) state" where
  "psgmii_st_run_test_serial P phy_mask = st_serial_from P [0..<IPQ4019_NUM_PORT_PHY] 1"

definition psgmii_st_run_test_parallel :: "platform \<Rightarrow> u32 \<Rightarrow> (drv, int) state" where
  "psgmii_st_run_test_parallel P phy_mask = do {
     for_each [0..<IPQ4019_NUM_PORT_PHY] (\<lambda>i. psgmii_st_phy_reset_loopback P (of_nat i));
     _ \<leftarrow> psgmii_st_phy_wait phy_mask 100 10 (psgmii_st_phy_link_is_up P);
     for_each [0..<IPQ4019_NUM_PORT_PHY] (\<lambda>i. psgmii_st_phy_start_traffic P (of_nat i));
     result \<leftarrow> psgmii_st_phy_wait phy_mask 5000 1 (psgmii_st_phy_check_counters P);
     for_each [0..<IPQ4019_NUM_PORT_PHY] (\<lambda>i. psgmii_st_phy_power_down P (of_nat i));
     ret result }"

definition psgmii_analog_cal :: "(drv, unit) state" where
  "psgmii_analog_cal = do {
     writel PSGMIIPHY_PLL_VCO_VAL (psgmii + PSGMIIPHY_PLL_VCO_RELATED_CTRL);
     writel PSGMIIPHY_VCO_VAL (psgmii + PSGMIIPHY_VCO_CALIBRATION_CTRL_REGISTER_1);
     mdelay 10;
     writel PSGMIIPHY_VCO_RST_VAL (psgmii + PSGMIIPHY_VCO_CALIBRATION_CTRL_REGISTER_1) }"

definition ipq4019_psgmii_self_test :: "platform \<Rightarrow> (drv, int) state" where
  "ipq4019_psgmii_self_test P = do {
     printf ''ipq4019: PSGMII analog cal (initial)'' [];
     psgmii_analog_cal;
     printf ''ipq4019: psgmii_st_phy_prepare 5 ports'' [];
     for_each [0..<IPQ4019_NUM_PORT_PHY] (\<lambda>i. psgmii_st_phy_prepare P (of_nat i));
     printf ''ipq4019: single qca8075_ess_reset + final analog cal'' [];
     qca8075_ess_reset P;
     psgmii_analog_cal;
     mdelay 10;
     let result = (1 :: int);
     printf ''ipq4019: PSGMII cal complete (skipped retry-loop self-test)'' [];
     for_each [0..<IPQ4019_NUM_PORT_PHY] (\<lambda>i. do {
       psgmii_st_phy_recover P (of_nat i);
       _ \<leftarrow> ipq4019_mdio_write P (of_nat i) QCA807X_FUNCTION_CONTROL 0x6860;
       _ \<leftarrow> ipq4019_mdio_write P (of_nat i) MII_BMCR 0x9040;
       ret () });
     esw_port_loopback_set_all P 0;
     ret (if result \<noteq> 0 then 0 else - 1) }"

section \<open>Footprints\<close>

lemma io_only_phy_steps [io_only_rules]:
  "io_only ess_reset" "io_only (esw_port_loopback_set P port e)" "io_only (esw_port_loopback_set_all P e)"
  "io_only (probe_phy_ids P)" "io_only (psgmii_st_phy_power_down P phy)" "io_only (psgmii_st_phy_recover P phy)"
  "io_only (psgmii_st_phy_start_traffic P phy)" "io_only (psgmii_st_phy_check_counters P phy)"
  "io_only (psgmii_st_phy_reset_loopback P phy)" "io_only (psgmii_st_phy_link_is_up P phy)"
  "io_only psgmii_analog_cal"
  unfolding ess_reset_def esw_port_loopback_set_def esw_port_loopback_set_all_def probe_phy_ids_def
    psgmii_st_phy_power_down_def psgmii_st_phy_recover_def psgmii_st_phy_start_traffic_def
    psgmii_st_phy_check_counters_def psgmii_st_phy_reset_loopback_def psgmii_st_phy_link_is_up_def
    psgmii_analog_cal_def Let_def
  by (intro io_only_rules io_only_mdio)+

text \<open>
  The self-test returns 0 on every hardware: it runs neither of its two
  tests, and a PHY that never answers does not make it fail.
\<close>

theorem self_test_returns_0:
  "result (ipq4019_psgmii_self_test P) w = 0"
  by (simp add: ipq4019_psgmii_self_test_def Let_def)

section \<open>Loopback of the switch ports\<close>

lemma wp_loopback_set_all:
  assumes "\<And>v es. reads es = map (\<lambda>i. (0x0c000000 + ESS_PORT_LOOKUP_CTRL i, v i)) [1..<6] \<Longrightarrow>
    writes es = map (\<lambda>i. (0x0c000000 + ESS_PORT_LOOKUP_CTRL i,
        if enable \<noteq> 0 then v i OR 0x200000 else v i AND NOT 0x200000)) [1..<6] \<Longrightarrow>
    Q () (s\<lparr>hist := es @ hist s\<rparr>)"
  shows "wp (esw_port_loopback_set_all P enable) Q s"
proof -
  have rmw: "esw_port_loopback_set_all P enable = for_each [1..<6] (\<lambda>i. rmw P (0x0c000000 + ESS_PORT_LOOKUP_CTRL i)
      ((\<lambda>_ v. if enable \<noteq> 0 then v OR 0x200000 else v AND NOT 0x200000) i))"
    by (simp add: esw_port_loopback_set_all_def esw_port_loopback_set_def rmw_def Let_def cong: if_cong)
  show ?thesis unfolding rmw by (rule wp_rmw_loop) (auto intro: assms)
qed

text \<open>
  Switching loopback on or off reads and rewrites the lookup register of
  ports 1 to 5 once each and in order, changing bit 21 and no other; the CPU
  port's register is not touched.
\<close>

theorem loopback_set_all_spec:
  "\<exists>es v. exec (esw_port_loopback_set_all P enable) w = w\<lparr>hist := es @ hist w\<rparr> \<and>
    reads es = map (\<lambda>i. (0x0c000660 + of_nat i * 12, v i)) [1..<6] \<and>
    map fst (writes es) = map fst (reads es) \<and>
    map (\<lambda>(a, x). bit x 21) (writes es) = replicate 5 (enable \<noteq> 0) \<and>
    map (\<lambda>(a, x). x AND NOT 0x200000) (writes es) = map (\<lambda>(a, x). x AND NOT 0x200000) (reads es)"
proof (rule wp_execI, rule wp_loopback_set_all)
  have b: "bit (x OR 0x200000) 21" "\<not> bit (x AND NOT 0x200000) 21"
    "(x OR 0x200000) AND NOT 0x200000 = x AND NOT 0x200000" for x :: u32
  proof -
    have e: "(0x200000 :: u32) = push_bit 21 1" by simp
    show "bit (x OR 0x200000) 21" "\<not> bit (x AND NOT 0x200000) 21"
      unfolding e by (simp_all add: bit_simps)
    show "(x OR 0x200000) AND NOT 0x200000 = x AND NOT 0x200000"
      unfolding e by (rule bit_word_eqI) (auto simp: bit_simps)
  qed
  have r: "replicate 5 x = [x, x, x, x, x]" for x :: bool by (simp add: numeral_eq_Suc)
  fix v es
  assume "reads es = map (\<lambda>i. (0x0c000000 + ESS_PORT_LOOKUP_CTRL i, v i)) [1..<6]"
    "writes es = map (\<lambda>i. (0x0c000000 + ESS_PORT_LOOKUP_CTRL i,
        if enable \<noteq> 0 then v i OR 0x200000 else v i AND NOT 0x200000)) [1..<6]"
  then show "\<exists>es' v. w\<lparr>hist := es @ hist w\<rparr> = w\<lparr>hist := es' @ hist w\<rparr> \<and>
    reads es' = map (\<lambda>i. (0x0c000660 + of_nat i * 12, v i)) [1..<6] \<and>
    map fst (writes es') = map fst (reads es') \<and>
    map (\<lambda>(a, x). bit x 21) (writes es') = replicate 5 (enable \<noteq> 0) \<and>
    map (\<lambda>(a, x). x AND NOT 0x200000) (writes es') = map (\<lambda>(a, x). x AND NOT 0x200000) (reads es')"
    by (intro exI [of _ es] exI [of _ v]) (simp add: upt_conv_Cons r b [simplified])
qed


section \<open>Waiting for the PHYs\<close>

text \<open>The PHYs are in the state they were in at the start.\<close>

definition same_phys :: "(u8 \<Rightarrow> phy_regs) \<Rightarrow> drv \<Rightarrow> drv \<Rightarrow> bool" where
  "same_phys b s t \<longleftrightarrow> wire_run b (mdio_frames (hist t)) = wire_run b (mdio_frames (hist s))"

definition phy_link :: "(u8 \<Rightarrow> phy_regs) \<Rightarrow> drv \<Rightarrow> nat \<Rightarrow> bool" where
  "phy_link b s i \<longleftrightarrow> bit (phy_load QCA807X_PHY_SPECIFIC (wire_run b (mdio_frames (hist s)) (of_nat i))) 10"

lemma same_phys_refl [simp]: "same_phys b s s"
  by (simp add: same_phys_def)

lemma same_phys_link: "same_phys b s t \<Longrightarrow> phy_link b t i = phy_link b s i"
  by (simp add: same_phys_def phy_link_def)

lemma same_phys_trans: "same_phys b s t \<Longrightarrow> same_phys b t u \<Longrightarrow> same_phys b s u"
  by (simp add: same_phys_def)

lemma wp_link_is_up:
  assumes "mdio_responsive P" and "mdio_answers P b"
    and "\<And>t. same_phys b s t \<Longrightarrow> Q (if phy_link b s i then 1 else 0) t"
  shows "wp (psgmii_st_phy_link_is_up P (of_nat i)) Q s"
proof -
  have "wp (ipq4019_mdio_read P (of_nat i) 0x11 0)
      (\<lambda>r t. same_phys b s t \<and> bit (snd r) 10 = phy_link b s i) s"
  proof (rule wp_mdio_read)
    fix es cs and h1 :: "event list" and d
    assume es: "mdio_frames (es @ hist s) = mdio_frames (hist s) @ [MdioRead (of_nat i) 0x11]"
      and d: "d = bus_read P (es @ hist s) (mdio_base + MDIO_DATA_READ_REG)"
    have "ucast d = phy_load 0x11 (wire_run b (mdio_frames (hist s)) (of_nat i))"
      unfolding d using assms(2) es unfolding mdio_answers_def by blast
    then show "same_phys b s (s\<lparr>hist := Rd (mdio_base + MDIO_DATA_READ_REG) d # es @ hist s, console := cs @ console s\<rparr>) \<and>
        bit (snd (0 :: int, ucast d :: u16)) 10 = phy_link b s i"
      using es by (simp add: same_phys_def phy_link_def)
  qed (simp_all add: responsive_idle [OF assms(1)])
  moreover have "v AND 0x400 = 0 \<longleftrightarrow> \<not> bit v 10" for v :: u16
    using and_exp_eq_0_iff_not_bit [of v 10] by simp
  ultimately show ?thesis
    using assms(3) by (auto simp: psgmii_st_phy_link_is_up_def case_prod_beta elim!: wp_mono)
qed

text \<open>What a pass leaves in the mask.\<close>

definition left_after :: "(nat \<Rightarrow> bool) \<Rightarrow> nat list \<Rightarrow> u32 \<Rightarrow> u32 \<Rightarrow> bool" where
  "left_after up ps m m' \<longleftrightarrow> (\<forall>j<32. bit m' j \<longleftrightarrow> bit m j \<and> \<not> (j \<in> set ps \<and> up j))"

lemma bit_selected: "(m AND push_bit phy 1 = 0) = (\<not> bit m phy)" "(m AND 2 ^ phy = 0) = (\<not> bit m phy)" for m :: u32
  using and_exp_eq_0_iff_not_bit [of m phy] by (simp_all add: push_bit_eq_mult)

lemma bit_cleared:
  "j < 32 \<Longrightarrow> bit (m AND NOT (push_bit phy 1)) j = (bit m j \<and> j \<noteq> phy)"
  "j < 32 \<Longrightarrow> bit (m AND NOT (2 ^ phy)) j = (bit m j \<and> j \<noteq> phy)" for m :: u32
  by (auto simp: bit_simps)

lemma wp_scan_links:
  assumes "mdio_responsive P" and "mdio_answers P b" and "set ps \<subseteq> {..<32}"
    and "\<And>m' t. same_phys b s t \<Longrightarrow> left_after (phy_link b s) ps m m' \<Longrightarrow> Q m' t"
  shows "wp (st_phy_scan (psgmii_st_phy_link_is_up P) ps m) Q s"
  using assms(3,4)
proof (induction ps arbitrary: s m)
  case Nil
  then show ?case by (simp add: left_after_def)
next
  case (Cons phy ps)
  then have phy: "phy < 32" and ps: "set ps \<subseteq> {..<32}" by auto
  show ?case
  proof (cases "bit m phy")
    case False
    have "wp (st_phy_scan (psgmii_st_phy_link_is_up P) ps m) Q s"
      by (rule Cons.IH [OF ps]) (use False in \<open>auto intro!: Cons.prems(2) simp: left_after_def\<close>)
    then show ?thesis using False by (simp add: bit_selected)
  next
    case True
    have "wp (psgmii_st_phy_link_is_up P (of_nat phy)) (\<lambda>r. wp (st_phy_scan (psgmii_st_phy_link_is_up P) ps
        (if r \<noteq> 0 then m AND NOT (push_bit phy 1) else m)) Q) s"
    proof (rule wp_link_is_up [OF assms(1,2)], rule Cons.IH [OF ps])
      fix t m' u
      assume t: "same_phys b s t" "same_phys b t u"
        and m': "left_after (phy_link b t) ps (if (if phy_link b s phy then 1 else 0 :: int) \<noteq> 0
          then m AND NOT (push_bit phy 1) else m) m'"
      show "Q m' u"
      proof (rule Cons.prems(2) [OF same_phys_trans [OF t]])
        show "left_after (phy_link b s) (phy # ps) m m'"
          using m' same_phys_link [OF t(1)] by (auto simp: left_after_def bit_cleared split: if_splits)
      qed
    qed
    then show ?thesis using True by (simp add: bit_selected)
  qed
qed


lemma wp_wait_link:
  assumes "mdio_responsive P" and "mdio_answers P b" and "0 < n"
    and Q: "\<And>t. same_phys b s t \<Longrightarrow> Q (if \<forall>j<32. bit m j \<longrightarrow> j < 5 \<and> phy_link b s j then 1 else 0) t"
  shows "wp (psgmii_st_phy_wait m n delay (psgmii_st_phy_link_is_up P)) Q s"
proof -
  let ?left = "left_after (phy_link b s) [0..<5] m"
  have zero: "x = 0 \<longleftrightarrow> (\<forall>j<32. \<not> bit x j)" for x :: u32
    by (auto simp: bit_eq_iff dest: bit_imp_le_length)
  have left_zero: "x = 0 \<longleftrightarrow> (\<forall>j<32. bit m j \<longrightarrow> j < 5 \<and> phy_link b s j)" if "?left x" for x
    using that unfolding zero by (auto simp: left_after_def)
  have "wp (poll_loop (st_phy_scan (psgmii_st_phy_link_is_up P) [0..<5]) (\<lambda>m. m = 0) (mdelay delay) n 0 m)
      (\<lambda>r t. same_phys b s t \<and> ?left (snd r)) s"
  proof (rule wp_poll_loop [where I = "\<lambda>k x t. same_phys b s t \<and> (if k = 0 then x = m else ?left x)"])
    fix k :: nat and x and t :: drv
    assume t: "same_phys b s t \<and> (if k = 0 then x = m else ?left x)"
    show "wp (st_phy_scan (psgmii_st_phy_link_is_up P) [0..<5] x)
      (\<lambda>x' t'. if x' = 0 then same_phys b s t' \<and> ?left (snd (k, x'))
        else wp (mdelay delay) (\<lambda>_ t. same_phys b s t \<and> (if Suc k = 0 then x' = m else ?left x')) t') t"
    proof (rule wp_scan_links [OF assms(1,2)])
      fix x' t'
      assume "same_phys b t t'" and x': "left_after (phy_link b t) [0..<5] x x'"
      then have same: "same_phys b s t'" using t same_phys_trans by blast
      have "?left x'"
        using x' t same_phys_link [of b s t] by (auto simp: left_after_def split: if_splits)
      moreover have "same_phys b s (t'\<lparr>hist := Udelay (1000 * delay) # hist t'\<rparr>)"
        using same by (simp add: same_phys_def)
      ultimately show "if x' = 0 then same_phys b s t' \<and> ?left (snd (k, x'))
        else wp (mdelay delay) (\<lambda>_ t. same_phys b s t \<and> (if Suc k = 0 then x' = m else ?left x')) t'"
        using same by auto
    qed auto
  qed (use assms(3) in auto)
  then show ?thesis
    unfolding psgmii_st_phy_wait_def wp_bind IPQ4019_NUM_PORT_PHY_def
    by (rule wp_mono) (use Q left_zero in auto)
qed

text \<open>
  On PHYs that answer, the wait for link returns 1 exactly when the mask
  selects only PHYs 0 to 4 and every selected PHY has link, and 0 otherwise; the
  PHYs' registers are not changed by waiting.
\<close>

theorem wait_link_spec:
  assumes "mdio_responsive P" and "mdio_answers P b" and "0 < n"
  shows "result (psgmii_st_phy_wait m n delay (psgmii_st_phy_link_is_up P)) s =
      (if \<forall>j<32. bit m j \<longrightarrow> j < 5 \<and> phy_link b s j then 1 else 0) \<and>
    same_phys b s (exec (psgmii_st_phy_wait m n delay (psgmii_st_phy_link_is_up P)) s)"
proof -
  have "wp (psgmii_st_phy_wait m n delay (psgmii_st_phy_link_is_up P))
    (\<lambda>r t. r = (if \<forall>j<32. bit m j \<longrightarrow> j < 5 \<and> phy_link b s j then 1 else 0) \<and> same_phys b s t) s"
    by (rule wp_wait_link [OF assms]) simp
  then show ?thesis unfolding wp_def .
qed

lemma wait_link_spec_witness:
  "result (psgmii_st_phy_wait 8 100 10 (psgmii_st_phy_link_is_up (phy_platform one_link))) boot = 1 \<and>
   result (psgmii_st_phy_wait 9 100 10 (psgmii_st_phy_link_is_up (phy_platform one_link))) boot = 0"
proof -
  have b8: "j < 32 \<Longrightarrow> bit (8 :: u32) j \<Longrightarrow> j = 3" for j
    using bit_push_bit_iff [of 3 "1 :: u32" j] by (auto simp: bit_simps)
  have l: "phy_link one_link boot 3" "\<not> phy_link one_link boot 0"
    by (simp_all add: phy_link_def one_link_def phy_load_def boot_def)
  have eight: "\<forall>j<32. bit (8 :: u32) j \<longrightarrow> j < 5 \<and> phy_link one_link boot j"
    using b8 l by fastforce
  have nine: "\<not> (\<forall>j<32. bit (9 :: u32) j \<longrightarrow> j < 5 \<and> phy_link one_link boot j)"
    using l(2) by (intro notI) (drule spec [where x = 0], simp)
  have w: "result (psgmii_st_phy_wait m 100 10 (psgmii_st_phy_link_is_up (phy_platform one_link))) boot =
      (if \<forall>j<32. bit m j \<longrightarrow> j < 5 \<and> phy_link one_link boot j then 1 else 0)" for m
    using wait_link_spec [OF phy_platform_responsive phy_platform_answers,
      where b = one_link and s = boot and delay = 10 and n = 100 and m = m] by simp
  show ?thesis unfolding w by (rule conjI [OF if_P [OF eight] if_not_P [OF nine]])
qed

end
