(* ===== verification/Uboot_Regs.thy ===== *)
theory Uboot_Regs
  imports Ipq4019_Psgmii
begin

text \<open>
  reference/uboot-essedma.h, the header of the U-Boot driver that ipq4019.h was
  made from: its constants, with the prefix ub_, and their agreement with the
  port's. \<open>GENMASK\<close>, \<open>BIT\<close>, \<open>FIELD_PREP\<close> and \<open>FIELD_GET\<close> are the macros of
  linux/bitops.h and linux/bitfield.h, as documented there: a field is the run of
  set bits of its mask.
\<close>

section \<open>Bit fields\<close>

definition BIT :: "nat \<Rightarrow> 'a::len word" where
  "BIT n = push_bit n 1"

definition GENMASK :: "nat \<Rightarrow> nat \<Rightarrow> 'a::len word" where
  "GENMASK h l = push_bit l (mask (h + 1 - l))"

text \<open>The position of a mask's lowest bit.\<close>

definition field_shift :: "u32 \<Rightarrow> nat" where
  "field_shift m = length (takeWhile (\<lambda>i. \<not> bit m i) [0..<32])"

definition FIELD_PREP :: "u32 \<Rightarrow> u32 \<Rightarrow> u32" where
  "FIELD_PREP m v = push_bit (field_shift m) v AND m"

definition FIELD_GET :: "u32 \<Rightarrow> u32 \<Rightarrow> u32" where
  "FIELD_GET m r = drop_bit (field_shift m) (r AND m)"

section \<open>The header\<close>

definition ub_ESS_PORTS_NUM :: "nat" where [simp]: "ub_ESS_PORTS_NUM = 6"
definition ub_ESS_RGMII_CTRL :: "u32" where [simp]: "ub_ESS_RGMII_CTRL = 0x4"
definition ub_ESS_GLOBAL_FW_CTRL1 :: "u32" where [simp]: "ub_ESS_GLOBAL_FW_CTRL1 = 0x624"
definition ub_ESS_PORT0_STATUS :: "u32" where [simp]: "ub_ESS_PORT0_STATUS = 0x7c"
definition ub_ESS_PORT_SPEED_MASK :: "u32" where [simp]: "ub_ESS_PORT_SPEED_MASK = GENMASK 1 0"
definition ub_ESS_PORT_SPEED_1000 :: "u32" where [simp]: "ub_ESS_PORT_SPEED_1000 = 3"
definition ub_ESS_PORT_SPEED_100 :: "u32" where [simp]: "ub_ESS_PORT_SPEED_100 = 2"
definition ub_ESS_PORT_SPEED_10 :: "u32" where [simp]: "ub_ESS_PORT_SPEED_10 = 1"
definition ub_ESS_PORT_TXMAC_EN :: "u32" where [simp]: "ub_ESS_PORT_TXMAC_EN = BIT 2"
definition ub_ESS_PORT_RXMAC_EN :: "u32" where [simp]: "ub_ESS_PORT_RXMAC_EN = BIT 3"
definition ub_ESS_PORT_TX_FLOW_EN :: "u32" where [simp]: "ub_ESS_PORT_TX_FLOW_EN = BIT 4"
definition ub_ESS_PORT_RX_FLOW_EN :: "u32" where [simp]: "ub_ESS_PORT_RX_FLOW_EN = BIT 5"
definition ub_ESS_PORT_DUPLEX_MODE :: "u32" where [simp]: "ub_ESS_PORT_DUPLEX_MODE = BIT 6"
definition ub_ESS_PORT_LOOKUP_CTRL :: "nat \<Rightarrow> u32" where [simp]: "ub_ESS_PORT_LOOKUP_CTRL p = 0x660 + of_nat p * 12"
definition ub_ESS_PORT_LOOP_BACK_EN :: "u32" where [simp]: "ub_ESS_PORT_LOOP_BACK_EN = BIT 21"
definition ub_ESS_PORT_VID_MEM_MASK :: "u32" where [simp]: "ub_ESS_PORT_VID_MEM_MASK = GENMASK 6 0"
definition ub_ESS_PORT_HOL_CTRL0 :: "nat \<Rightarrow> u32" where [simp]: "ub_ESS_PORT_HOL_CTRL0 p = 0x970 + of_nat p * 8"
definition ub_EG_PORT_QUEUE_NUM_MASK :: "u32" where [simp]: "ub_EG_PORT_QUEUE_NUM_MASK = GENMASK 29 24"
definition ub_EG_PRI5_QUEUE_NUM_MASK :: "u32" where [simp]: "ub_EG_PRI5_QUEUE_NUM_MASK = GENMASK 23 20"
definition ub_EG_PRI4_QUEUE_NUM_MASK :: "u32" where [simp]: "ub_EG_PRI4_QUEUE_NUM_MASK = GENMASK 19 16"
definition ub_EG_PRI3_QUEUE_NUM_MASK :: "u32" where [simp]: "ub_EG_PRI3_QUEUE_NUM_MASK = GENMASK 15 12"
definition ub_EG_PRI2_QUEUE_NUM_MASK :: "u32" where [simp]: "ub_EG_PRI2_QUEUE_NUM_MASK = GENMASK 11 8"
definition ub_EG_PRI1_QUEUE_NUM_MASK :: "u32" where [simp]: "ub_EG_PRI1_QUEUE_NUM_MASK = GENMASK 7 4"
definition ub_EG_PRI0_QUEUE_NUM_MASK :: "u32" where [simp]: "ub_EG_PRI0_QUEUE_NUM_MASK = GENMASK 3 0"
definition ub_ESS_PORT_HOL_CTRL1 :: "nat \<Rightarrow> u32" where [simp]: "ub_ESS_PORT_HOL_CTRL1 p = 0x974 + of_nat p * 8"
definition ub_ESS_ING_BUF_NUM_0_MASK :: "u32" where [simp]: "ub_ESS_ING_BUF_NUM_0_MASK = GENMASK 3 0"
definition ub_QCA807X_CHIP_CONFIGURATION :: "u8" where [simp]: "ub_QCA807X_CHIP_CONFIGURATION = 0x1f"
definition ub_QCA807X_MEDIA_PAGE_SELECT :: "u16" where [simp]: "ub_QCA807X_MEDIA_PAGE_SELECT = BIT 15"
definition ub_QCA807X_POWER_DOWN :: "u16" where [simp]: "ub_QCA807X_POWER_DOWN = BIT 11"
definition ub_QCA807X_FUNCTION_CONTROL :: "u8" where [simp]: "ub_QCA807X_FUNCTION_CONTROL = 0x10"
definition ub_QCA807X_MDI_CROSSOVER_MODE_MASK :: "u16" where [simp]: "ub_QCA807X_MDI_CROSSOVER_MODE_MASK = GENMASK 6 5"
definition ub_QCA807X_MDI_CROSSOVER_MODE_MANUAL_MDI :: "u16" where [simp]: "ub_QCA807X_MDI_CROSSOVER_MODE_MANUAL_MDI = 0"
definition ub_QCA807X_POLARITY_REVERSAL :: "u16" where [simp]: "ub_QCA807X_POLARITY_REVERSAL = BIT 1"
definition ub_QCA807X_PHY_SPECIFIC :: "u8" where [simp]: "ub_QCA807X_PHY_SPECIFIC = 0x11"
definition ub_QCA807X_PHY_SPECIFIC_LINK :: "u16" where [simp]: "ub_QCA807X_PHY_SPECIFIC_LINK = BIT 10"
definition ub_QCA807X_MMD7_CRC_PACKET_COUNTER :: "u16" where [simp]: "ub_QCA807X_MMD7_CRC_PACKET_COUNTER = 0x8029"
definition ub_QCA807X_MMD7_PACKET_COUNTER_SELFCLR :: "u16" where [simp]: "ub_QCA807X_MMD7_PACKET_COUNTER_SELFCLR = BIT 1"
definition ub_QCA807X_MMD7_CRC_PACKET_COUNTER_EN :: "u16" where [simp]: "ub_QCA807X_MMD7_CRC_PACKET_COUNTER_EN = BIT 0"
definition ub_QCA807X_MMD7_VALID_EGRESS_COUNTER_2 :: "u16" where [simp]: "ub_QCA807X_MMD7_VALID_EGRESS_COUNTER_2 = 0x802e"
definition ub_PSGMIIPHY_VCO_CALIBRATION_CTRL_REGISTER_1 :: "u32" where [simp]: "ub_PSGMIIPHY_VCO_CALIBRATION_CTRL_REGISTER_1 = 0x9c"
definition ub_PSGMIIPHY_VCO_VAL :: "u32" where [simp]: "ub_PSGMIIPHY_VCO_VAL = 0x4ada"
definition ub_PSGMIIPHY_VCO_RST_VAL :: "u32" where [simp]: "ub_PSGMIIPHY_VCO_RST_VAL = 0xada"
definition ub_PSGMIIPHY_VCO_CALIBRATION_CTRL_REGISTER_2 :: "u32" where [simp]: "ub_PSGMIIPHY_VCO_CALIBRATION_CTRL_REGISTER_2 = 0xa0"
definition ub_PSGMIIPHY_PLL_VCO_RELATED_CTRL :: "u32" where [simp]: "ub_PSGMIIPHY_PLL_VCO_RELATED_CTRL = 0x78c"
definition ub_PSGMIIPHY_PLL_VCO_VAL :: "u32" where [simp]: "ub_PSGMIIPHY_PLL_VCO_VAL = 0x2803"
definition ub_RGMII_TCSR_ESS_CFG :: "u32" where [simp]: "ub_RGMII_TCSR_ESS_CFG = 0x01953000"
definition ub_IPQ40XX_EDMA_TX_RING_SIZE :: "nat" where [simp]: "ub_IPQ40XX_EDMA_TX_RING_SIZE = 8"
definition ub_IPQ40XX_EDMA_RSS_TYPE_NONE :: "u32" where [simp]: "ub_IPQ40XX_EDMA_RSS_TYPE_NONE = 0x1"
definition ub_EDMA_RSS_TYPE :: "u32" where [simp]: "ub_EDMA_RSS_TYPE = 0"
definition ub_EDMA_TPD_EOP_SHIFT :: "nat" where [simp]: "ub_EDMA_TPD_EOP_SHIFT = 31"
definition ub_EDMA_TPD_PORT_BITMAP_SHIFT :: "nat" where [simp]: "ub_EDMA_TPD_PORT_BITMAP_SHIFT = 18"
definition ub_EDMA_PORT_ENABLE_ALL :: "u32" where [simp]: "ub_EDMA_PORT_ENABLE_ALL = 0x3E"
definition ub_EDMA_REG_RX_SW_CONS_IDX_Q :: "nat \<Rightarrow> u32" where [simp]: "ub_EDMA_REG_RX_SW_CONS_IDX_Q x = 0x220 + push_bit 2 (of_nat x)"
definition ub_EDMA_REG_TX_SW_CONS_IDX_Q :: "nat \<Rightarrow> u32" where [simp]: "ub_EDMA_REG_TX_SW_CONS_IDX_Q x = 0x240 + push_bit 2 (of_nat x)"
definition ub_EDMA_REG_TPD_IDX_Q :: "nat \<Rightarrow> u32" where [simp]: "ub_EDMA_REG_TPD_IDX_Q x = 0x460 + push_bit 2 (of_nat x)"
definition ub_EDMA_REG_TPD_RING_SIZE :: "u32" where [simp]: "ub_EDMA_REG_TPD_RING_SIZE = 0x41C"
definition ub_EDMA_TPD_RING_SIZE_MASK :: "u32" where [simp]: "ub_EDMA_TPD_RING_SIZE_MASK = 0xFFFF"
definition ub_EDMA_REG_TPD_BASE_ADDR_Q :: "nat \<Rightarrow> u32" where [simp]: "ub_EDMA_REG_TPD_BASE_ADDR_Q x = 0x420 + push_bit 2 (of_nat x)"
definition ub_EDMA_TPD_PROD_IDX_MASK :: "u32" where [simp]: "ub_EDMA_TPD_PROD_IDX_MASK = GENMASK 15 0"
definition ub_EDMA_TPD_CONS_IDX_MASK :: "u32" where [simp]: "ub_EDMA_TPD_CONS_IDX_MASK = GENMASK 31 16"
definition ub_EDMA_REG_TX_SRAM_PART :: "u32" where [simp]: "ub_EDMA_REG_TX_SRAM_PART = 0x400"
definition ub_EDMA_LOAD_PTR_SHIFT :: "nat" where [simp]: "ub_EDMA_LOAD_PTR_SHIFT = 16"
definition ub_EDMA_REG_TXQ_CTRL :: "u32" where [simp]: "ub_EDMA_REG_TXQ_CTRL = 0x404"
definition ub_EDMA_TXQ_CTRL_TXQ_EN :: "u32" where [simp]: "ub_EDMA_TXQ_CTRL_TXQ_EN = 0x20"
definition ub_EDMA_TXQ_CTRL_TPD_BURST_EN :: "u32" where [simp]: "ub_EDMA_TXQ_CTRL_TPD_BURST_EN = 0x100"
definition ub_EDMA_TXQ_NUM_TPD_BURST_SHIFT :: "nat" where [simp]: "ub_EDMA_TXQ_NUM_TPD_BURST_SHIFT = 0"
definition ub_EDMA_TXQ_TXF_BURST_NUM_SHIFT :: "nat" where [simp]: "ub_EDMA_TXQ_TXF_BURST_NUM_SHIFT = 16"
definition ub_EDMA_TXF_BURST :: "u32" where [simp]: "ub_EDMA_TXF_BURST = 0x100"
definition ub_EDMA_TPD_BURST :: "u32" where [simp]: "ub_EDMA_TPD_BURST = 5"
definition ub_EDMA_REG_TXF_WATER_MARK :: "u32" where [simp]: "ub_EDMA_REG_TXF_WATER_MARK = 0x408"
definition ub_EDMA_REG_RSS_IDT :: "nat \<Rightarrow> u32" where [simp]: "ub_EDMA_REG_RSS_IDT x = 0x840 + push_bit 2 (of_nat x)"
definition ub_EDMA_NUM_IDT :: "nat" where [simp]: "ub_EDMA_NUM_IDT = 16"
definition ub_EDMA_RSS_IDT_VALUE :: "u32" where [simp]: "ub_EDMA_RSS_IDT_VALUE = 0x64206420"
definition ub_EDMA_REG_RSS_TYPE :: "u32" where [simp]: "ub_EDMA_REG_RSS_TYPE = 0x894"
definition ub_EDMA_REG_RFD_BASE_ADDR_Q :: "nat \<Rightarrow> u32" where [simp]: "ub_EDMA_REG_RFD_BASE_ADDR_Q x = 0x950 + push_bit 2 (of_nat x)"
definition ub_EDMA_RFD_BURST :: "u32" where [simp]: "ub_EDMA_RFD_BURST = 8"
definition ub_EDMA_RFD_THR :: "u32" where [simp]: "ub_EDMA_RFD_THR = 16"
definition ub_EDMA_RFD_LTHR :: "u32" where [simp]: "ub_EDMA_RFD_LTHR = 0"
definition ub_EDMA_REG_RFD_IDX_Q :: "nat \<Rightarrow> u32" where [simp]: "ub_EDMA_REG_RFD_IDX_Q x = 0x9B0 + push_bit 2 (of_nat x)"
definition ub_EDMA_RFD_CONS_IDX_MASK :: "u32" where [simp]: "ub_EDMA_RFD_CONS_IDX_MASK = GENMASK 27 16"
definition ub_EDMA_REG_RX_DESC0 :: "u32" where [simp]: "ub_EDMA_REG_RX_DESC0 = 0xA10"
definition ub_EDMA_RFD_RING_SIZE_MASK :: "u32" where [simp]: "ub_EDMA_RFD_RING_SIZE_MASK = 0xFFF"
definition ub_EDMA_RX_BUF_SIZE_MASK :: "u32" where [simp]: "ub_EDMA_RX_BUF_SIZE_MASK = 0xFFFF"
definition ub_EDMA_RFD_RING_SIZE_SHIFT :: "nat" where [simp]: "ub_EDMA_RFD_RING_SIZE_SHIFT = 0"
definition ub_EDMA_RX_BUF_SIZE_SHIFT :: "nat" where [simp]: "ub_EDMA_RX_BUF_SIZE_SHIFT = 16"
definition ub_EDMA_REG_RX_DESC1 :: "u32" where [simp]: "ub_EDMA_REG_RX_DESC1 = 0xA14"
definition ub_EDMA_RXQ_RFD_BURST_NUM_SHIFT :: "nat" where [simp]: "ub_EDMA_RXQ_RFD_BURST_NUM_SHIFT = 0"
definition ub_EDMA_RXQ_RFD_PF_THRESH_SHIFT :: "nat" where [simp]: "ub_EDMA_RXQ_RFD_PF_THRESH_SHIFT = 8"
definition ub_EDMA_RXQ_RFD_LOW_THRESH_SHIFT :: "nat" where [simp]: "ub_EDMA_RXQ_RFD_LOW_THRESH_SHIFT = 16"
definition ub_EDMA_REG_RXQ_CTRL :: "u32" where [simp]: "ub_EDMA_REG_RXQ_CTRL = 0xA18"
definition ub_EDMA_FIFO_THRESH_128_BYTE :: "u32" where [simp]: "ub_EDMA_FIFO_THRESH_128_BYTE = 0x0"
definition ub_EDMA_RXQ_CTRL_RMV_VLAN :: "u32" where [simp]: "ub_EDMA_RXQ_CTRL_RMV_VLAN = 0x00000002"
definition ub_EDMA_RXQ_CTRL_EN :: "u32" where [simp]: "ub_EDMA_RXQ_CTRL_EN = 0x0000FF00"
definition ub_REG_MAC_CTRL0 :: "u32" where [simp]: "ub_REG_MAC_CTRL0 = 0xC20"
definition ub_REG_MAC_CTRL1 :: "u32" where [simp]: "ub_REG_MAC_CTRL1 = 0xC24"
definition ub_EDMA_RRD7_DESC_VALID :: "u16" where [simp]: "ub_EDMA_RRD7_DESC_VALID = BIT 15"

section \<open>Agreement with ipq4019.h\<close>

lemma BIT_push_bit [simp]: "BIT n = push_bit n 1"
  by (rule BIT_def)

lemma GENMASK_values [simp]:
  "GENMASK (Suc 0) 0 = (0x3 :: u32)" "GENMASK 6 0 = (0x7f :: u32)" "GENMASK 3 0 = (0xf :: u32)"
  "GENMASK 29 24 = (0x3f000000 :: u32)" "GENMASK 23 20 = (0xf00000 :: u32)" "GENMASK 19 16 = (0xf0000 :: u32)"
  "GENMASK 15 12 = (0xf000 :: u32)" "GENMASK 11 8 = (0xf00 :: u32)" "GENMASK 7 4 = (0xf0 :: u32)"
  "GENMASK 15 0 = (0xffff :: u32)" "GENMASK 31 16 = (0xffff0000 :: u32)" "GENMASK 27 16 = (0xfff0000 :: u32)"
  "GENMASK 4 (Suc 0) = (0x1e :: u32)" "GENMASK 5 (Suc 0) = (0x3e :: u32)" "GENMASK 4 0 = (0x1f :: u32)"
  "GENMASK 6 5 = (0x60 :: u16)"
  by (simp_all add: GENMASK_def mask_eq_exp_minus_1)

text \<open>The consumer index masks are the only ones the two headers write differently.\<close>

lemma field_shift_values [simp]:
  "field_shift 0x3 = 0" "field_shift 0x7f = 0" "field_shift 0xf = 0" "field_shift 0x3f000000 = 24"
  "field_shift 0xf00000 = 20" "field_shift 0xf0000 = 16" "field_shift 0xf000 = 12" "field_shift 0xf00 = 8"
  "field_shift 0xf0 = 4" "field_shift 0xffff = 0" "field_shift 0xffff0000 = 16" "field_shift 0xfff0000 = 16"
  by (simp_all add: field_shift_def upt_conv_Cons)

lemma FIELD_values [simp]:
  "FIELD_GET 0xffff0000 r = drop_bit 16 r AND 0xffff" "FIELD_GET 0xfff0000 r = drop_bit 16 r AND 0xfff"
  "FIELD_GET 0xffff r = r AND 0xffff"
  "FIELD_PREP 0x7f v = v AND 0x7f" "FIELD_PREP 0x3 v = v AND 0x3" "FIELD_PREP 0xf v = v AND 0xf"
proof -
  have m: "(0xffff0000 :: u32) = push_bit 16 (mask 16)" "(0xfff0000 :: u32) = push_bit 16 (mask 12)"
    by (simp_all add: mask_eq_exp_minus_1)
  have "drop_bit 16 (r AND 0xffff0000) = drop_bit 16 r AND 0xffff" "drop_bit 16 (r AND 0xfff0000) = drop_bit 16 r AND 0xfff"
    unfolding m mask_numerals by (rule bit_word_eqI, auto simp: bit_simps)+
  then show "FIELD_GET 0xffff0000 r = drop_bit 16 r AND 0xffff" "FIELD_GET 0xfff0000 r = drop_bit 16 r AND 0xfff"
    by (simp_all add: FIELD_GET_def)
qed (simp_all add: FIELD_PREP_def FIELD_GET_def)

lemma ub_constants:
  "ub_ESS_PORTS_NUM = ESS_PORTS_NUM" "ub_ESS_RGMII_CTRL = ESS_RGMII_CTRL"
  "ub_ESS_GLOBAL_FW_CTRL1 = ESS_GLOBAL_FW_CTRL1" "ub_ESS_PORT0_STATUS = ESS_PORT0_STATUS"
  "ub_ESS_PORT_SPEED_MASK = ESS_PORT_SPEED_MASK" "ub_ESS_PORT_SPEED_1000 = ESS_PORT_SPEED_1000"
  "ub_ESS_PORT_SPEED_100 = ESS_PORT_SPEED_100" "ub_ESS_PORT_SPEED_10 = ESS_PORT_SPEED_10"
  "ub_ESS_PORT_TXMAC_EN = ESS_PORT_TXMAC_EN" "ub_ESS_PORT_RXMAC_EN = ESS_PORT_RXMAC_EN"
  "ub_ESS_PORT_TX_FLOW_EN = ESS_PORT_TX_FLOW_EN" "ub_ESS_PORT_RX_FLOW_EN = ESS_PORT_RX_FLOW_EN"
  "ub_ESS_PORT_DUPLEX_MODE = ESS_PORT_DUPLEX_MODE" "ub_ESS_PORT_LOOKUP_CTRL p = ESS_PORT_LOOKUP_CTRL p"
  "ub_ESS_PORT_LOOP_BACK_EN = ESS_PORT_LOOP_BACK_EN" "ub_ESS_PORT_VID_MEM_MASK = ESS_PORT_VID_MEM_MASK"
  "ub_ESS_PORT_HOL_CTRL0 p = ESS_PORT_HOL_CTRL0 p" "ub_ESS_PORT_HOL_CTRL1 p = ESS_PORT_HOL_CTRL1 p"
  "ub_ESS_ING_BUF_NUM_0_MASK = ESS_ING_BUF_NUM_0_MASK" "ub_QCA807X_CHIP_CONFIGURATION = QCA807X_CHIP_CONFIGURATION"
  "ub_QCA807X_MEDIA_PAGE_SELECT = QCA807X_MEDIA_PAGE_SELECT" "ub_QCA807X_POWER_DOWN = QCA807X_POWER_DOWN"
  "ub_QCA807X_FUNCTION_CONTROL = QCA807X_FUNCTION_CONTROL"
  "ub_QCA807X_MDI_CROSSOVER_MODE_MASK = QCA807X_MDI_CROSSOVER_MODE_MASK"
  "ub_QCA807X_MDI_CROSSOVER_MODE_MANUAL_MDI = QCA807X_MDI_CROSSOVER_MODE_MANUAL_MDI"
  "ub_QCA807X_POLARITY_REVERSAL = QCA807X_POLARITY_REVERSAL" "ub_QCA807X_PHY_SPECIFIC = QCA807X_PHY_SPECIFIC"
  "ub_QCA807X_PHY_SPECIFIC_LINK = QCA807X_PHY_SPECIFIC_LINK"
  "ub_QCA807X_MMD7_CRC_PACKET_COUNTER = QCA807X_MMD7_CRC_PACKET_COUNTER"
  "ub_QCA807X_MMD7_PACKET_COUNTER_SELFCLR = QCA807X_MMD7_PACKET_COUNTER_SELFCLR"
  "ub_QCA807X_MMD7_CRC_PACKET_COUNTER_EN = QCA807X_MMD7_CRC_PACKET_COUNTER_EN"
  "ub_QCA807X_MMD7_VALID_EGRESS_COUNTER_2 = QCA807X_MMD7_VALID_EGRESS_COUNTER_2"
  "ub_PSGMIIPHY_VCO_CALIBRATION_CTRL_REGISTER_1 = PSGMIIPHY_VCO_CALIBRATION_CTRL_REGISTER_1"
  "ub_PSGMIIPHY_VCO_VAL = PSGMIIPHY_VCO_VAL" "ub_PSGMIIPHY_VCO_RST_VAL = PSGMIIPHY_VCO_RST_VAL"
  "ub_PSGMIIPHY_VCO_CALIBRATION_CTRL_REGISTER_2 = PSGMIIPHY_VCO_CALIBRATION_CTRL_REGISTER_2"
  "ub_PSGMIIPHY_PLL_VCO_RELATED_CTRL = PSGMIIPHY_PLL_VCO_RELATED_CTRL"
  "ub_PSGMIIPHY_PLL_VCO_VAL = PSGMIIPHY_PLL_VCO_VAL" "ub_RGMII_TCSR_ESS_CFG = RGMII_TCSR_ESS_CFG"
  "ub_IPQ40XX_EDMA_TX_RING_SIZE = IPQ4019_EDMA_TX_RING_SIZE"
  "ub_IPQ40XX_EDMA_RSS_TYPE_NONE = IPQ4019_EDMA_RSS_TYPE_NONE" "ub_EDMA_TPD_EOP_SHIFT = EDMA_TPD_EOP_SHIFT"
  "ub_EDMA_TPD_PORT_BITMAP_SHIFT = EDMA_TPD_PORT_BITMAP_SHIFT" "ub_EDMA_PORT_ENABLE_ALL = EDMA_PORT_ENABLE_ALL"
  "ub_EDMA_REG_RX_SW_CONS_IDX_Q x = EDMA_REG_RX_SW_CONS_IDX_Q x"
  "ub_EDMA_REG_TX_SW_CONS_IDX_Q x = EDMA_REG_TX_SW_CONS_IDX_Q x" "ub_EDMA_REG_TPD_IDX_Q x = EDMA_REG_TPD_IDX_Q x"
  "ub_EDMA_REG_TPD_RING_SIZE = EDMA_REG_TPD_RING_SIZE" "ub_EDMA_TPD_RING_SIZE_MASK = EDMA_TPD_RING_SIZE_MASK"
  "ub_EDMA_REG_TPD_BASE_ADDR_Q x = EDMA_REG_TPD_BASE_ADDR_Q x" "ub_EDMA_TPD_PROD_IDX_MASK = EDMA_TPD_PROD_IDX_MASK"
  "ub_EDMA_REG_TX_SRAM_PART = EDMA_REG_TX_SRAM_PART" "ub_EDMA_LOAD_PTR_SHIFT = EDMA_LOAD_PTR_SHIFT"
  "ub_EDMA_REG_TXQ_CTRL = EDMA_REG_TXQ_CTRL" "ub_EDMA_TXQ_CTRL_TXQ_EN = EDMA_TXQ_CTRL_TXQ_EN"
  "ub_EDMA_TXQ_CTRL_TPD_BURST_EN = EDMA_TXQ_CTRL_TPD_BURST_EN"
  "ub_EDMA_TXQ_NUM_TPD_BURST_SHIFT = EDMA_TXQ_NUM_TPD_BURST_SHIFT"
  "ub_EDMA_TXQ_TXF_BURST_NUM_SHIFT = EDMA_TXQ_TXF_BURST_NUM_SHIFT" "ub_EDMA_TXF_BURST = EDMA_TXF_BURST"
  "ub_EDMA_TPD_BURST = EDMA_TPD_BURST" "ub_EDMA_REG_TXF_WATER_MARK = EDMA_REG_TXF_WATER_MARK"
  "ub_EDMA_REG_RSS_IDT x = EDMA_REG_RSS_IDT x" "ub_EDMA_NUM_IDT = EDMA_NUM_IDT"
  "ub_EDMA_RSS_IDT_VALUE = EDMA_RSS_IDT_VALUE" "ub_EDMA_REG_RSS_TYPE = EDMA_REG_RSS_TYPE"
  "ub_EDMA_REG_RFD_BASE_ADDR_Q x = EDMA_REG_RFD_BASE_ADDR_Q x" "ub_EDMA_RFD_BURST = EDMA_RFD_BURST"
  "ub_EDMA_RFD_THR = EDMA_RFD_THR" "ub_EDMA_RFD_LTHR = EDMA_RFD_LTHR"
  "ub_EDMA_REG_RFD_IDX_Q x = EDMA_REG_RFD_IDX_Q x" "ub_EDMA_REG_RX_DESC0 = EDMA_REG_RX_DESC0"
  "ub_EDMA_RFD_RING_SIZE_MASK = EDMA_RFD_RING_SIZE_MASK" "ub_EDMA_RX_BUF_SIZE_MASK = EDMA_RX_BUF_SIZE_MASK"
  "ub_EDMA_RFD_RING_SIZE_SHIFT = EDMA_RFD_RING_SIZE_SHIFT" "ub_EDMA_RX_BUF_SIZE_SHIFT = EDMA_RX_BUF_SIZE_SHIFT"
  "ub_EDMA_REG_RX_DESC1 = EDMA_REG_RX_DESC1" "ub_EDMA_RXQ_RFD_BURST_NUM_SHIFT = EDMA_RXQ_RFD_BURST_NUM_SHIFT"
  "ub_EDMA_RXQ_RFD_PF_THRESH_SHIFT = EDMA_RXQ_RFD_PF_THRESH_SHIFT"
  "ub_EDMA_RXQ_RFD_LOW_THRESH_SHIFT = EDMA_RXQ_RFD_LOW_THRESH_SHIFT" "ub_EDMA_REG_RXQ_CTRL = EDMA_REG_RXQ_CTRL"
  "ub_EDMA_FIFO_THRESH_128_BYTE = EDMA_FIFO_THRESH_128_BYTE" "ub_EDMA_RXQ_CTRL_RMV_VLAN = EDMA_RXQ_CTRL_RMV_VLAN"
  "ub_EDMA_RXQ_CTRL_EN = EDMA_RXQ_CTRL_EN" "ub_REG_MAC_CTRL0 = REG_MAC_CTRL0" "ub_REG_MAC_CTRL1 = REG_MAC_CTRL1"
  "ub_EDMA_RRD7_DESC_VALID = EDMA_RRD7_DESC_VALID"
  by simp_all

end
