(* ===== verification/Drv_Simulation.thy ===== *)
theory Drv_Simulation
  imports Platform
begin

text \<open>
  Two programs side by side. \<open>corres R V m n\<close>: from states related by R the
  programs m and n return values related by V and end in states related by R. The
  locale \<open>io_simulation\<close> is what R has to satisfy for the hardware to answer both
  programs alike; its rules follow the structure of the programs.
\<close>

definition corres ::
  "('s \<Rightarrow> 't \<Rightarrow> bool) \<Rightarrow> ('a \<Rightarrow> 'b \<Rightarrow> bool) \<Rightarrow> ('s, 'a) state \<Rightarrow> ('t, 'b) state \<Rightarrow> bool" where
  "corres R V m n \<longleftrightarrow> (\<forall>s t. R s t \<longrightarrow> V (result m s) (result n t) \<and> R (exec m s) (exec n t))"

lemma corresI:
  assumes "\<And>s t. R s t \<Longrightarrow> V (result m s) (result n t) \<and> R (exec m s) (exec n t)"
  shows "corres R V m n"
  using assms by (simp add: corres_def)

lemma corresD:
  assumes "corres R V m n" and "R s t"
  shows "V (result m s) (result n t)" and "R (exec m s) (exec n t)"
  using assms by (simp_all add: corres_def)

lemma corres_weaken:
  assumes "corres R V m n" and "\<And>x y. V x y \<Longrightarrow> W x y"
  shows "corres R W m n"
  using assms by (simp add: corres_def)

lemma corres_ret: "V x y \<Longrightarrow> corres R V (ret x) (ret y)"
  by (simp add: corres_def)

lemma corres_bind:
  assumes "corres R U m n" and "\<And>x y. U x y \<Longrightarrow> corres R V (f x) (g y)"
  shows "corres R V (State_Monad.bind m f) (State_Monad.bind n g)"
  using assms by (simp add: corres_def)

text \<open>The usual case: both programs continue with the same value.\<close>

lemma corres_bind_eq:
  assumes "corres R (=) m n" and "\<And>x. corres R V (f x) (g x)"
  shows "corres R V (State_Monad.bind m f) (State_Monad.bind n g)"
  by (rule corres_bind [OF assms(1)]) (use assms(2) in simp)

lemma corres_gets_bind:
  assumes "\<And>s t. R s t \<Longrightarrow> U (p s) (q t)" and "\<And>x y. U x y \<Longrightarrow> corres R V (f x) (g y)"
  shows "corres R V (State_Monad.bind (gets p) f) (State_Monad.bind (gets q) g)"
proof (rule corres_bind [where U = U])
  show "corres R U (gets p) (gets q)" using assms(1) by (simp add: corres_def)
qed (rule assms(2))

lemma corres_modify:
  assumes "\<And>s t. R s t \<Longrightarrow> R (f s) (g t)"
  shows "corres R (=) (modify f) (modify g)"
  using assms by (simp add: corres_def)

text \<open>One side ends with a return that the other does not have.\<close>

lemma corres_then_ret:
  assumes "corres R (=) m n" and "\<And>y. V c y"
  shows "corres R V (State_Monad.bind m (\<lambda>_. ret c)) n"
  using assms by (simp add: corres_def)

lemma corres_if:
  assumes "b \<Longrightarrow> corres R V m n" and "\<not> b \<Longrightarrow> corres R V m' n'"
  shows "corres R V (if b then m else m') (if b then n else n')"
  using assms by simp

lemma corres_when_do:
  assumes "b = c" and "c \<Longrightarrow> corres R (=) m n"
  shows "corres R (=) (when_do b m) (when_do c n)"
  using assms by (cases c) (simp_all add: when_do_def corres_ret)

lemma corres_for_each:
  assumes "is = js" and "\<And>i. i \<in> set is \<Longrightarrow> corres R (=) (body i) (body' i)"
  shows "corres R (=) (for_each is body) (for_each js body')"
  using assms(2) unfolding assms(1) [symmetric]
  by (induction "is") (simp_all add: corres_ret corres_bind_eq)

lemma corres_poll_loop_rel:
  assumes "\<And>v w. V v w \<Longrightarrow> corres R V (body v) (body' w)" and "\<And>v w. V v w \<Longrightarrow> ok v = ok' w"
    and "corres R (=) wait wait'" and "V v w"
  shows "corres R (\<lambda>(i, v) (j, w). i = j \<and> V v w) (poll_loop body ok wait n i v) (poll_loop body' ok' wait' n i w)"
  using assms(4)
proof (induction n arbitrary: i v w)
  case 0
  then show ?case by (simp add: corres_ret)
next
  case (Suc n)
  show ?case unfolding poll_loop.simps
  proof (rule corres_bind [OF assms(1) [OF Suc.prems]])
    fix v' w'
    assume V: "V v' w'"
    show "corres R (\<lambda>(i, v) (j, w). i = j \<and> V v w)
        (if ok v' then ret (i, v') else State_Monad.bind wait (\<lambda>_. poll_loop body ok wait n (Suc i) v'))
        (if ok' w' then ret (i, w') else State_Monad.bind wait' (\<lambda>_. poll_loop body' ok' wait' n (Suc i) w'))"
      unfolding assms(2) [OF V] using V
      by (intro corres_if corres_bind_eq assms(3) Suc.IH) (simp_all add: corres_ret)
  qed
qed

lemma corres_poll_loop:
  assumes "\<And>v. corres R (=) (body v) (body' v)" and "corres R (=) wait wait'"
  shows "corres R (=) (poll_loop body ok wait n i v) (poll_loop body' ok wait' n i v)"
  by (rule corres_weaken [OF corres_poll_loop_rel [where V = "(=)" and ok' = ok]]) (use assms in auto)

lemmas corres_structure = corres_ret corres_bind_eq corres_if corres_when_do corres_for_each corres_poll_loop

section \<open>What the hardware sees\<close>

locale io_simulation =
  fixes R :: "'a io_scheme \<Rightarrow> 'b io_scheme \<Rightarrow> bool"
  assumes same_hist: "R s t \<Longrightarrow> hist s = hist t"
    and same_event: "R s t \<Longrightarrow> R (s\<lparr>hist := e # hist s\<rparr>) (t\<lparr>hist := e # hist t\<rparr>)"
    and left_line: "R s t \<Longrightarrow> R (s\<lparr>console := l # console s\<rparr>) t"
    and right_line: "R s t \<Longrightarrow> R s (t\<lparr>console := l # console t\<rparr>)"
begin

lemma corres_emit: "corres R (=) (emit e) (emit e)"
  by (simp add: corres_def emit_def same_event)

lemma corres_readl: "corres R (=) (readl P a) (readl P a)"
proof (rule corresI)
  fix s t
  assume "R s t"
  then show "result (readl P a) s = result (readl P a) t \<and> R (exec (readl P a) s) (exec (readl P a) t)"
    using same_hist [of s t] same_event [of s t] by (simp add: readl_def emit_def)
qed

lemma corres_readl_at: "a = b \<Longrightarrow> corres R (=) (readl P a) (readl P b)"
  using corres_readl by simp

lemma corres_writel_at: "a = b \<Longrightarrow> v = w \<Longrightarrow> corres R (=) (writel v a) (writel w b)"
  by (simp add: writel_def corres_emit)

lemma corres_delays: "corres R (=) (udelay n) (udelay n)" "corres R (=) (mdelay n) (mdelay n)"
  by (simp_all add: udelay_def mdelay_def corres_emit)

lemma corres_printf: "corres R (=) (printf f xs) (printf g ys)"
proof (rule corresI)
  fix s t
  assume "R s t"
  from right_line [OF left_line [OF this]]
  show "result (printf f xs) s = result (printf g ys) t \<and> R (exec (printf f xs) s) (exec (printf g ys) t)"
    by (simp add: printf_def)
qed

text \<open>Lines that only one of the programs prints.\<close>

lemma corres_left_line:
  assumes "corres R V m n"
  shows "corres R V (State_Monad.bind (printf f xs) (\<lambda>_. m)) n"
  using assms left_line by (fastforce simp: corres_def printf_def)

lemma corres_right_line:
  assumes "corres R V m n"
  shows "corres R V m (State_Monad.bind (printf f xs) (\<lambda>_. n))"
  using assms right_line by (fastforce simp: corres_def printf_def)

lemmas corres_io = corres_readl_at corres_writel_at corres_delays corres_printf

end

end
