(* ===== verification/Uboot_Mdio.thy ===== *)
theory Uboot_Mdio
  imports Uboot_Regs Drv_Simulation
begin

text \<open>
  reference/uboot-mdio-ipq4019.c: the MDIO driver of U-Boot. C's int is a 32-bit
  word. The polling macro \<open>readl_poll_sleep_timeout\<close> belongs to U-Boot and is a
  parameter; the locale \<open>poll_macro\<close> is what its documentation promises.
\<close>

section \<open>The driver\<close>

type_synonym i32 = "32 word"

definition ub_MDIO_MODE_REG :: u32 where [simp]: "ub_MDIO_MODE_REG = 0x40"
definition ub_MDIO_ADDR_REG :: u32 where [simp]: "ub_MDIO_ADDR_REG = 0x44"
definition ub_MDIO_DATA_WRITE_REG :: u32 where [simp]: "ub_MDIO_DATA_WRITE_REG = 0x48"
definition ub_MDIO_DATA_READ_REG :: u32 where [simp]: "ub_MDIO_DATA_READ_REG = 0x4c"
definition ub_MDIO_CMD_REG :: u32 where [simp]: "ub_MDIO_CMD_REG = 0x50"
definition ub_MDIO_CMD_ACCESS_BUSY :: u32 where [simp]: "ub_MDIO_CMD_ACCESS_BUSY = BIT 16"
definition ub_MDIO_CMD_ACCESS_START :: u32 where [simp]: "ub_MDIO_CMD_ACCESS_START = BIT 8"
definition ub_MDIO_CMD_ACCESS_CODE_READ :: u32 where [simp]: "ub_MDIO_CMD_ACCESS_CODE_READ = 0"
definition ub_MDIO_CMD_ACCESS_CODE_WRITE :: u32 where [simp]: "ub_MDIO_CMD_ACCESS_CODE_WRITE = 1"
definition ub_MDIO_MODE_BIT :: u32 where [simp]: "ub_MDIO_MODE_BIT = BIT 8"
definition IPQ4019_MDIO_TIMEOUT :: nat where [simp]: "IPQ4019_MDIO_TIMEOUT = 10000"
definition IPQ4019_MDIO_SLEEP :: nat where [simp]: "IPQ4019_MDIO_SLEEP = 10"

definition ETIMEDOUT :: i32 where [simp]: "ETIMEDOUT = 110"
definition EINVAL :: i32 where [simp]: "EINVAL = 22"
definition FDT_ADDR_T_NONE :: u32 where [simp]: "FDT_ADDR_T_NONE = - 1"

record ipq4019_mdio_priv =
  mp_mdio_base :: u32

text \<open>The macro: address, condition on the value read, sleep and timeout in microseconds.\<close>

type_synonym 'z poll_macro = "u32 \<Rightarrow> (u32 \<Rightarrow> bool) \<Rightarrow> nat \<Rightarrow> nat \<Rightarrow> ('z io_scheme, i32) state"

definition uboot_mdio_wait_busy :: "'z poll_macro \<Rightarrow> ipq4019_mdio_priv \<Rightarrow> ('z io_scheme, i32) state" where
  "uboot_mdio_wait_busy poll mp =
     poll (mp_mdio_base mp + ub_MDIO_CMD_REG) (\<lambda>busy. busy AND ub_MDIO_CMD_ACCESS_BUSY = 0)
       IPQ4019_MDIO_SLEEP IPQ4019_MDIO_TIMEOUT"

definition uboot_mdio_read ::
  "'z poll_macro \<Rightarrow> platform \<Rightarrow> ipq4019_mdio_priv \<Rightarrow> i32 \<Rightarrow> i32 \<Rightarrow> i32 \<Rightarrow> ('z io_scheme, i32) state" where
  "uboot_mdio_read poll P mp adr devad reg = do {
     rc \<leftarrow> uboot_mdio_wait_busy poll mp;
     if rc \<noteq> 0 then ret (- ETIMEDOUT)
     else do {
       writel (push_bit 8 adr OR reg) (mp_mdio_base mp + ub_MDIO_ADDR_REG);
       let cmd = ub_MDIO_CMD_ACCESS_START OR ub_MDIO_CMD_ACCESS_CODE_READ;
       writel cmd (mp_mdio_base mp + ub_MDIO_CMD_REG);
       rc \<leftarrow> uboot_mdio_wait_busy poll mp;
       if rc \<noteq> 0 then ret (- ETIMEDOUT)
       else readl P (mp_mdio_base mp + ub_MDIO_DATA_READ_REG) } }"

definition uboot_mdio_write ::
  "'z poll_macro \<Rightarrow> ipq4019_mdio_priv \<Rightarrow> i32 \<Rightarrow> i32 \<Rightarrow> i32 \<Rightarrow> u16 \<Rightarrow> ('z io_scheme, i32) state" where
  "uboot_mdio_write poll mp adr devad reg val = do {
     rc \<leftarrow> uboot_mdio_wait_busy poll mp;
     if rc \<noteq> 0 then ret (- ETIMEDOUT)
     else do {
       writel (push_bit 8 adr OR reg) (mp_mdio_base mp + ub_MDIO_ADDR_REG);
       writel (ucast val) (mp_mdio_base mp + ub_MDIO_DATA_WRITE_REG);
       let cmd = ub_MDIO_CMD_ACCESS_START OR ub_MDIO_CMD_ACCESS_CODE_WRITE;
       writel cmd (mp_mdio_base mp + ub_MDIO_CMD_REG);
       rc \<leftarrow> uboot_mdio_wait_busy poll mp;
       if rc \<noteq> 0 then ret (- ETIMEDOUT) else ret 0 } }"

text \<open>The address from the device tree is an argument; the result is the return value and the private data.\<close>

definition uboot_mdio_probe ::
  "platform \<Rightarrow> u32 \<Rightarrow> ipq4019_mdio_priv \<Rightarrow> ('z io_scheme, i32 \<times> ipq4019_mdio_priv) state" where
  "uboot_mdio_probe P dev_addr mp = do {
     let mp = mp\<lparr>mp_mdio_base := dev_addr\<rparr>;
     if mp_mdio_base mp = FDT_ADDR_T_NONE then ret (- EINVAL, mp)
     else do {
       data \<leftarrow> readl P (mp_mdio_base mp + ub_MDIO_MODE_REG);
       let data = data AND NOT ub_MDIO_MODE_BIT;
       writel data (mp_mdio_base mp + ub_MDIO_MODE_REG);
       ret (0, mp) } }"

section \<open>The polling macro\<close>

text \<open>
  The macro reads the register, sleeping in between, until the condition holds
  (it returns 0) or the timeout has passed (-ETIMEDOUT); it writes no register.
\<close>

locale poll_macro =
  fixes poll :: "'z poll_macro" and P :: platform
  assumes poll_law: "wp (poll a ok sleep tmo) (\<lambda>r t. \<exists>es. let v = bus_read P (es @ hist s) a in
      t = s\<lparr>hist := Rd a v # es @ hist s\<rparr> \<and> writes es = [] \<and> r = (if ok v then 0 else - ETIMEDOUT)) s"
begin

lemma wp_poll:
  assumes "\<And>es v. writes es = [] \<Longrightarrow>
      Q (if ok v then 0 else - ETIMEDOUT) (s\<lparr>hist := Rd a v # es @ hist s\<rparr>)"
  shows "wp (poll a ok sleep tmo) Q s"
  by (rule wp_mono [OF poll_law]) (auto simp: Let_def intro: assms)

lemma frames_poll: "writes es = [] \<Longrightarrow> mdio_frames (es @ h) = mdio_frames h"
  by (rule mdio_frames_other) simp

text \<open>The controller is where the port expects it.\<close>

lemma wp_uboot_wait_busy:
  assumes "\<And>es rc. writes es = [] \<Longrightarrow> rc = 0 \<or> rc = - ETIMEDOUT \<Longrightarrow>
      Q rc (s\<lparr>hist := es @ hist s\<rparr>)"
  shows "wp (uboot_mdio_wait_busy poll mp) Q s"
  unfolding uboot_mdio_wait_busy_def
proof (rule wp_poll, goal_cases)
  case (1 es v)
  then show ?case using assms [of "Rd _ v # es"] by simp
qed

end

text \<open>U-Boot's wait never times out.\<close>

definition uboot_mdio_responsive :: "'z poll_macro \<Rightarrow> ipq4019_mdio_priv \<Rightarrow> bool" where
  "uboot_mdio_responsive poll mp \<longleftrightarrow> (\<forall>s. result (uboot_mdio_wait_busy poll mp) s = 0)"

context poll_macro
begin

lemma wp_uboot_wait_responsive:
  assumes "uboot_mdio_responsive poll mp"
    and "\<And>es. writes es = [] \<Longrightarrow> Q 0 (s\<lparr>hist := es @ hist s\<rparr>)"
  shows "wp (uboot_mdio_wait_busy poll mp) Q s"
proof -
  have "wp (uboot_mdio_wait_busy poll mp) (\<lambda>r t. r = 0 \<longrightarrow> Q r t) s"
    by (rule wp_uboot_wait_busy) (use assms(2) in auto)
  then show ?thesis using assms(1) by (simp add: wp_def uboot_mdio_responsive_def)
qed

lemma wp_uboot_mdio_write:
  assumes "uboot_mdio_responsive poll mp" and "mp_mdio_base mp = IPQ4019_MDIO_BASE"
    and "\<And>es. mdio_frames (es @ hist s) = mdio_frames (hist s) @ [MdioWrite phy reg val] \<Longrightarrow>
      Q 0 (s\<lparr>hist := es @ hist s\<rparr>)"
  shows "wp (uboot_mdio_write poll mp (ucast phy) d (ucast reg) val) Q s"
  unfolding uboot_mdio_write_def Let_def wp_bind
proof (rule wp_uboot_wait_responsive [OF assms(1)])
  fix es :: "event list"
  assume es: "writes es = []"
  let ?a = "push_bit 8 (ucast phy) OR ucast reg :: u32"
  let ?tx = "[Wr 0x90050 0x101, Wr 0x90048 (ucast val), Wr 0x90044 ?a]"
  have "wp (uboot_mdio_wait_busy poll mp) (\<lambda>rc. wp (if rc \<noteq> 0 then ret (- ETIMEDOUT) else ret 0) Q)
      (s\<lparr>hist := ?tx @ es @ hist s\<rparr>)"
  proof (rule wp_uboot_wait_responsive [OF assms(1)])
    fix es' :: "event list"
    assume es': "writes es' = []"
    have "mdio_frames ((es' @ ?tx @ es) @ hist s) = mdio_frames (hist s) @ [MdioWrite phy reg val]"
      using frames_poll [OF es] frames_poll [OF es']
      by (simp add: mdio_frame_of_def latched_def Let_def)
    from assms(3) [OF this]
    show "wp (if (0 :: i32) \<noteq> 0 then ret (- ETIMEDOUT) else ret 0) Q
        (s\<lparr>hist := ?tx @ es @ hist s, hist := es' @ hist (s\<lparr>hist := ?tx @ es @ hist s\<rparr>)\<rparr>)"
      by simp
  qed
  then show "wp (if (0 :: i32) \<noteq> 0 then ret (- ETIMEDOUT)
      else do {
        writel ?a (mp_mdio_base mp + ub_MDIO_ADDR_REG);
        writel (ucast val) (mp_mdio_base mp + ub_MDIO_DATA_WRITE_REG);
        writel (ub_MDIO_CMD_ACCESS_START OR ub_MDIO_CMD_ACCESS_CODE_WRITE) (mp_mdio_base mp + ub_MDIO_CMD_REG);
        rc \<leftarrow> uboot_mdio_wait_busy poll mp;
        if rc \<noteq> 0 then ret (- ETIMEDOUT) else ret 0 }) Q (s\<lparr>hist := es @ hist s\<rparr>)"
    using assms(2) by simp
qed

lemma wp_uboot_mdio_read:
  assumes "uboot_mdio_responsive poll mp" and "mp_mdio_base mp = IPQ4019_MDIO_BASE"
    and "\<And>es d. mdio_frames (es @ hist s) = mdio_frames (hist s) @ [MdioRead phy reg] \<Longrightarrow>
      d = bus_read P (es @ hist s) (mdio_base + MDIO_DATA_READ_REG) \<Longrightarrow>
      Q d (s\<lparr>hist := Rd (mdio_base + MDIO_DATA_READ_REG) d # es @ hist s\<rparr>)"
  shows "wp (uboot_mdio_read poll P mp (ucast phy) d (ucast reg)) Q s"
  unfolding uboot_mdio_read_def Let_def wp_bind
proof (rule wp_uboot_wait_responsive [OF assms(1)])
  fix es :: "event list"
  assume es: "writes es = []"
  let ?a = "push_bit 8 (ucast phy) OR ucast reg :: u32"
  let ?tx = "[Wr 0x90050 0x100, Wr 0x90044 ?a]"
  have "wp (uboot_mdio_wait_busy poll mp) (\<lambda>rc. wp (if rc \<noteq> 0 then ret (- ETIMEDOUT)
      else readl P (mp_mdio_base mp + ub_MDIO_DATA_READ_REG)) Q) (s\<lparr>hist := ?tx @ es @ hist s\<rparr>)"
  proof (rule wp_uboot_wait_responsive [OF assms(1)])
    fix es' :: "event list"
    assume es': "writes es' = []"
    have "mdio_frames ((es' @ ?tx @ es) @ hist s) = mdio_frames (hist s) @ [MdioRead phy reg]"
      using frames_poll [OF es] frames_poll [OF es']
      by (simp add: mdio_frame_of_def latched_def Let_def)
    from assms(3) [OF this refl]
    show "wp (if (0 :: i32) \<noteq> 0 then ret (- ETIMEDOUT)
        else readl P (mp_mdio_base mp + ub_MDIO_DATA_READ_REG)) Q
        (s\<lparr>hist := ?tx @ es @ hist s, hist := es' @ hist (s\<lparr>hist := ?tx @ es @ hist s\<rparr>)\<rparr>)"
      using assms(2) by (simp add: wp_readl)
  qed
  then show "wp (if (0 :: i32) \<noteq> 0 then ret (- ETIMEDOUT)
      else do {
        writel ?a (mp_mdio_base mp + ub_MDIO_ADDR_REG);
        writel (ub_MDIO_CMD_ACCESS_START OR ub_MDIO_CMD_ACCESS_CODE_READ) (mp_mdio_base mp + ub_MDIO_CMD_REG);
        rc \<leftarrow> uboot_mdio_wait_busy poll mp;
        if rc \<noteq> 0 then ret (- ETIMEDOUT) else readl P (mp_mdio_base mp + ub_MDIO_DATA_READ_REG) }) Q
      (s\<lparr>hist := es @ hist s\<rparr>)"
    using assms(2) by simp
qed

end

section \<open>Against the port\<close>

text \<open>The state of the PHYs, which were in state b at the start.\<close>

definition phys_of :: "(u8 \<Rightarrow> phy_regs) \<Rightarrow> 'z io_scheme \<Rightarrow> u8 \<Rightarrow> phy_regs" where
  "phys_of b s = wire_run b (mdio_frames (hist s))"

text \<open>Both programs have left the PHYs in the same state.\<close>

definition wire_rel :: "(u8 \<Rightarrow> phy_regs) \<Rightarrow> 'a io_scheme \<Rightarrow> 'b io_scheme \<Rightarrow> bool" where
  "wire_rel b s t \<longleftrightarrow> phys_of b s = phys_of b t"

text \<open>What a PHY that answers sends back.\<close>

lemma mdio_answer:
  assumes "mdio_answers P b" and "mdio_frames h = fs @ [MdioRead phy reg]"
  shows "ucast (bus_read P h (mdio_base + MDIO_DATA_READ_REG)) = phy_load reg (wire_run b fs phy)"
  using assms unfolding mdio_answers_def by blast

lemma wp_port_write:
  assumes "mdio_responsive P"
  shows "wp (ipq4019_mdio_write P phy reg val)
    (\<lambda>r t. r = 0 \<and> mdio_frames (hist t) = mdio_frames (hist s) @ [MdioWrite phy reg val]) s"
  by (rule wp_mdio_write_responsive [OF assms]) simp

lemma wp_port_read:
  assumes "mdio_responsive P" and "mdio_answers P b"
  shows "wp (ipq4019_mdio_read P phy reg val)
    (\<lambda>r t. r = (0, phy_load reg (wire_run b (mdio_frames (hist s)) phy)) \<and>
      mdio_frames (hist t) = mdio_frames (hist s) @ [MdioRead phy reg]) s"
  by (rule wp_mdio_read)
    (simp_all add: responsive_idle [OF assms(1)] mdio_answer [OF assms(2), simplified])

text \<open>
  C23: on a controller that keeps up, reads and writes of the two MDIO drivers send
  the same frame and report success alike, and on PHYs that answer a read gives
  both the same 16 bits, wherever U-Boot's polling macro finds the controller done.
\<close>

theorem mdio_matches_uboot:
  assumes "poll_macro poll P" and "uboot_mdio_responsive poll mp" and "mp_mdio_base mp = IPQ4019_MDIO_BASE"
    and "mdio_responsive P" and "mdio_answers P b" and "wire_rel b s t"
  shows "let s' = exec (uboot_mdio_write poll mp (ucast phy) d (ucast reg) val) s;
      t' = exec (ipq4019_mdio_write P phy reg val) t;
      s'' = exec (uboot_mdio_read poll P mp (ucast phy) d (ucast reg)) s;
      t'' = exec (ipq4019_mdio_read P phy reg v) t
    in result (uboot_mdio_write poll mp (ucast phy) d (ucast reg) val) s = 0 \<and>
      result (ipq4019_mdio_write P phy reg val) t = 0 \<and>
      mdio_frames (hist s') = mdio_frames (hist s) @ [MdioWrite phy reg val] \<and>
      mdio_frames (hist t') = mdio_frames (hist t) @ [MdioWrite phy reg val] \<and> wire_rel b s' t' \<and>
      result (ipq4019_mdio_read P phy reg v) t =
        (0, ucast (result (uboot_mdio_read poll P mp (ucast phy) d (ucast reg)) s)) \<and>
      mdio_frames (hist s'') = mdio_frames (hist s) @ [MdioRead phy reg] \<and>
      mdio_frames (hist t'') = mdio_frames (hist t) @ [MdioRead phy reg] \<and> wire_rel b s'' t''"
proof -
  have w: "wp (uboot_mdio_write poll mp (ucast phy) d (ucast reg) val)
      (\<lambda>r s'. r = 0 \<and> mdio_frames (hist s') = mdio_frames (hist s) @ [MdioWrite phy reg val]) s"
    by (rule poll_macro.wp_uboot_mdio_write [OF assms(1-3)]) simp
  have r: "wp (uboot_mdio_read poll P mp (ucast phy) d (ucast reg))
      (\<lambda>r s'. ucast r = phy_load reg (wire_run b (mdio_frames (hist s)) phy) \<and>
        mdio_frames (hist s') = mdio_frames (hist s) @ [MdioRead phy reg]) s"
    by (rule poll_macro.wp_uboot_mdio_read [OF assms(1-3)])
      (simp add: mdio_answer [OF assms(5), simplified])
  show ?thesis
    using w r wp_port_write [OF assms(4), of phy reg val t] wp_port_read [OF assms(4,5), of phy reg v t] assms(6)
    by (simp add: Let_def wp_def wire_rel_def phys_of_def)
qed

text \<open>A polling macro: as many reads as the timeout has sleeps, and a last one.\<close>

primrec poll_reads :: "platform \<Rightarrow> u32 \<Rightarrow> (u32 \<Rightarrow> bool) \<Rightarrow> nat \<Rightarrow> nat \<Rightarrow> ('z io_scheme, i32) state" where
  "poll_reads P a ok sleep 0 = do { v \<leftarrow> readl P a; ret (if ok v then 0 else - ETIMEDOUT) }"
| "poll_reads P a ok sleep (Suc n) = do {
     v \<leftarrow> readl P a;
     if ok v then ret 0 else do { udelay sleep; poll_reads P a ok sleep n } }"

definition sample_poll :: "platform \<Rightarrow> 'z poll_macro" where
  "sample_poll P a ok sleep tmo = poll_reads P a ok sleep (tmo div sleep)"

lemma wp_poll_reads:
  "wp (poll_reads P a ok sleep n) (\<lambda>r t. \<exists>es. let v = bus_read P (es @ hist s) a in
      t = s\<lparr>hist := Rd a v # es @ hist s\<rparr> \<and> writes es = [] \<and> r = (if ok v then 0 else - ETIMEDOUT)) s"
proof (induction n arbitrary: s)
  case 0
  show ?case by (auto simp: wp_readl intro!: exI [of _ "[]"])
next
  case (Suc n)
  let ?v = "bus_read P (hist s) a"
  show ?case
  proof (cases "ok ?v")
    case True
    then show ?thesis by (auto simp: wp_readl intro!: exI [of _ "[]"])
  next
    case False
    let ?es = "\<lambda>es. es @ [Udelay sleep, Rd a ?v]"
    have "wp (poll_reads P a ok sleep n) (\<lambda>r t. \<exists>es. let v = bus_read P (es @ hist s) a in
        t = s\<lparr>hist := Rd a v # es @ hist s\<rparr> \<and> writes es = [] \<and> r = (if ok v then 0 else - ETIMEDOUT))
      (s\<lparr>hist := Udelay sleep # Rd a ?v # hist s\<rparr>)"
      by (rule wp_mono [OF Suc]) (force simp: Let_def intro: exI [of _ "?es _"])
    then show ?thesis using False by (simp add: wp_readl)
  qed
qed

interpretation sample_poll: poll_macro "sample_poll P" P for P
  by unfold_locales (simp only: sample_poll_def wp_poll_reads)

lemma poll_reads_first: "ok (bus_read P (hist s) a) \<Longrightarrow> result (poll_reads P a ok sleep n) s = 0"
  by (cases n) (simp_all add: readl_def emit_def)

lemma sample_poll_responsive:
  "uboot_mdio_responsive (sample_poll (phy_platform b)) \<lparr>mp_mdio_base = IPQ4019_MDIO_BASE\<rparr>"
  by (simp add: uboot_mdio_responsive_def uboot_mdio_wait_busy_def sample_poll_def phy_platform_def poll_reads_first)

theorem mdio_matches_uboot_witness:
  "ucast (result (uboot_mdio_read (sample_poll (phy_platform one_link)) (phy_platform one_link)
      \<lparr>mp_mdio_base = IPQ4019_MDIO_BASE\<rparr> 3 0 0x11) boot_io) =
    snd (result (ipq4019_mdio_read (phy_platform one_link) 3 0x11 0) boot_io)"
  using mdio_matches_uboot [where phy = 3 and reg = "0x11" and d = 0 and v = 0, OF sample_poll.poll_macro_axioms sample_poll_responsive _
      phy_platform_responsive phy_platform_answers, of one_link boot_io boot_io]
  by (simp add: Let_def wire_rel_def)

end
