(* ===== verification/Uboot_Essedma.thy ===== *)
theory Uboot_Essedma
  imports Uboot_Regs
begin

text \<open>
  reference/uboot-essedma.c: the U-Boot driver that ipq4019.c was made from, its
  switch functions, its EDMA engine and its eth_ops. What U-Boot itself provides
  is in \<open>uboot_cfg\<close> (constants of U-Boot's configuration) and in the platform;
  the contents of the two descriptor rings and the address list net_rx_packets of
  U-Boot's network core are part of the state.
\<close>

section \<open>State\<close>

record uboot_cfg =
  PKTSIZE_ALIGN :: nat
  PKTALIGN :: nat
  PKTBUFSRX :: nat
  ARCH_DMA_MINALIGN :: nat
  CONFIG_SYS_CACHELINE_SIZE :: nat

definition EDMA_MAX_PKT_SIZE :: "uboot_cfg \<Rightarrow> nat" where
  "EDMA_MAX_PKT_SIZE C = PKTSIZE_ALIGN C + PKTALIGN C"

definition ub_EDMA_RXQ_ID :: nat where [simp]: "ub_EDMA_RXQ_ID = 0"
definition ub_EDMA_TXQ_ID :: nat where [simp]: "ub_EDMA_TXQ_ID = 0"

record edma_ring =
  er_count :: u16
  er_hw_desc :: u32
  er_hw_size :: u32
  er_dma :: u32
  er_head :: u16
  er_tail :: u16

text \<open>A PHY device is its MDIO address, a node of the device tree its number.\<close>

record ess_switch =
  sw_base :: u32
  phydev :: "u8 list"
  phy_mask :: u32
  ports_node :: int
  port_wrapper_mode :: int
  num_phy :: int

record essedma_priv =
  ep_base :: u32
  ep_esw :: ess_switch
  ep_psgmii_base :: u32
  ep_tpd_ring :: edma_ring
  ep_rfd_ring :: edma_ring

record ubd = io +
  priv :: essedma_priv
  ub_tpds :: "edma_tpd list"
  ub_rfds :: "edma_rfd list"
  ub_rx_packets :: "u32 list"
  enetaddr :: "u8 list"

abbreviation upd_priv :: "(essedma_priv \<Rightarrow> essedma_priv) \<Rightarrow> (ubd, unit) state" where
  "upd_priv f \<equiv> modify (\<lambda>s. s\<lparr>priv := f (priv s)\<rparr>)"

abbreviation upd_tpd_ring :: "(edma_ring \<Rightarrow> edma_ring) \<Rightarrow> (ubd, unit) state" where
  "upd_tpd_ring f \<equiv> upd_priv (ep_tpd_ring_update f)"

abbreviation upd_rfd_ring :: "(edma_ring \<Rightarrow> edma_ring) \<Rightarrow> (ubd, unit) state" where
  "upd_rfd_ring f \<equiv> upd_priv (ep_rfd_ring_update f)"

definition ub_store_tpd :: "nat \<Rightarrow> edma_tpd \<Rightarrow> (ubd, unit) state" where
  "ub_store_tpd k d = do {
     n \<leftarrow> gets (\<lambda>s. length (ub_tpds s));
     if k < n then do { modify (\<lambda>s. s\<lparr>ub_tpds := (ub_tpds s)[k := d]\<rparr>); emit (StTpd k d) }
     else undefined_behaviour }"

definition ub_store_rfd :: "nat \<Rightarrow> edma_rfd \<Rightarrow> (ubd, unit) state" where
  "ub_store_rfd k d = do {
     n \<leftarrow> gets (\<lambda>s. length (ub_rfds s));
     if k < n then do { modify (\<lambda>s. s\<lparr>ub_rfds := (ub_rfds s)[k := d]\<rparr>); emit (StRfd k d) }
     else undefined_behaviour }"

definition ub_load_rx_packet :: "nat \<Rightarrow> (ubd, u32) state" where
  "ub_load_rx_packet k = do {
     ps \<leftarrow> gets ub_rx_packets;
     if k < length ps then ret (ps ! k) else do { undefined_behaviour; ret 0 } }"

text \<open>U-Boot's cache operations take a start and an end address.\<close>

definition flush_dcache_range :: "u32 \<Rightarrow> u32 \<Rightarrow> (ubd, unit) state" where
  "flush_dcache_range a b = emit (Clean a (unat (b - a)))"

definition invalidate_dcache_range :: "u32 \<Rightarrow> u32 \<Rightarrow> (ubd, unit) state" where
  "invalidate_dcache_range a b = emit (Inval a (unat (b - a)))"

definition wmb :: "(ubd, unit) state" where
  "wmb = emit Dsb"

section \<open>The switch\<close>

definition uboot_esw_port_loopback_set :: "platform \<Rightarrow> nat \<Rightarrow> bool \<Rightarrow> (ubd, unit) state" where
  "uboot_esw_port_loopback_set P port enable = do {
     p \<leftarrow> gets priv;
     let b = sw_base (ep_esw p);
     t \<leftarrow> readl P (b + ub_ESS_PORT_LOOKUP_CTRL port);
     let t = (if enable then t OR ub_ESS_PORT_LOOP_BACK_EN else t AND NOT ub_ESS_PORT_LOOP_BACK_EN);
     writel t (b + ub_ESS_PORT_LOOKUP_CTRL port) }"

definition uboot_esw_port_loopback_set_all :: "platform \<Rightarrow> bool \<Rightarrow> (ubd, unit) state" where
  "uboot_esw_port_loopback_set_all P enable =
     for_each [1..<ub_ESS_PORTS_NUM] (\<lambda>i. uboot_esw_port_loopback_set P i enable)"

text \<open>The default branches of the two switches on i, which return -EINVAL, are not reached.\<close>

definition uboot_ess_switch_disable_lookup :: "platform \<Rightarrow> (ubd, int) state" where
  "uboot_ess_switch_disable_lookup P = do {
     p \<leftarrow> gets priv;
     let b = sw_base (ep_esw p);
     for_each [0..<ub_ESS_PORTS_NUM] (\<lambda>i. do {
       val \<leftarrow> readl P (b + ub_ESS_PORT_LOOKUP_CTRL i);
       let val = val AND NOT ub_ESS_PORT_VID_MEM_MASK;
       let vid = (if i = 0 \<or> i = 5 then 0 else GENMASK 4 1 AND NOT (BIT i));
       let val = val OR FIELD_PREP ub_ESS_PORT_VID_MEM_MASK vid;
       writel val (b + ub_ESS_PORT_LOOKUP_CTRL i) });
     writel 0x3e3e3e (b + ub_ESS_GLOBAL_FW_CTRL1);
     ret 0 }"

definition uboot_ess_switch_enable_lookup :: "platform \<Rightarrow> (ubd, int) state" where
  "uboot_ess_switch_enable_lookup P = do {
     p \<leftarrow> gets priv;
     let b = sw_base (ep_esw p);
     for_each [0..<ub_ESS_PORTS_NUM] (\<lambda>i. do {
       val \<leftarrow> readl P (b + ub_ESS_PORT_LOOKUP_CTRL i);
       let val = val AND NOT ub_ESS_PORT_VID_MEM_MASK;
       let vid = (if i = 0 then GENMASK 5 1 else if i = 5 then BIT 0 else GENMASK 4 0 AND NOT (BIT i));
       let val = val OR FIELD_PREP ub_ESS_PORT_VID_MEM_MASK vid;
       writel val (b + ub_ESS_PORT_LOOKUP_CTRL i) });
     writel 0x3f3f3f (b + ub_ESS_GLOBAL_FW_CTRL1);
     ret 0 }"

text \<open>The HOL_CTRL0 value of port i.\<close>

definition uboot_hol_ctrl0 :: "nat \<Rightarrow> u32" where
  "uboot_hol_ctrl0 i =
    (let val = 0 OR FIELD_PREP ub_EG_PORT_QUEUE_NUM_MASK 30;
         val = (if i = 0 \<or> i = 5
                then val OR FIELD_PREP ub_EG_PRI5_QUEUE_NUM_MASK 4 OR FIELD_PREP ub_EG_PRI4_QUEUE_NUM_MASK 4
                else val)
     in val OR FIELD_PREP ub_EG_PRI3_QUEUE_NUM_MASK 4 OR FIELD_PREP ub_EG_PRI2_QUEUE_NUM_MASK 4 OR
        FIELD_PREP ub_EG_PRI1_QUEUE_NUM_MASK 4 OR FIELD_PREP ub_EG_PRI0_QUEUE_NUM_MASK 4)"

definition uboot_ess_switch_init :: "platform \<Rightarrow> (ubd, unit) state" where
  "uboot_ess_switch_init P = do {
     p \<leftarrow> gets priv;
     let b = sw_base (ep_esw p);
     writel 0x3e3e3e (b + ub_ESS_GLOBAL_FW_CTRL1);
     let val = 0 AND NOT ub_ESS_PORT_SPEED_MASK;
     let val = val OR FIELD_PREP ub_ESS_PORT_SPEED_MASK ub_ESS_PORT_SPEED_1000;
     let val = val OR ub_ESS_PORT_DUPLEX_MODE;
     let val = val OR ub_ESS_PORT_TX_FLOW_EN;
     let val = val OR ub_ESS_PORT_RX_FLOW_EN;
     writel val (b + ub_ESS_PORT0_STATUS);
     for_each [0..<ub_ESS_PORTS_NUM] (\<lambda>i. do {
       val \<leftarrow> readl P (b + ub_ESS_PORT_LOOKUP_CTRL i);
       let val = val AND NOT ub_ESS_PORT_VID_MEM_MASK;
       writel val (b + ub_ESS_PORT_LOOKUP_CTRL i) });
     for_each [0..<ub_ESS_PORTS_NUM] (\<lambda>i. do {
       writel (uboot_hol_ctrl0 i) (b + ub_ESS_PORT_HOL_CTRL0 i);
       val \<leftarrow> readl P (b + ub_ESS_PORT_HOL_CTRL1 i);
       let val = val AND NOT ub_ESS_ING_BUF_NUM_0_MASK;
       let val = val OR FIELD_PREP ub_ESS_ING_BUF_NUM_0_MASK 6;
       writel val (b + ub_ESS_PORT_HOL_CTRL1 i) });
     mdelay 1;
     val \<leftarrow> readl P (b + ub_ESS_PORT0_STATUS);
     let val = val OR ub_ESS_PORT_TXMAC_EN;
     let val = val OR ub_ESS_PORT_RXMAC_EN;
     writel val (b + ub_ESS_PORT0_STATUS);
     writel 0x7f7f7f (b + ub_ESS_GLOBAL_FW_CTRL1) }"

section \<open>The EDMA engine\<close>

definition ipq40xx_edma_start_rx_tx :: "platform \<Rightarrow> (ubd, unit) state" where
  "ipq40xx_edma_start_rx_tx P = do {
     p \<leftarrow> gets priv;
     data \<leftarrow> readl P (ep_base p + ub_EDMA_REG_RXQ_CTRL);
     let data = data OR ub_EDMA_RXQ_CTRL_EN;
     writel data (ep_base p + ub_EDMA_REG_RXQ_CTRL);
     data \<leftarrow> readl P (ep_base p + ub_EDMA_REG_TXQ_CTRL);
     let data = data OR ub_EDMA_TXQ_CTRL_TXQ_EN;
     writel data (ep_base p + ub_EDMA_REG_TXQ_CTRL) }"

definition ipq40xx_edma_init_desc :: "platform \<Rightarrow> uboot_cfg \<Rightarrow> (ubd, unit) state" where
  "ipq40xx_edma_init_desc P C = do {
     p \<leftarrow> gets priv;
     writel (er_dma (ep_tpd_ring p) AND 0xffffffff) (ep_base p + ub_EDMA_REG_TPD_BASE_ADDR_Q ub_EDMA_TXQ_ID);
     data \<leftarrow> readl P (ep_base p + ub_EDMA_REG_TPD_IDX_Q ub_EDMA_TXQ_ID);
     let hw_cons_idx = (ucast (FIELD_GET ub_EDMA_TPD_CONS_IDX_MASK data) :: u16);
     upd_tpd_ring (er_head_update (\<lambda>_. hw_cons_idx));
     upd_tpd_ring (er_tail_update (\<lambda>_. hw_cons_idx));
     let data = data AND NOT ub_EDMA_TPD_PROD_IDX_MASK;
     let data = data OR ucast hw_cons_idx;
     writel data (ep_base p + ub_EDMA_REG_TPD_IDX_Q ub_EDMA_TXQ_ID);
     writel (ucast hw_cons_idx) (ep_base p + ub_EDMA_REG_TX_SW_CONS_IDX_Q ub_EDMA_TXQ_ID);
     writel (ucast (er_count (ep_tpd_ring p)) AND ub_EDMA_TPD_RING_SIZE_MASK) (ep_base p + ub_EDMA_REG_TPD_RING_SIZE);
     writel (er_dma (ep_rfd_ring p) AND 0xffffffff) (ep_base p + ub_EDMA_REG_RFD_BASE_ADDR_Q ub_EDMA_RXQ_ID);
     data \<leftarrow> readl P (ep_base p + ub_EDMA_REG_RFD_BASE_ADDR_Q ub_EDMA_RXQ_ID);
     let data = push_bit ub_EDMA_RFD_RING_SIZE_SHIFT (ucast (er_count (ep_rfd_ring p)) AND ub_EDMA_RFD_RING_SIZE_MASK);
     let data = data OR push_bit ub_EDMA_RX_BUF_SIZE_SHIFT (of_nat (EDMA_MAX_PKT_SIZE C) AND ub_EDMA_RX_BUF_SIZE_MASK);
     writel data (ep_base p + ub_EDMA_REG_RX_DESC0);
     writel 0 (ep_base p + ub_EDMA_REG_TXF_WATER_MARK);
     data \<leftarrow> readl P (ep_base p + ub_EDMA_REG_TX_SRAM_PART);
     let data = data OR push_bit ub_EDMA_LOAD_PTR_SHIFT 1;
     writel data (ep_base p + ub_EDMA_REG_TX_SRAM_PART) }"

definition ipq40xx_edma_init_rfd_ring :: "platform \<Rightarrow> (ubd, unit) state" where
  "ipq40xx_edma_init_rfd_ring P = do {
     p \<leftarrow> gets priv;
     let n = er_count (ep_rfd_ring p);
     for_each [0..<unat n] (\<lambda>i. do {
       b \<leftarrow> ub_load_rx_packet i;
       ub_store_rfd i \<lparr>buffer_addr = phys P b\<rparr> });
     flush_dcache_range (er_dma (ep_rfd_ring p)) (er_dma (ep_rfd_ring p) + er_hw_size (ep_rfd_ring p));
     upd_rfd_ring (er_head_update (\<lambda>_. n - 1));
     p \<leftarrow> gets priv;
     writel (ucast (er_head (ep_rfd_ring p))) (ep_base p + ub_EDMA_REG_RFD_IDX_Q ub_EDMA_RXQ_ID) }"

definition ipq40xx_edma_configure :: "(ubd, unit) state" where
  "ipq40xx_edma_configure = do {
     p \<leftarrow> gets priv;
     writel ub_IPQ40XX_EDMA_RSS_TYPE_NONE (ep_base p + ub_EDMA_REG_RSS_TYPE);
     for_each [0..<ub_EDMA_NUM_IDT] (\<lambda>i. writel ub_EDMA_RSS_IDT_VALUE (ep_base p + ub_EDMA_REG_RSS_IDT i));
     let tmp = push_bit ub_EDMA_RXQ_RFD_BURST_NUM_SHIFT ub_EDMA_RFD_BURST;
     let tmp = tmp OR push_bit ub_EDMA_RXQ_RFD_PF_THRESH_SHIFT ub_EDMA_RFD_THR;
     let tmp = tmp OR push_bit ub_EDMA_RXQ_RFD_LOW_THRESH_SHIFT ub_EDMA_RFD_LTHR;
     writel tmp (ep_base p + ub_EDMA_REG_RX_DESC1);
     let tmp = ub_EDMA_FIFO_THRESH_128_BYTE;
     let tmp = tmp OR ub_EDMA_RXQ_CTRL_RMV_VLAN;
     writel tmp (ep_base p + ub_EDMA_REG_RXQ_CTRL);
     let tmp = push_bit ub_EDMA_TXQ_NUM_TPD_BURST_SHIFT ub_EDMA_TPD_BURST;
     let tmp = tmp OR ub_EDMA_TXQ_CTRL_TPD_BURST_EN;
     let tmp = tmp OR push_bit ub_EDMA_TXQ_TXF_BURST_NUM_SHIFT ub_EDMA_TXF_BURST;
     writel tmp (ep_base p + ub_EDMA_REG_TXQ_CTRL) }"

definition ipq40xx_edma_stop_rx_tx :: "platform \<Rightarrow> (ubd, unit) state" where
  "ipq40xx_edma_stop_rx_tx P = do {
     p \<leftarrow> gets priv;
     data \<leftarrow> readl P (ep_base p + ub_EDMA_REG_RXQ_CTRL);
     let data = data AND NOT ub_EDMA_RXQ_CTRL_EN;
     writel data (ep_base p + ub_EDMA_REG_RXQ_CTRL);
     data \<leftarrow> readl P (ep_base p + ub_EDMA_REG_TXQ_CTRL);
     let data = data AND NOT ub_EDMA_TXQ_CTRL_TXQ_EN;
     writel data (ep_base p + ub_EDMA_REG_TXQ_CTRL) }"

section \<open>Receive\<close>

definition EAGAIN :: int where [simp]: "EAGAIN = 11"
definition ENOMEM :: int where [simp]: "ENOMEM = 12"

text \<open>The result is the return value and what is stored at \<open>*packetp\<close>, if anything.\<close>

definition ipq40xx_eth_recv :: "platform \<Rightarrow> uboot_cfg \<Rightarrow> (ubd, int \<times> u32 option) state" where
  "ipq40xx_eth_recv P C = do {
     p \<leftarrow> gets priv;
     hw_tail \<leftarrow> readl P (ep_base p + ub_EDMA_REG_RFD_IDX_Q ub_EDMA_RXQ_ID);
     let hw_tail = FIELD_GET ub_EDMA_RFD_CONS_IDX_MASK hw_tail;
     if hw_tail = ucast (er_tail (ep_rfd_ring p)) then ret (- EAGAIN, None)
     else do {
       rx_pkt \<leftarrow> ub_load_rx_packet (unat (er_tail (ep_rfd_ring p)));
       invalidate_dcache_range rx_pkt (rx_pkt + of_nat (EDMA_MAX_PKT_SIZE C));
       h \<leftarrow> gets hist;
       let rrd = load_rrd (\<lambda>k. mem_load P h (rx_pkt + of_nat k));
       if rrd7 rrd AND ub_EDMA_RRD7_DESC_VALID = 0 then ret (0, None)
       else ret (int (unat (rrd6 rrd)), Some (rx_pkt + of_nat EDMA_RRD_SIZE)) } }"

definition ipq40xx_eth_free_pkt :: "(ubd, int) state" where
  "ipq40xx_eth_free_pkt = do {
     p \<leftarrow> gets priv;
     writel (ucast (er_head (ep_rfd_ring p))) (ep_base p + ub_EDMA_REG_RFD_IDX_Q ub_EDMA_RXQ_ID);
     upd_rfd_ring (\<lambda>r. r\<lparr>er_head := er_head r + 1\<rparr>);
     p \<leftarrow> gets priv;
     when_do (er_head (ep_rfd_ring p) = er_count (ep_rfd_ring p)) (upd_rfd_ring (er_head_update (\<lambda>_. 0)));
     upd_rfd_ring (\<lambda>r. r\<lparr>er_tail := er_tail r + 1\<rparr>);
     p \<leftarrow> gets priv;
     when_do (er_tail (ep_rfd_ring p) = er_count (ep_rfd_ring p)) (upd_rfd_ring (er_tail_update (\<lambda>_. 0)));
     p \<leftarrow> gets priv;
     writel (ucast (er_tail (ep_rfd_ring p))) (ep_base p + ub_EDMA_REG_RX_SW_CONS_IDX_Q ub_EDMA_RXQ_ID);
     ret 0 }"

definition ipq40xx_eth_start :: "platform \<Rightarrow> (ubd, int) state" where
  "ipq40xx_eth_start P = do {
     ipq40xx_edma_init_rfd_ring P;
     ipq40xx_edma_start_rx_tx P;
     _ \<leftarrow> uboot_ess_switch_enable_lookup P;
     ret 0 }"

section \<open>Transmit\<close>

definition ub_EDMA_TPDS_PER_PACKET :: nat where [simp]: "ub_EDMA_TPDS_PER_PACKET = 4"
definition ub_EDMA_TPD_MIN_BYTES :: nat where [simp]: "ub_EDMA_TPD_MIN_BYTES = 4"
definition ub_EDMA_MIN_PKT_SIZE :: nat where [simp]:
  "ub_EDMA_MIN_PKT_SIZE = ub_EDMA_TPDS_PER_PACKET * ub_EDMA_TPD_MIN_BYTES"
definition ub_EDMA_TX_COMPLETE_TIMEOUT :: nat where [simp]: "ub_EDMA_TX_COMPLETE_TIMEOUT = 1000000"

text \<open>One turn of the descriptor loop, with the value \<open>length\<close> has in it.\<close>

definition ub_send_tpd :: "platform \<Rightarrow> u32 \<Rightarrow> int \<Rightarrow> nat \<Rightarrow> (ubd, unit) state" where
  "ub_send_tpd P packet len i = do {
     let frag = packet + of_nat (i * ub_EDMA_TPD_MIN_BYTES);
     p \<leftarrow> gets priv;
     let k = unat (er_head (ep_tpd_ring p));
     upd_tpd_ring (\<lambda>r. r\<lparr>er_head := er_head r + 1\<rparr>);
     p \<leftarrow> gets priv;
     when_do (er_head (ep_tpd_ring p) = er_count (ep_tpd_ring p)) (upd_tpd_ring (er_head_update (\<lambda>_. 0)));
     ub_store_tpd k
       \<lparr>tpd_len = (if i < ub_EDMA_TPDS_PER_PACKET - 1 then of_nat ub_EDMA_TPD_MIN_BYTES else word_of_int len),
        tpd_svlan_tag = 0,
        tpd_word1 = (if i < ub_EDMA_TPDS_PER_PACKET - 1 then 0 else push_bit ub_EDMA_TPD_EOP_SHIFT 1),
        tpd_addr = phys P frag,
        tpd_word3 = push_bit ub_EDMA_TPD_PORT_BITMAP_SHIFT ub_EDMA_PORT_ENABLE_ALL\<rparr> }"

text \<open>The descriptor loop, which decrements \<open>length\<close> in each turn.\<close>

primrec ub_send_tpds :: "platform \<Rightarrow> u32 \<Rightarrow> nat list \<Rightarrow> int \<Rightarrow> (ubd, unit) state" where
  "ub_send_tpds P packet [] len = ret ()"
| "ub_send_tpds P packet (i # is) len = do {
     ub_send_tpd P packet len i;
     ub_send_tpds P packet is (len - int ub_EDMA_TPD_MIN_BYTES) }"

definition ipq40xx_eth_send :: "platform \<Rightarrow> uboot_cfg \<Rightarrow> u32 \<Rightarrow> int \<Rightarrow> (ubd, int) state" where
  "ipq40xx_eth_send P C packet len =
    (if len < int ub_EDMA_MIN_PKT_SIZE then ret 0
     else do {
       flush_dcache_range packet (packet + of_nat (align_up (nat len) (ARCH_DMA_MINALIGN C)));
       p \<leftarrow> gets priv;
       let first = er_hw_desc (ep_tpd_ring p) + of_nat (unat (er_head (ep_tpd_ring p)) * sizeof_tpd);
       ub_send_tpds P packet [0..<ub_EDMA_TPDS_PER_PACKET] len;
       wmb;
       flush_dcache_range first (first + of_nat (ub_EDMA_TPDS_PER_PACKET * sizeof_tpd));
       p \<leftarrow> gets priv;
       writel (ucast (er_head (ep_tpd_ring p))) (ep_base p + ub_EDMA_REG_TPD_IDX_Q ub_EDMA_TXQ_ID);
       (i, r) \<leftarrow> poll_loop (\<lambda>_. readl P (ep_base p + ub_EDMA_REG_TPD_IDX_Q ub_EDMA_TXQ_ID))
         (\<lambda>r. FIELD_GET ub_EDMA_TPD_CONS_IDX_MASK r = FIELD_GET ub_EDMA_TPD_PROD_IDX_MASK r)
         (udelay 1) ub_EDMA_TX_COMPLETE_TIMEOUT 0 0;
       when_do (i = ub_EDMA_TX_COMPLETE_TIMEOUT) (printf ''TX timeout: packet not sent!'' []);
       writel (ucast (er_head (ep_tpd_ring p))) (ep_base p + ub_EDMA_REG_TX_SW_CONS_IDX_Q ub_EDMA_TXQ_ID);
       ret 0 })"

definition ipq40xx_eth_stop :: "platform \<Rightarrow> (ubd, unit) state" where
  "ipq40xx_eth_stop P = do {
     _ \<leftarrow> uboot_ess_switch_disable_lookup P;
     ipq40xx_edma_stop_rx_tx P }"

section \<open>Allocation\<close>

text \<open>Which of the two rings a pointer to a ring points to.\<close>

datatype ring_ptr = TpdRing | RfdRing

primrec ring_at :: "ring_ptr \<Rightarrow> essedma_priv \<Rightarrow> edma_ring" where
  "ring_at TpdRing p = ep_tpd_ring p"
| "ring_at RfdRing p = ep_rfd_ring p"

primrec upd_ring_at :: "ring_ptr \<Rightarrow> (edma_ring \<Rightarrow> edma_ring) \<Rightarrow> (ubd, unit) state" where
  "upd_ring_at TpdRing f = upd_tpd_ring f"
| "upd_ring_at RfdRing f = upd_rfd_ring f"

text \<open>\<open>memset(erd->hw_desc, 0, erd->hw_size)\<close>.\<close>

primrec clear_descs :: "ring_ptr \<Rightarrow> nat \<Rightarrow> (ubd, unit) state" where
  "clear_descs TpdRing n = modify (\<lambda>s. s\<lparr>ub_tpds := replicate n zero_tpd\<rparr>)"
| "clear_descs RfdRing n = modify (\<lambda>s. s\<lparr>ub_rfds := replicate n zero_rfd\<rparr>)"

definition ipq40xx_edma_free_ring :: "ring_ptr \<Rightarrow> (ubd, unit) state" where
  "ipq40xx_edma_free_ring rp = do {
     p \<leftarrow> gets priv;
     emit (Free (er_hw_desc (ring_at rp p))) }"

definition ipq40xx_edma_free_rings :: "(ubd, unit) state" where
  "ipq40xx_edma_free_rings = do {
     ipq40xx_edma_free_ring TpdRing;
     ipq40xx_edma_free_ring RfdRing }"

definition ipq40xx_edma_alloc_ring :: "platform \<Rightarrow> uboot_cfg \<Rightarrow> ring_ptr \<Rightarrow> nat \<Rightarrow> (ubd, int) state" where
  "ipq40xx_edma_alloc_ring P C erd desc_size = do {
     upd_ring_at erd (er_head_update (\<lambda>_. 0));
     upd_ring_at erd (er_tail_update (\<lambda>_. 0));
     p \<leftarrow> gets priv;
     let hw_size = align_up (desc_size * unat (er_count (ring_at erd p))) (ARCH_DMA_MINALIGN C);
     upd_ring_at erd (er_hw_size_update (\<lambda>_. of_nat hw_size));
     a \<leftarrow> xmemalign P (CONFIG_SYS_CACHELINE_SIZE C) hw_size;
     upd_ring_at erd (er_hw_desc_update (\<lambda>_. a));
     if a = 0 then ret (- ENOMEM)
     else do {
       clear_descs erd (unat (er_count (ring_at erd p)));
       upd_ring_at erd (er_dma_update (\<lambda>_. phys P a));
       ret 0 } }"

definition ipq40xx_edma_alloc_tx_rx_rings :: "platform \<Rightarrow> uboot_cfg \<Rightarrow> (ubd, int) state" where
  "ipq40xx_edma_alloc_tx_rx_rings P C = do {
     rc \<leftarrow> ipq40xx_edma_alloc_ring P C TpdRing sizeof_tpd;
     if rc \<noteq> 0 then ret rc
     else do {
       rc \<leftarrow> ipq40xx_edma_alloc_ring P C RfdRing sizeof_rfd;
       if rc \<noteq> 0 then do { ipq40xx_edma_free_ring TpdRing; ret rc }
       else ret 0 } }"

definition ipq40xx_eth_write_hwaddr :: "(ubd, int) state" where
  "ipq40xx_eth_write_hwaddr = do {
     mac \<leftarrow> gets enetaddr;
     p \<leftarrow> gets priv;
     let m = (\<lambda>i. ucast (mac ! i) :: u32);
     let mac_hi = push_bit 8 (m 0) OR m 1;
     let mac_lo = push_bit 24 (m 2) OR push_bit 16 (m 3) OR push_bit 8 (m 4) OR m 5;
     writel mac_lo (ep_base p + ub_REG_MAC_CTRL0);
     writel mac_hi (ep_base p + ub_REG_MAC_CTRL1);
     ret 0 }"

definition edma_init :: "platform \<Rightarrow> uboot_cfg \<Rightarrow> (ubd, int) state" where
  "edma_init P C = do {
     upd_tpd_ring (er_count_update (\<lambda>_. of_nat ub_IPQ40XX_EDMA_TX_RING_SIZE));
     upd_rfd_ring (er_count_update (\<lambda>_. of_nat (PKTBUFSRX C)));
     rc \<leftarrow> ipq40xx_edma_alloc_tx_rx_rings P C;
     if rc \<noteq> 0 then ret (- ENOMEM)
     else do {
       ipq40xx_edma_stop_rx_tx P;
       ipq40xx_edma_configure;
       ipq40xx_edma_init_desc P C;
       _ \<leftarrow> uboot_ess_switch_disable_lookup P;
       ret 0 } }"

end
