(* ===== verification/Uboot_Equiv.thy ===== *)
theory Uboot_Equiv
  imports Uboot_Essedma Drv_Simulation
begin

text \<open>
  The port against the driver it was made from: a relation between the states of
  the two drivers, a simulation for the functions that are the same program, and
  what the two do where the port is different.
\<close>

section \<open>The same device in both drivers\<close>

text \<open>
  \<open>dev_rel P p q\<close>: U-Boot's private data p and the port's device structure q
  describe the same hardware and the same rings with the same indices.
\<close>

definition dev_rel :: "platform \<Rightarrow> essedma_priv \<Rightarrow> IpqEdmaDev \<Rightarrow> bool" where
  "dev_rel P p q \<longleftrightarrow> ep_base p = base q \<and> sw_base (ep_esw p) = esw q \<and>
     er_count (ep_tpd_ring p) = 8 \<and> er_count (ep_rfd_ring p) = 512 \<and>
     er_hw_desc (ep_tpd_ring p) = tpd_ring q \<and> er_hw_desc (ep_rfd_ring p) = rfd_ring q \<and>
     er_dma (ep_tpd_ring p) = phys P (tpd_ring q) \<and> er_dma (ep_rfd_ring p) = phys P (rfd_ring q) \<and>
     er_hw_size (ep_rfd_ring p) = 2048 \<and>
     er_head (ep_tpd_ring p) = tpd_head q \<and> er_tail (ep_tpd_ring p) = tpd_tail q \<and>
     er_head (ep_rfd_ring p) = rfd_head q \<and> er_tail (ep_rfd_ring p) = rfd_tail q"

definition port_rel :: "platform \<Rightarrow> ubd \<Rightarrow> drv \<Rightarrow> bool" where
  "port_rel P s t \<longleftrightarrow> hist s = hist t \<and> ub s = ub t \<and> ub_tpds s = tpd_mem t \<and> ub_rfds s = rfd_mem t \<and>
     ub_rx_packets s = net_rx_packets t \<and> enetaddr s = mac_addr (edma t) \<and> dev_rel P (priv s) (edma t)"

text \<open>Before the receive ring has been used, on a CPU whose RAM is mapped one to one.\<close>

definition fresh_rel :: "platform \<Rightarrow> ubd \<Rightarrow> drv \<Rightarrow> bool" where
  "fresh_rel P s t \<longleftrightarrow> port_rel P s t \<and> rfd_tail (edma t) = 0 \<and> phys P (rfd_ring (edma t)) = rfd_ring (edma t)"

locale device_simulation = io_simulation R
  for R :: "ubd \<Rightarrow> drv \<Rightarrow> bool" +
  fixes P :: platform
  assumes same_dev: "R s t \<Longrightarrow> dev_rel P (priv s) (edma t)"
    and same_mac: "R s t \<Longrightarrow> enetaddr s = mac_addr (edma t)"
begin

lemma corres_dev_bind:
  assumes "\<And>p q. dev_rel P p q \<Longrightarrow> corres R V (f p) (g q)"
  shows "corres R V (State_Monad.bind (gets priv) f) (State_Monad.bind (gets edma) g)"
  by (rule corres_gets_bind [where U = "dev_rel P"]) (simp_all add: same_dev assms)

lemma corres_lookup_modes:
  "corres R (\<lambda>r _. r = 0) (uboot_ess_switch_enable_lookup Q) (ess_switch_enable_lookup Q)"
  "corres R (\<lambda>r _. r = 0) (uboot_ess_switch_disable_lookup Q) (ess_switch_disable_lookup Q)"
  unfolding uboot_ess_switch_enable_lookup_def ess_switch_enable_lookup_def
    uboot_ess_switch_disable_lookup_def ess_switch_disable_lookup_def Let_def
  by (intro corres_dev_bind corres_then_ret corres_structure corres_io; simp add: dev_rel_def cong: if_cong)+

lemma hol_ctrl0_same: "uboot_hol_ctrl0 i = hol_ctrl0 i"
  by (simp add: uboot_hol_ctrl0_def hol_ctrl0_def FIELD_PREP_def)

lemma corres_switch_init: "corres R (=) (uboot_ess_switch_init Q) (ess_switch_init Q)"
  unfolding uboot_ess_switch_init_def ess_switch_init_def Let_def
  by (intro corres_dev_bind corres_structure corres_io) (simp_all add: dev_rel_def hol_ctrl0_same or.assoc)

lemma corres_queues:
  "corres R (=) (ipq40xx_edma_start_rx_tx Q) (edma_start_rx_tx Q)"
  "corres R (=) (ipq40xx_edma_stop_rx_tx Q) (edma_stop_rx_tx Q)"
  "corres R (=) ipq40xx_edma_configure edma_configure"
  unfolding ipq40xx_edma_start_rx_tx_def edma_start_rx_tx_def ipq40xx_edma_stop_rx_tx_def edma_stop_rx_tx_def
    ipq40xx_edma_configure_def edma_configure_def Let_def
  by (intro corres_dev_bind corres_structure corres_io; simp add: dev_rel_def)+

lemma corres_write_hwaddr: "corres R (=) ipq40xx_eth_write_hwaddr ipq4019_eth_write_hwaddr"
proof (rule corresI)
  fix s t
  assume R: "R s t"
  then have dev: "dev_rel P (priv s) (edma t)" and mac: "enetaddr s = mac_addr (edma t)"
    by (rule same_dev, rule same_mac)
  have two: "R (s\<lparr>hist := e # f # hist s\<rparr>) (t\<lparr>hist := e # f # hist t\<rparr>)" for e f
    using same_event [OF same_event [OF R]] by simp
  show "result ipq40xx_eth_write_hwaddr s = result ipq4019_eth_write_hwaddr t \<and>
      R (exec ipq40xx_eth_write_hwaddr s) (exec ipq4019_eth_write_hwaddr t)"
    using two dev mac
    by (simp add: ipq40xx_eth_write_hwaddr_def ipq4019_eth_write_hwaddr_def Let_def writel_def emit_def dev_rel_def)
qed

text \<open>The port's loopback functions use the constant address of the switch.\<close>

lemma corres_loopback:
  assumes "\<And>s t. R s t \<Longrightarrow> esw (edma t) = IPQ4019_ESS_BASE"
  shows "corres R (=) (uboot_esw_port_loopback_set_all Q e) (esw_port_loopback_set_all Q (if e then 1 else 0))"
  unfolding uboot_esw_port_loopback_set_all_def esw_port_loopback_set_all_def
proof (rule corres_for_each)
  fix i
  have "corres R (=) (uboot_esw_port_loopback_set Q i e)
      (State_Monad.bind (gets edma) (\<lambda>_. esw_port_loopback_set Q i (if e then 1 else 0)))"
    unfolding uboot_esw_port_loopback_set_def esw_port_loopback_set_def Let_def
  proof (rule corres_gets_bind [where U = "\<lambda>p _. sw_base (ep_esw p) = IPQ4019_ESS_BASE"])
    show "sw_base (ep_esw (priv s)) = IPQ4019_ESS_BASE" if "R s t" for s t
      using same_dev [OF that] assms [OF that] by (simp add: dev_rel_def)
  qed (intro corres_structure corres_io; simp cong: if_cong)
  then show "corres R (=) (uboot_esw_port_loopback_set Q i e) (esw_port_loopback_set Q i (if e then 1 else 0))"
    by (simp add: corres_def)
qed simp

end

section \<open>The simulation\<close>

lemma port_rel_hist [simp]:
  "port_rel P s t \<Longrightarrow> port_rel P (s\<lparr>hist := es @ hist s\<rparr>) (t\<lparr>hist := es @ hist t\<rparr>)"
  by (simp add: port_rel_def)

interpretation port: device_simulation "port_rel P" P for P
  by unfold_locales (auto simp: port_rel_def)

interpretation fresh: device_simulation "fresh_rel P" P for P
  by unfold_locales (auto simp: fresh_rel_def port_rel_def)

lemma corres_upd_rings:
  assumes "\<And>p q. dev_rel P p q \<Longrightarrow> dev_rel P (f p) (g q) \<and> mac_addr (g q) = mac_addr q"
  shows "corres (port_rel P) (=) (upd_priv f) (upd_edma g)"
  by (rule corres_modify) (use assms in \<open>auto simp: port_rel_def\<close>)

lemma corres_store_tpd: "k = k' \<Longrightarrow> d = d' \<Longrightarrow> corres (port_rel P) (=) (ub_store_tpd k d) (store_tpd k' d')"
  by (rule corresI) (auto simp: port_rel_def ub_store_tpd_def store_tpd_def emit_def undefined_behaviour_def)

lemma corres_send_tpd:
  assumes "i < 3 \<or> word_of_int len = (n :: u16)"
  shows "corres (port_rel P) (=) (ub_send_tpd P packet len i) (send_tpd P packet n i)"
  unfolding ub_send_tpd_def send_tpd_def Let_def
  by (intro port.corres_dev_bind corres_structure corres_upd_rings corres_store_tpd)
    (use assms in \<open>auto simp: dev_rel_def\<close>)

lemma corres_send_tpds:
  "corres (port_rel P) (=) (ub_send_tpds P packet [0..<4] len) (for_each [0..<4] (send_tpd P packet (word_of_int (len - 12))))"
proof -
  have u: "[0..<4] = [0, 1, 2, 3 :: nat]" by (simp add: upt_conv_Cons)
  show ?thesis unfolding u by (simp, intro corres_structure corres_send_tpd) simp_all
qed

section \<open>Start\<close>

lemma corres_load_rx_packet: "corres (fresh_rel P) (=) (ub_load_rx_packet i) (load_rx_packet i)"
  by (rule corresI)
    (auto simp: fresh_rel_def port_rel_def ub_load_rx_packet_def load_rx_packet_def undefined_behaviour_def)

lemma corres_store_rfd: "d = d' \<Longrightarrow> corres (fresh_rel P) (=) (ub_store_rfd k d) (store_rfd k d')"
  by (rule corresI)
    (auto simp: fresh_rel_def port_rel_def ub_store_rfd_def store_rfd_def emit_def undefined_behaviour_def)

lemma corres_init_rfd_ring: "corres (fresh_rel P) (=) (ipq40xx_edma_init_rfd_ring P) (edma_init_rfd_ring P)"
proof (rule corresI)
  fix s t
  assume R: "fresh_rel P s t"
  let ?L = "for_each [0..<512] (\<lambda>i. do { b \<leftarrow> ub_load_rx_packet i; ub_store_rfd i \<lparr>buffer_addr = phys P b\<rparr> })"
  let ?L' = "for_each [0..<512] (\<lambda>i. do { b \<leftarrow> load_rx_packet i; store_rfd i \<lparr>buffer_addr = phys P b\<rparr> })"
  have n: "er_count (ep_rfd_ring (priv s)) = 512"
    using R by (simp add: fresh_rel_def port_rel_def dev_rel_def)
  have "corres (fresh_rel P) (=) ?L ?L'"
    by (intro corres_structure corres_load_rx_packet corres_store_rfd) simp_all
  then have R': "fresh_rel P (exec ?L s) (exec ?L' t)" by (rule corresD) (rule R)
  have "keeps priv ?L"
    by (intro keeps_rules) (simp_all add: ub_load_rx_packet_def ub_store_rfd_def keeps_def emit_def undefined_behaviour_def)
  then have p: "priv s = priv (exec ?L s)" by (simp add: keeps_exec)
  show "result (ipq40xx_edma_init_rfd_ring P) s = result (edma_init_rfd_ring P) t \<and>
      fresh_rel P (exec (ipq40xx_edma_init_rfd_ring P) s) (exec (edma_init_rfd_ring P) t)"
    using R' n unfolding ipq40xx_edma_init_rfd_ring_def edma_init_rfd_ring_def Let_def
    by (simp add: p fresh_rel_def port_rel_def dev_rel_def flush_dcache_range_def flush_range_def
        dcache_clean_invalidate_by_mva_def emit_def writel_def del: upt_rec_numeral)
qed

lemma corres_start:
  "corres (fresh_rel P) (=) (ipq40xx_eth_start P) (ipq4019_eth_start P)"
proof -
  have started: "corres (fresh_rel P) (=) (ret 0 :: (ubd, int) state) (do { upd_edma (\<lambda>p. p\<lparr>started := 1\<rparr>); ret 0 })"
    by (simp add: corres_def fresh_rel_def port_rel_def dev_rel_def)
  show ?thesis unfolding ipq40xx_eth_start_def ipq4019_eth_start_def
    by (intro corres_bind_eq corres_init_rfd_ring fresh.corres_queues)
      (rule corres_bind [OF fresh.corres_lookup_modes(1) started])
qed

section \<open>Receive\<close>

text \<open>
  U-Boot's network core, which is not part of the repository, calls free_pkt
  after recv; \<open>frees\<close> says for which return values of recv.
\<close>

definition uboot_rx :: "platform \<Rightarrow> uboot_cfg \<Rightarrow> (int \<Rightarrow> bool) \<Rightarrow> (ubd, int \<times> u32 option) state" where
  "uboot_rx P C frees = do {
     (r, pkt) \<leftarrow> ipq40xx_eth_recv P C;
     when_do (frees r) (do { _ \<leftarrow> ipq40xx_eth_free_pkt; ret () });
     ret (r, pkt) }"

lemma corres_free_pkt: "corres (port_rel P) (\<lambda>r _. r = 0) ipq40xx_eth_free_pkt rx_recycle"
  unfolding ipq40xx_eth_free_pkt_def rx_recycle_def
  by (intro port.corres_dev_bind corres_then_ret corres_structure port.corres_io corres_upd_rings)
    (auto simp: dev_rel_def)

text \<open>What U-Boot's recv does, in the terms of the port's state t.\<close>

lemma uboot_recv_cases:
  assumes R: "port_rel P s t" and size: "EDMA_MAX_PKT_SIZE C = 2048"
    and tail: "unat (rfd_tail (edma t)) < length (net_rx_packets t)"
  shows "wp (ipq40xx_eth_recv P C) (\<lambda>r s'. case rx_outcome P t of
      RxEmpty \<Rightarrow> r = (- EAGAIN, None) \<and> s' = s\<lparr>hist := tl (rx_looked P t) @ hist s\<rparr>
    | RxInvalid \<Rightarrow> r = (0, None) \<and> s' = s\<lparr>hist := rx_looked P t @ hist s\<rparr>
    | RxFrame \<Rightarrow> r = (int (unat (rrd6 (rx_rrd P t))), Some (rx_buffer t + 16)) \<and>
        s' = s\<lparr>hist := rx_looked P t @ hist s\<rparr>) s"
proof -
  have dev: "ep_base (priv s) = base (edma t)" "er_tail (ep_rfd_ring (priv s)) = rfd_tail (edma t)"
      "ub_rx_packets s = net_rx_packets t" "hist s = hist t"
    using R by (simp_all add: port_rel_def dev_rel_def)
  have rrd: "load_rrd (\<lambda>k. mem_load P (Inval (net_rx_packets t ! unat (rfd_tail (edma t))) 2048 #
      Rd (base (edma t) + 0x9b0) (bus_read P (hist t) (base (edma t) + 0x9b0)) # hist t)
      (net_rx_packets t ! unat (rfd_tail (edma t)) + of_nat k)) = rx_rrd P t"
    by (simp add: rx_rrd_def rx_byte_def [abs_def] rx_looked_def rx_buffer_def)
  show ?thesis
    by (cases "rx_hw_tail P t = ucast (rfd_tail (edma t))"; cases "bit (rrd7 (rx_rrd P t)) 15")
      (use tail in \<open>simp_all add: ipq40xx_eth_recv_def Let_def wp_readl dev size ub_load_rx_packet_def rx_outcome_def
        rx_hw_tail_def rx_looked_def rx_buffer_def invalidate_dcache_range_def rrd valid_bit [simplified]\<close>)
qed

lemma port_rel_bookkeeping:
  "port_rel P s (t\<lparr>console := c, vars := v\<rparr>) = port_rel P s t" "port_rel P s (t\<lparr>vars := v\<rparr>) = port_rel P s t"
  "port_rel P s (t\<lparr>console := c\<rparr>) = port_rel P s t"
  by (simp_all add: port_rel_def)

lemma recv_frame_rel:
  assumes "port_rel P s t"
  shows "port_rel P (exec ipq40xx_eth_free_pkt (s\<lparr>hist := rx_looked P t @ hist s\<rparr>))
    (t\<lparr>hist := rx_frame_events P t @ hist t,
      edma := (edma t)\<lparr>rfd_head := ring_next 512 (rfd_head (edma t)), rfd_tail := ring_next 512 (rfd_tail (edma t))\<rparr>\<rparr>)"
proof -
  let ?t = "t\<lparr>hist := rx_looked P t @ hist t\<rparr>"
  have "port_rel P (s\<lparr>hist := rx_looked P t @ hist s\<rparr>) ?t" by (rule port_rel_hist) (rule assms)
  then have "port_rel P (exec ipq40xx_eth_free_pkt (s\<lparr>hist := rx_looked P t @ hist s\<rparr>)) (exec rx_recycle ?t)"
    by (rule corresD(2) [OF corres_free_pkt])
  moreover have "exec rx_recycle ?t = t\<lparr>hist := rx_frame_events P t @ hist t,
      edma := (edma t)\<lparr>rfd_head := ring_next 512 (rfd_head (edma t)), rfd_tail := ring_next 512 (rfd_tail (edma t))\<rparr>\<rparr>"
    by (rule wp_execI, rule wp_rx_recycle) (simp add: rx_frame_events_def)
  ultimately show ?thesis by simp
qed

section \<open>Two related states\<close>

definition ub_ring_ready :: "u16 \<Rightarrow> edma_ring" where
  "ub_ring_ready n = \<lparr>er_count = n, er_hw_desc = 0, er_hw_size = 2048, er_dma = 0, er_head = 0, er_tail = 0\<rparr>"

definition ub_ready :: ubd where
  "ub_ready = \<lparr>hist = [], console = [], ub = False,
     priv = \<lparr>ep_base = 0, ep_esw = \<lparr>sw_base = 0, phydev = [0, 1, 2, 3, 4, 5], phy_mask = 0x1f, ports_node = 1,
         port_wrapper_mode = 0, num_phy = 6\<rparr>,
       ep_psgmii_base = 0, ep_tpd_ring = ub_ring_ready 8, ep_rfd_ring = ub_ring_ready 512\<rparr>,
     ub_tpds = replicate 8 zero_tpd, ub_rfds = replicate 512 zero_rfd,
     ub_rx_packets = replicate 512 0x40000000, enetaddr = replicate 6 0\<rparr>"

definition sample_cfg :: uboot_cfg where
  "sample_cfg = \<lparr>PKTSIZE_ALIGN = 1984, PKTALIGN = 64, PKTBUFSRX = 512, ARCH_DMA_MINALIGN = 64,
     CONFIG_SYS_CACHELINE_SIZE = 64\<rparr>"

lemma sample_cfg_size: "EDMA_MAX_PKT_SIZE sample_cfg = 2048"
  by (simp add: EDMA_MAX_PKT_SIZE_def sample_cfg_def)

lemma port_rel_ready:
  assumes "phys P 0 = 0"
  shows "port_rel P ub_ready ready_rings" and "fresh_rel P ub_ready ready_rings"
  using assms
  by (simp_all add: fresh_rel_def port_rel_def dev_rel_def ub_ready_def ub_ring_ready_def ready_rings_def boot_def zero_dev_def)

lemma ub_ready_hist [simp]: "hist ub_ready = []"
  by (simp add: ub_ready_def)

section \<open>Properties\<close>

text \<open>
  C19: on the same device the port's switch functions are U-Boot's: enabling and
  disabling lookup and the initialisation make the same accesses with the same
  values in the same order, whatever the hardware answers.
\<close>

theorem uboot_switch_equivalent:
  assumes "port_rel P s t"
  shows "port_rel P (exec (uboot_ess_switch_enable_lookup P) s) (exec (ess_switch_enable_lookup P) t) \<and>
    port_rel P (exec (uboot_ess_switch_disable_lookup P) s) (exec (ess_switch_disable_lookup P) t) \<and>
    port_rel P (exec (uboot_ess_switch_init P) s) (exec (ess_switch_init P) t)"
  using corresD(2) [OF port.corres_lookup_modes(1) assms] corresD(2) [OF port.corres_lookup_modes(2) assms]
    corresD(2) [OF port.corres_switch_init assms] by blast+

theorem uboot_switch_equivalent_witness:
  "hist (exec (uboot_ess_switch_init silent) ub_ready) = hist (exec (ess_switch_init silent) ready_rings)"
  using uboot_switch_equivalent [OF port_rel_ready(1), of silent] by (simp add: port_rel_def)

lemma ring_next_neq: "ring_next 512 h \<noteq> h"
  by (auto simp: ring_next_def)

text \<open>
  C20: on the same device queue start and stop, the configuration and the
  programming of the MAC address make the same accesses in both drivers. So does
  the whole start, with the same result, if the receive tail is 0 and the receive
  ring is mapped one to one: U-Boot leaves the tail as it is and cleans the ring by
  its bus address, where the port resets the tail and uses the CPU's address.
\<close>

theorem uboot_engine_equivalent:
  assumes "port_rel P s t"
  shows "port_rel P (exec (ipq40xx_edma_start_rx_tx P) s) (exec (edma_start_rx_tx P) t) \<and>
    port_rel P (exec (ipq40xx_edma_stop_rx_tx P) s) (exec (edma_stop_rx_tx P) t) \<and>
    port_rel P (exec ipq40xx_edma_configure s) (exec edma_configure t) \<and>
    port_rel P (exec ipq40xx_eth_write_hwaddr s) (exec ipq4019_eth_write_hwaddr t) \<and>
    (rfd_tail (edma t) = 0 \<and> phys P (rfd_ring (edma t)) = rfd_ring (edma t) \<longrightarrow>
      port_rel P (exec (ipq40xx_eth_start P) s) (exec (ipq4019_eth_start P) t) \<and>
      result (ipq40xx_eth_start P) s = result (ipq4019_eth_start P) t)"
proof -
  have "fresh_rel P s t" if "rfd_tail (edma t) = 0 \<and> phys P (rfd_ring (edma t)) = rfd_ring (edma t)"
    using that assms by (simp add: fresh_rel_def)
  note start = corresD [OF corres_start this]
  note rest = corresD(2) [OF port.corres_queues(1) assms] corresD(2) [OF port.corres_queues(2) assms]
    corresD(2) [OF port.corres_queues(3) assms] corresD(2) [OF port.corres_write_hwaddr assms]
  show ?thesis using start by (intro conjI rest impI) (simp_all add: fresh_rel_def)
qed

theorem uboot_engine_equivalent_witness:
  "hist (exec (ipq40xx_edma_configure) ub_ready) = hist (exec edma_configure ready_rings) \<and>
   hist (exec (ipq40xx_eth_start silent) ub_ready) = hist (exec (ipq4019_eth_start silent) ready_rings)"
  using uboot_engine_equivalent [OF port_rel_ready(1), of silent] port_rel_ready(2) [of silent]
  by (simp add: fresh_rel_def port_rel_def)

text \<open>
  C21: with receive buffers of the same 2048 bytes, a caller's room of at most 2032
  bytes and a core that frees every packet recv did not refuse, reception of the
  port is recv and free_pkt of U-Boot: both report nothing on an empty ring and on
  a slot that is not marked valid, and both find the same frame at the same place
  (the port cuts its length to the caller's room). They end in related states but
  on a slot that is not marked valid, which U-Boot gives back and the port keeps.
\<close>

theorem recv_matches_uboot:
  assumes R: "port_rel P s t" and size: "EDMA_MAX_PKT_SIZE C = 2048"
    and tail: "unat (rfd_tail (edma t)) < length (net_rx_packets t)"
    and room: "0 \<le> maxlen" "maxlen \<le> 2032"
    and frees: "\<And>r. frees r \<longleftrightarrow> 0 \<le> r"
  shows "let (r, pkt) = result (uboot_rx P C frees) s; (rc, n, data) = result (ipq4019_eth_recv P maxlen) t;
      s' = exec (uboot_rx P C frees) s; t' = exec (ipq4019_eth_recv P maxlen) t in
    rc = 0 \<and>
    (case rx_outcome P t of
       RxEmpty \<Rightarrow> r = - 11 \<and> pkt = None \<and> n = 0 \<and> port_rel P s' t'
     | RxInvalid \<Rightarrow> r = 0 \<and> pkt = None \<and> n = 0 \<and> edma t' = edma t \<and> \<not> port_rel P s' t'
     | RxFrame \<Rightarrow> r = int (unat (rrd6 (rx_rrd P t))) \<and> pkt = Some (rx_buffer t + 16) \<and>
         n = rx_len maxlen (rrd6 (rx_rrd P t)) \<and> data = rx_frame_bytes P t (unat n) \<and> port_rel P s' t')"
proof (cases "rx_outcome P t")
  case RxEmpty
  have u: "wp (ipq40xx_eth_recv P C) (\<lambda>r s'. r = (- EAGAIN, None) \<and> s' = s\<lparr>hist := tl (rx_looked P t) @ hist s\<rparr>) s"
    using uboot_recv_cases [OF R size tail] RxEmpty by simp
  have v: "wp (ipq4019_eth_recv P maxlen) (\<lambda>r t'. r = (0, 0, []) \<and> t' = t\<lparr>hist := tl (rx_looked P t) @ hist t\<rparr>) t"
    by (rule wp_ipq4019_eth_recv [OF tail]) (simp_all add: RxEmpty)
  show ?thesis using u v RxEmpty R frees by (simp add: uboot_rx_def wp_def when_do_def)
next
  case RxInvalid
  let ?s = "s\<lparr>hist := rx_looked P t @ hist s\<rparr>"
  have u: "wp (ipq40xx_eth_recv P C) (\<lambda>r s'. r = (0, None) \<and> s' = ?s) s"
    using uboot_recv_cases [OF R size tail] RxInvalid by simp
  have v: "wp (ipq4019_eth_recv P maxlen) (\<lambda>r t'. fst r = 0 \<and> fst (snd r) = 0 \<and> edma t' = edma t) t"
    by (rule wp_ipq4019_eth_recv [OF tail]) (simp_all add: RxInvalid)
  have r: "result (uboot_rx P C frees) s = (0, None)" "exec (uboot_rx P C frees) s = exec ipq40xx_eth_free_pkt ?s"
    using u frees by (simp_all add: uboot_rx_def wp_def when_do_def)
  have "er_tail (ep_rfd_ring (priv (exec ipq40xx_eth_free_pkt ?s))) = ring_next 512 (rfd_tail (edma t))"
    using recv_frame_rel [OF R] by (simp add: port_rel_def dev_rel_def)
  then have "\<not> port_rel P (exec ipq40xx_eth_free_pkt ?s) t'" if "edma t' = edma t" for t'
    using that by (auto simp: port_rel_def dev_rel_def ring_next_neq)
  then show ?thesis using v r RxInvalid by (auto simp: wp_def Let_def case_prod_beta)
next
  case o: RxFrame
  let ?n = "rx_len maxlen (rrd6 (rx_rrd P t))"
  have u: "wp (ipq40xx_eth_recv P C) (\<lambda>r s'. r = (int (unat (rrd6 (rx_rrd P t))), Some (rx_buffer t + 16)) \<and>
      s' = s\<lparr>hist := rx_looked P t @ hist s\<rparr>) s"
    using uboot_recv_cases [OF R size tail] o by simp
  have no: "\<not> rx_overrun maxlen ?n"
    using rx_len_room [OF room(1), of "rrd6 (rx_rrd P t)"] room(2) unfolding rx_overrun_def by linarith
  have v: "wp (ipq4019_eth_recv P maxlen) (\<lambda>r t'. r = (0, ?n, rx_frame_bytes P t (unat ?n)) \<and>
      port_rel P (exec ipq40xx_eth_free_pkt (s\<lparr>hist := rx_looked P t @ hist s\<rparr>)) t') t"
  proof (rule wp_ipq4019_eth_recv [OF tail], goal_cases)
    case (3 cs n)
    then show ?case using recv_frame_rel [OF R] no
      by (simp add: port_rel_def)
  qed (simp_all add: o)
  show ?thesis using u v o R frees by (simp add: uboot_rx_def wp_def when_do_def)
qed

theorem recv_matches_uboot_witness:
  "result (uboot_rx one_frame sample_cfg (\<lambda>r. 0 \<le> r)) ub_ready = (int (unat (rrd6 (rx_rrd one_frame ready_rings))), Some 0x40000010) \<and>
   hist (exec (uboot_rx one_frame sample_cfg (\<lambda>r. 0 \<le> r)) ub_ready) =
    hist (exec (ipq4019_eth_recv one_frame 1500) ready_rings)"
proof -
  have "phys one_frame 0 = 0" by (simp add: one_frame_def)
  note R = port_rel_ready(1) [OF this]
  have "unat (rfd_tail (edma ready_rings)) < length (net_rx_packets ready_rings)"
    and o: "rx_outcome one_frame ready_rings = RxFrame" and b: "rx_buffer ready_rings = 0x40000000"
    using one_frame_rx(1) [OF ready_rings_packets] by (simp_all add: rx_buffer_def ready_rings_def boot_def zero_dev_def)
  then have "result (uboot_rx one_frame sample_cfg (\<lambda>r. 0 \<le> r)) ub_ready =
        (int (unat (rrd6 (rx_rrd one_frame ready_rings))), Some (rx_buffer ready_rings + 16)) \<and>
      port_rel one_frame (exec (uboot_rx one_frame sample_cfg (\<lambda>r. 0 \<le> r)) ub_ready)
      (exec (ipq4019_eth_recv one_frame 1500) ready_rings)"
    using recv_matches_uboot [OF R sample_cfg_size, of 1500 "\<lambda>r. 0 \<le> r"] by (auto simp: Let_def case_prod_beta prod_eq_iff)
  then show ?thesis using b by (simp add: port_rel_def)
qed

text \<open>
  C24: the two drivers differ on a slot whose descriptor is not marked valid.
  U-Boot's recv returns 0 and the core frees the packet: the slot is given back
  and the tail moves on. The port keeps both indices and writes no register.
\<close>

theorem recv_invalid_diverges:
  assumes "port_rel P s t" and "EDMA_MAX_PKT_SIZE C = 2048"
    and "unat (rfd_tail (edma t)) < length (net_rx_packets t)"
    and "frees 0" and "rx_outcome P t = RxInvalid"
  shows "let s' = exec (uboot_rx P C frees) s; t' = exec (ipq4019_eth_recv P maxlen) t; b = base (edma t) in
    fst (result (uboot_rx P C frees) s) = 0 \<and>
    er_tail (ep_rfd_ring (priv s')) = ring_next 512 (rfd_tail (edma t)) \<and>
    er_head (ep_rfd_ring (priv s')) = ring_next 512 (rfd_head (edma t)) \<and>
    writes (hist s') = writes (hist s) @ [(b + 0x9b0, ucast (rfd_head (edma t))),
      (b + 0x220, ucast (ring_next 512 (rfd_tail (edma t))))] \<and>
    edma t' = edma t \<and> writes (hist t') = writes (hist t)"
proof -
  let ?s = "s\<lparr>hist := rx_looked P t @ hist s\<rparr>"
  have u: "wp (ipq40xx_eth_recv P C) (\<lambda>r s'. r = (0, None) \<and> s' = ?s) s"
    using uboot_recv_cases [OF assms(1-3)] assms(5) by simp
  have v: "wp (ipq4019_eth_recv P maxlen) (\<lambda>_ t'. edma t' = edma t \<and> writes (hist t') = writes (hist t)) t"
    by (rule wp_ipq4019_eth_recv [OF assms(3)]) (simp_all add: assms(5) rx_looked_def)
  have "exec (uboot_rx P C frees) s = exec ipq40xx_eth_free_pkt ?s" "fst (result (uboot_rx P C frees) s) = 0"
    using u assms(4) by (simp_all add: uboot_rx_def wp_def when_do_def)
  then show ?thesis
    using v recv_frame_rel [OF assms(1)] assms(1)
    by (simp add: Let_def wp_def port_rel_def dev_rel_def rx_frame_events_def rx_looked_def)
qed

theorem recv_invalid_diverges_witness:
  "er_tail (ep_rfd_ring (priv (exec (uboot_rx stale_slot sample_cfg (\<lambda>r. 0 \<le> r)) ub_ready))) = 1 \<and>
   rfd_tail (edma (exec (ipq4019_eth_recv stale_slot 1500) ready_rings)) = 0"
proof -
  have "phys stale_slot 0 = 0" by (simp add: stale_slot_def)
  note R = port_rel_ready(1) [OF this]
  have "unat (rfd_tail (edma ready_rings)) < length (net_rx_packets ready_rings)"
    "rx_outcome stale_slot ready_rings = RxInvalid" "ring_next 512 0 = 1"
    by (simp_all add: rx_outcome_def rx_hw_tail_def stale_slot_def rx_rrd_def rx_byte_def [abs_def] load_rrd_def
        halfword_def ring_next_def)
  then show ?thesis
    using recv_invalid_diverges [OF R sample_cfg_size, of "\<lambda>r. 0 \<le> r" 1500] by (simp add: Let_def)
qed

section \<open>Transmit\<close>

lemma keeps_tpds_send_end:
  "keeps ub_tpds (poll_loop (\<lambda>_. readl P a) ok (udelay 1) n i v)"
  by (intro keeps_rules) simp_all

lemma uboot_send_ring:
  assumes R: "port_rel P s t" and mem: "length (tpd_mem t) = 8" and head: "unat (tpd_head (edma t)) < 8"
    and len: "16 \<le> len"
  shows "ub_tpds (exec (ipq40xx_eth_send P C packet len) s) =
    tx_ring_after P packet (word_of_int (len - 12)) (tpd_head (edma t)) 4 (tpd_mem t)"
proof -
  let ?e = "Clean packet (unat (packet + of_nat (align_up (nat len) (ARCH_DMA_MINALIGN C)) - packet))"
  let ?s = "s\<lparr>hist := ?e # hist s\<rparr>" and ?t = "t\<lparr>hist := ?e # hist t\<rparr>"
  let ?u = "exec (ub_send_tpds P packet [0..<4] len) ?s"
  let ?v = "exec (for_each [0..<4] (send_tpd P packet (word_of_int (len - 12)))) ?t"
  have "port_rel P ?s ?t" by (rule port.same_event) (rule R)
  then have "port_rel P ?u ?v" by (rule corresD(2) [OF corres_send_tpds])
  moreover have "tpd_mem ?v = tx_ring_after P packet (word_of_int (len - 12)) (tpd_head (edma t)) 4 (tpd_mem t)"
    by (rule wp_execI, rule wp_send_tpds [simplified EDMA_TPDS_PER_PACKET_def])
      (use mem head in \<open>simp_all del: tx_ring_after_steps\<close>)
  moreover have "ub_tpds (exec (ipq40xx_eth_send P C packet len) s) = ub_tpds ?u"
    using len
    by (simp add: keeps_exec [OF keeps_tpds_send_end [simplified]] ipq40xx_eth_send_def Let_def flush_dcache_range_def wmb_def emit_def writel_def
        when_do_def printf_def case_prod_beta del: upt_rec_numeral)
  ultimately show ?thesis by (simp only: port_rel_def)
qed

text \<open>
  C25: the four descriptors U-Boot fills for a frame cover exactly the frame: their
  lengths add up to its length. The port's differ from them in one field, the
  length of the last one, which is 12 larger.
\<close>

theorem send_fragments_vs_uboot:
  assumes "port_rel P s t" and "length (tpd_mem t) = 8" and "unat (tpd_head (edma t)) < 8" and "16 \<le> unat len"
  shows "let h = unat (tpd_head (edma t));
      ds = map (\<lambda>i. ub_tpds (exec (ipq40xx_eth_send P C packet (int (unat len))) s) ! ((h + i) mod 8)) [0..<4];
      ds' = map (\<lambda>i. tpd_mem (exec (ipq4019_eth_send P packet len) t) ! ((h + i) mod 8)) [0..<4]
    in sum_list (map (\<lambda>d. unat (tpd_len d)) ds) = unat len \<and>
       ds' = map (\<lambda>i. if i < 3 then ds ! i else (ds ! i)\<lparr>tpd_len := tpd_len (ds ! i) + 12\<rparr>) [0..<4]"
proof -
  have u: "[0..<8 :: nat] = [0..<4] @ [4..<8]" using upt_add_eq_append [of 0 4 4] by simp
  have slots: "map (\<lambda>i. tx_ring_after P packet l (tpd_head (edma t)) 4 (tpd_mem t) !
      ((unat (tpd_head (edma t)) + i) mod 8)) [0..<4] = map (tx_tpd P packet l) [0..<4]" for l
    using tx_ring_after_slots [OF assms(3,2), of P packet l] unfolding u map_append by simp
  have "(16 :: int) \<le> int (unat len)" using assms(4) by linarith
  from uboot_send_ring [OF assms(1-3) this, of C packet]
  have ring: "ub_tpds (exec (ipq40xx_eth_send P C packet (int (unat len))) s) =
      tx_ring_after P packet (len - 12) (tpd_head (edma t)) 4 (tpd_mem t)" by simp
  have ub: "map (\<lambda>i. ub_tpds (exec (ipq40xx_eth_send P C packet (int (unat len))) s) !
      ((unat (tpd_head (edma t)) + i) mod 8)) [0..<4] = map (tx_tpd P packet (len - 12)) [0..<4]"
    unfolding ring by (rule slots)
  have "wp (ipq4019_eth_send P packet len) (\<lambda>_ w'.
      map (\<lambda>i. tpd_mem w' ! ((unat (tpd_head (edma t)) + i) mod 8)) [0..<4] = map (tx_tpd P packet len) [0..<4]) t"
    by (rule wp_ipq4019_eth_send [OF assms(2,3)])
      (use assms(4) slots in \<open>simp_all del: tx_ring_after_steps upt_rec_numeral\<close>)
  then have port: "map (\<lambda>i. tpd_mem (exec (ipq4019_eth_send P packet len) t) !
      ((unat (tpd_head (edma t)) + i) mod 8)) [0..<4] = map (tx_tpd P packet len) [0..<4]"
    by (simp only: wp_def)
  have l: "unat (len - 12) = unat len - 12" using assms(4) by (simp add: unat_sub word_le_nat_alt)
  show ?thesis unfolding Let_def ub port using assms(4) l
    by (simp add: tx_tpd_def upt_conv_Cons)
qed

theorem send_fragments_vs_uboot_witness:
  "sum_list (map (\<lambda>i. unat (tpd_len (ub_tpds (exec (ipq40xx_eth_send silent sample_cfg 0x42000000 60) ub_ready) ! (i mod 8)))) [0..<4]) = 60"
proof -
  have "length (tpd_mem ready_rings) = 8" "unat (tpd_head (edma ready_rings)) = 0"
    by (simp_all add: ready_rings_def boot_def zero_dev_def)
  then show ?thesis
    using send_fragments_vs_uboot [OF port_rel_ready(1) [of silent], of 60 sample_cfg "0x42000000"]
    by (auto simp: Let_def comp_def)
qed

section \<open>Descriptor registers\<close>

text \<open>The writes of both drivers, for the two values read.\<close>

definition init_desc_writes :: "platform \<Rightarrow> IpqEdmaDev \<Rightarrow> u32 \<Rightarrow> u32 \<Rightarrow> (u32 \<times> u32) list" where
  "init_desc_writes P q d r = (let b = base q; c = drop_bit 16 d AND 0xffff in
     [(b + 0x420, phys P (tpd_ring q)), (b + 0x460, d AND NOT 0xffff OR c), (b + 0x240, c), (b + 0x41c, 8),
      (b + 0x950, phys P (rfd_ring q)), (b + 0xa10, 0x08000200), (b + 0x408, 0), (b + 0x400, r OR 0x10000)])"

lemma ub_init_desc_wp:
  assumes R: "port_rel P s t" and size: "EDMA_MAX_PKT_SIZE C = 2048"
  shows "wp (ipq40xx_edma_init_desc P C) (\<lambda>_ s'. \<exists>x r.
    let b = base (edma t); d = bus_read P (Wr (b + 0x420) (phys P (tpd_ring (edma t))) # hist t) (b + 0x460);
        c = drop_bit 16 d AND 0xffff in
    reads (hist s') = reads (hist s) @ [(b + 0x460, d), (b + 0x950, x), (b + 0x400, r)] \<and>
    writes (hist s') = writes (hist s) @ init_desc_writes P (edma t) d r \<and>
    dev_rel P (priv s') ((edma t)\<lparr>tpd_head := ucast c, tpd_tail := ucast c\<rparr>)) s"
proof -
  have dev: "ep_base (priv s) = base (edma t)" "er_dma (ep_tpd_ring (priv s)) = phys P (tpd_ring (edma t))"
      "er_dma (ep_rfd_ring (priv s)) = phys P (rfd_ring (edma t))" "er_count (ep_tpd_ring (priv s)) = 8"
      "er_count (ep_rfd_ring (priv s)) = 512" "hist s = hist t" "dev_rel P (priv s) (edma t)"
    using R by (simp_all add: port_rel_def dev_rel_def)
  have m: "(v :: u32) AND 0xffffffff = v" for v
  proof -
    have m: "(0xffffffff :: u32) = mask 32" by (simp add: mask_eq_exp_minus_1)
    show ?thesis unfolding m by (rule bit_word_eqI) (auto simp: bit_simps)
  qed
  have c: "ucast (ucast d :: u16) = d AND 0xffff" for d :: u32
    unfolding mask_numerals by (rule bit_word_eqI) (auto simp: bit_simps)
  show ?thesis
    unfolding ipq40xx_edma_init_desc_def Let_def wp_bind wp_gets
    by (simp add: wp_readl) (use dev in \<open>simp add: init_desc_writes_def dev_rel_def size c m Let_def\<close>)
qed

text \<open>
  Both drivers program the descriptor registers alike: after the same read of
  the index register the same eight writes, up to what the hardware answers for
  the load pointer register, and the same head and tail. U-Boot reads the base
  register of the receive ring back on the way, the port does not.
\<close>

theorem init_desc_matches_uboot:
  assumes "port_rel P s t" and "EDMA_MAX_PKT_SIZE C = 2048"
  shows "let s' = exec (ipq40xx_edma_init_desc P C) s; t' = exec (edma_init_desc P) t; b = base (edma t) in
    dev_rel P (priv s') (edma t') \<and>
    (\<exists>d x r r'. reads (hist s') = reads (hist s) @ [(b + 0x460, d), (b + 0x950, x), (b + 0x400, r)] \<and>
       reads (hist t') = reads (hist t) @ [(b + 0x460, d), (b + 0x400, r')] \<and>
       writes (hist s') = writes (hist s) @ init_desc_writes P (edma t) d r \<and>
       writes (hist t') = writes (hist t) @ init_desc_writes P (edma t) d r')"
proof -
  let ?b = "base (edma t)"
  let ?d = "bus_read P (Wr (?b + 0x420) (phys P (tpd_ring (edma t))) # hist t) (?b + 0x460)"
  let ?c = "drop_bit 16 ?d AND 0xffff"
  have "wp (edma_init_desc P) (\<lambda>_ t'. edma t' = (edma t)\<lparr>tpd_head := ucast ?c, tpd_tail := ucast ?c\<rparr> \<and>
      (\<exists>r'. reads (hist t') = reads (hist t) @ [(?b + 0x460, ?d), (?b + 0x400, r')] \<and>
       writes (hist t') = writes (hist t) @ init_desc_writes P (edma t) ?d r')) t"
    by (rule wp_edma_init_desc) (auto simp: init_desc_writes_def Let_def)
  with ub_init_desc_wp [OF assms] show ?thesis unfolding wp_def Let_def by force
qed

theorem init_desc_matches_uboot_witness:
  "\<exists>r r' x. writes (hist (exec (ipq40xx_edma_init_desc silent sample_cfg) ub_ready)) = x @ [(0x400, r)] \<and>
    writes (hist (exec (edma_init_desc silent) ready_rings)) = x @ [(0x400, r')]"
  using init_desc_matches_uboot [OF port_rel_ready(1) [of silent] sample_cfg_size]
  by (auto simp: Let_def init_desc_writes_def)

section \<open>Allocation\<close>

text \<open>
  U-Boot's allocation of the rings returns 0 with both rings allocated at
  cache-line alignment, zeroed and empty, and their DMA addresses known, or
  -ENOMEM; then everything it had allocated has been freed again, exactly once.
\<close>

theorem uboot_alloc_no_leak:
  "let s' = exec (ipq40xx_edma_alloc_tx_rx_rings P C) s; rc = result (ipq40xx_edma_alloc_tx_rx_rings P C) s;
      T = ep_tpd_ring (priv s'); R = ep_rfd_ring (priv s');
      al = CONFIG_SYS_CACHELINE_SIZE C; size = (\<lambda>n. align_up n (ARCH_DMA_MINALIGN C))
    in \<exists>es. hist s' = es @ hist s \<and>
      (if rc = 0 then freed es = [] \<and> er_hw_desc T \<noteq> 0 \<and> er_hw_desc R \<noteq> 0 \<and>
         allocs es = [(al, size (16 * unat (er_count (ep_tpd_ring (priv s)))), er_hw_desc T),
           (al, size (4 * unat (er_count (ep_rfd_ring (priv s)))), er_hw_desc R)] \<and>
         er_dma T = phys P (er_hw_desc T) \<and> er_dma R = phys P (er_hw_desc R) \<and>
         er_head T = 0 \<and> er_tail T = 0 \<and> er_head R = 0 \<and> er_tail R = 0 \<and>
         ub_tpds s' = replicate (unat (er_count (ep_tpd_ring (priv s)))) zero_tpd \<and>
         ub_rfds s' = replicate (unat (er_count (ep_rfd_ring (priv s)))) zero_rfd
       else rc = - 12 \<and> freed es = filter (\<lambda>a. a \<noteq> 0) (map (\<lambda>(al, n, a). a) (allocs es)))"
proof -
  let ?al = "CONFIG_SYS_CACHELINE_SIZE C"
  let ?n = "align_up (16 * unat (er_count (ep_tpd_ring (priv s)))) (ARCH_DMA_MINALIGN C)"
  let ?m = "align_up (4 * unat (er_count (ep_rfd_ring (priv s)))) (ARCH_DMA_MINALIGN C)"
  let ?a = "memalign_ptr P (hist s) ?al ?n"
  let ?h = "Memalign ?al ?n ?a # hist s"
  let ?b = "memalign_ptr P ?h ?al ?m"
  let ?es = "if ?a = 0 then [Memalign ?al ?n ?a]
    else if ?b = 0 then [Free ?a, Memalign ?al ?m ?b, Memalign ?al ?n ?a]
    else [Memalign ?al ?m ?b, Memalign ?al ?n ?a]"
  show ?thesis
    unfolding Let_def
    by (rule exI [of _ ?es], cases "?a = 0"; cases "?b = 0")
      (simp_all add: ipq40xx_edma_alloc_tx_rx_rings_def ipq40xx_edma_alloc_ring_def ipq40xx_edma_free_ring_def
        xmemalign_def emit_def Let_def mult.commute)
qed

end
