(* ===== verification/Uboot_Psgmii.thy ===== *)
theory Uboot_Psgmii
  imports Uboot_Mdio Uboot_Equiv
begin

text \<open>
  The PSGMII calibration and self-test of reference/uboot-essedma.c. The PHY
  accessors and the reset controller belong to U-Boot: they are the record
  \<open>phy_ops\<close>, an argument of every function. A PHY device is its MDIO address.
  The messages of dev_dbg and the timer they print are left out.
\<close>

section \<open>The code\<close>

record phy_ops =
  phy_read :: "u8 \<Rightarrow> i32 \<Rightarrow> i32 \<Rightarrow> (ubd, i32) state"
  phy_write :: "u8 \<Rightarrow> i32 \<Rightarrow> i32 \<Rightarrow> u16 \<Rightarrow> (ubd, i32) state"
  phy_read_mmd :: "u8 \<Rightarrow> i32 \<Rightarrow> i32 \<Rightarrow> (ubd, i32) state"
  phy_write_mmd :: "u8 \<Rightarrow> i32 \<Rightarrow> i32 \<Rightarrow> u16 \<Rightarrow> (ubd, i32) state"
  reset_assert :: "(ubd, i32) state"
  reset_deassert :: "(ubd, i32) state"

definition MDIO_DEVAD_NONE :: i32 where [simp]: "MDIO_DEVAD_NONE = - 1"
definition ub_MII_BMCR :: i32 where [simp]: "ub_MII_BMCR = 0"
definition ub_MDIO_MMD_PMAPMD :: i32 where [simp]: "ub_MDIO_MMD_PMAPMD = 1"
definition ub_MDIO_MMD_AN :: i32 where [simp]: "ub_MDIO_MMD_AN = 7"

text \<open>\<open>esw->phydev[i]\<close>; the array has as many elements as the list.\<close>

definition esw_phydev :: "int \<Rightarrow> (ubd, u8) state" where
  "esw_phydev i = do {
     p \<leftarrow> gets priv;
     let ps = phydev (ep_esw p);
     if 0 \<le> i \<and> nat i < length ps then ret (ps ! nat i) else do { undefined_behaviour; ret 0 } }"

text \<open>\<open>for (i = 0; i < esw->num_phy - 1; i++)\<close> over the devices.\<close>

definition for_each_phy :: "(u8 \<Rightarrow> (ubd, unit) state) \<Rightarrow> (ubd, unit) state" where
  "for_each_phy body = do {
     p \<leftarrow> gets priv;
     for_each [0..<nat (num_phy (ep_esw p) - 1)] (\<lambda>i. do { d \<leftarrow> esw_phydev (int i); body d }) }"

definition uboot_ess_reset :: "phy_ops \<Rightarrow> (ubd, unit) state" where
  "uboot_ess_reset U = do {
     _ \<leftarrow> reset_assert U;
     mdelay 10;
     _ \<leftarrow> reset_deassert U;
     mdelay 10 }"

definition uboot_qca8075_ess_reset :: "phy_ops \<Rightarrow> platform \<Rightarrow> (ubd, unit) state" where
  "uboot_qca8075_ess_reset U P = do {
     p \<leftarrow> gets priv;
     psgmii_phy \<leftarrow> esw_phydev (num_phy (ep_esw p) - 1);
     _ \<leftarrow> phy_write U psgmii_phy MDIO_DEVAD_NONE ub_MII_BMCR 0x005b;
     _ \<leftarrow> phy_write U psgmii_phy MDIO_DEVAD_NONE ub_MII_BMCR 0x001b;
     _ \<leftarrow> phy_write U psgmii_phy MDIO_DEVAD_NONE ub_MII_BMCR 0x005b;
     (i, val) \<leftarrow> poll_loop (\<lambda>_. phy_read_mmd U psgmii_phy ub_MDIO_MMD_PMAPMD 0x28)
       (\<lambda>val. val AND 0x1 \<noteq> 0) (mdelay 1) 100 0 0;
     when_do (100 \<le> i) (printf ''QCA807x PSGMII PLL_VCO_CALIB Not Ready'' []);
     _ \<leftarrow> phy_write U psgmii_phy MDIO_DEVAD_NONE 0x1a 0x2230;
     uboot_ess_reset U;
     (i, val) \<leftarrow> poll_loop (\<lambda>_. readl P (ep_psgmii_base p + ub_PSGMIIPHY_VCO_CALIBRATION_CTRL_REGISTER_2))
       (\<lambda>val. val AND 0x1 \<noteq> 0) (mdelay 1) 100 0 0;
     when_do (100 \<le> i) (printf ''PSGMII PLL_VCO_CALIB Not Ready'' []);
     _ \<leftarrow> phy_write U psgmii_phy MDIO_DEVAD_NONE 0x1a 0x3230;
     _ \<leftarrow> phy_write U psgmii_phy MDIO_DEVAD_NONE ub_MII_BMCR 0x005f;
     ret () }"

definition ub_PSGMII_ST_NUM_RETRIES :: nat where [simp]: "ub_PSGMII_ST_NUM_RETRIES = 20"
definition ub_PSGMII_ST_PKT_COUNT :: i32 where [simp]: "ub_PSGMII_ST_PKT_COUNT = 4 * 1024"
definition ub_PSGMII_ST_PKT_SIZE :: i32 where [simp]: "ub_PSGMII_ST_PKT_SIZE = 1504"

definition PSGMII_ST_TRAFFIC_TIMEOUT_NS :: nat where [simp]:
  "PSGMII_ST_TRAFFIC_TIMEOUT_NS = unat ub_PSGMII_ST_PKT_COUNT * unat ub_PSGMII_ST_PKT_SIZE * (8 + 1)"
definition PSGMII_ST_TRAFFIC_TIMEOUT :: nat where [simp]:
  "PSGMII_ST_TRAFFIC_TIMEOUT = (PSGMII_ST_TRAFFIC_TIMEOUT_NS + 1000000 - 1) div 1000000"

text \<open>A static variable that nothing assigns.\<close>

definition psgmii_self_test_repeat :: bool where "psgmii_self_test_repeat = False"

definition uboot_psgmii_st_phy_power_down :: "phy_ops \<Rightarrow> u8 \<Rightarrow> (ubd, unit) state" where
  "uboot_psgmii_st_phy_power_down U d = do {
     val \<leftarrow> phy_read U d MDIO_DEVAD_NONE ub_MII_BMCR;
     let val = val OR ucast ub_QCA807X_POWER_DOWN;
     _ \<leftarrow> phy_write U d MDIO_DEVAD_NONE ub_MII_BMCR (ucast val);
     ret () }"

definition uboot_psgmii_st_phy_prepare :: "phy_ops \<Rightarrow> u8 \<Rightarrow> (ubd, unit) state" where
  "uboot_psgmii_st_phy_prepare U d = do {
     val \<leftarrow> phy_read U d MDIO_DEVAD_NONE (ucast ub_QCA807X_CHIP_CONFIGURATION);
     when_do (val \<noteq> 0) (do {
       let val = val OR ucast ub_QCA807X_MEDIA_PAGE_SELECT;
       _ \<leftarrow> phy_write U d MDIO_DEVAD_NONE (ucast ub_QCA807X_CHIP_CONFIGURATION) (ucast val);
       ret () });
     uboot_psgmii_st_phy_power_down U d;
     _ \<leftarrow> phy_write_mmd U d ub_MDIO_MMD_AN 0x8021 (ucast ub_PSGMII_ST_PKT_COUNT);
     _ \<leftarrow> phy_write_mmd U d ub_MDIO_MMD_AN 0x8062 (ucast ub_PSGMII_ST_PKT_SIZE);
     val \<leftarrow> phy_read U d MDIO_DEVAD_NONE (ucast ub_QCA807X_FUNCTION_CONTROL);
     let val = val AND NOT (ucast ub_QCA807X_MDI_CROSSOVER_MODE_MASK);
     let val = val OR FIELD_PREP (ucast ub_QCA807X_MDI_CROSSOVER_MODE_MASK)
       (ucast ub_QCA807X_MDI_CROSSOVER_MODE_MANUAL_MDI);
     let val = val AND NOT (ucast ub_QCA807X_POLARITY_REVERSAL);
     _ \<leftarrow> phy_write U d MDIO_DEVAD_NONE (ucast ub_QCA807X_FUNCTION_CONTROL) (ucast val);
     ret () }"

definition uboot_psgmii_st_phy_recover :: "phy_ops \<Rightarrow> u8 \<Rightarrow> (ubd, unit) state" where
  "uboot_psgmii_st_phy_recover U d = do {
     _ \<leftarrow> phy_write_mmd U d ub_MDIO_MMD_AN 0x8021 0x0;
     val \<leftarrow> phy_read_mmd U d ub_MDIO_MMD_AN (ucast ub_QCA807X_MMD7_CRC_PACKET_COUNTER);
     let val = val AND NOT (ucast ub_QCA807X_MMD7_PACKET_COUNTER_SELFCLR);
     let val = val AND NOT (ucast ub_QCA807X_MMD7_CRC_PACKET_COUNTER_EN);
     _ \<leftarrow> phy_write_mmd U d ub_MDIO_MMD_AN (ucast ub_QCA807X_MMD7_CRC_PACKET_COUNTER) (ucast val);
     _ \<leftarrow> phy_write_mmd U d ub_MDIO_MMD_AN 0x8020 0x0;
     ret () }"

definition uboot_psgmii_st_phy_start_traffic :: "phy_ops \<Rightarrow> u8 \<Rightarrow> (ubd, unit) state" where
  "uboot_psgmii_st_phy_start_traffic U d = do {
     val \<leftarrow> phy_read_mmd U d ub_MDIO_MMD_AN (ucast ub_QCA807X_MMD7_CRC_PACKET_COUNTER);
     let val = val OR ucast ub_QCA807X_MMD7_CRC_PACKET_COUNTER_EN;
     _ \<leftarrow> phy_write_mmd U d ub_MDIO_MMD_AN (ucast ub_QCA807X_MMD7_CRC_PACKET_COUNTER) (ucast val);
     _ \<leftarrow> phy_write_mmd U d ub_MDIO_MMD_AN 0x8020 0xa000;
     ret () }"

definition uboot_psgmii_st_phy_check_counters :: "phy_ops \<Rightarrow> u8 \<Rightarrow> (ubd, bool) state" where
  "uboot_psgmii_st_phy_check_counters U d = do {
     tx_ok \<leftarrow> phy_read_mmd U d ub_MDIO_MMD_AN (ucast ub_QCA807X_MMD7_VALID_EGRESS_COUNTER_2);
     ret (tx_ok = ub_PSGMII_ST_PKT_COUNT) }"

definition uboot_psgmii_st_phy_reset_loopback :: "phy_ops \<Rightarrow> u8 \<Rightarrow> (ubd, unit) state" where
  "uboot_psgmii_st_phy_reset_loopback U d = do {
     _ \<leftarrow> phy_write U d MDIO_DEVAD_NONE ub_MII_BMCR 0x9000;
     _ \<leftarrow> phy_write U d MDIO_DEVAD_NONE ub_MII_BMCR 0x4140;
     ret () }"

definition uboot_psgmii_st_phy_link_is_up :: "phy_ops \<Rightarrow> u8 \<Rightarrow> (ubd, bool) state" where
  "uboot_psgmii_st_phy_link_is_up U d = do {
     val \<leftarrow> phy_read U d MDIO_DEVAD_NONE (ucast ub_QCA807X_PHY_SPECIFIC);
     ret (val AND ucast ub_QCA807X_PHY_SPECIFIC_LINK \<noteq> 0) }"

text \<open>One pass over the PHYs of \<open>psgmii_st_phy_wait\<close>.\<close>

primrec uboot_st_phy_scan :: "(u8 \<Rightarrow> (ubd, bool) state) \<Rightarrow> nat list \<Rightarrow> u32 \<Rightarrow> (ubd, u32) state" where
  "uboot_st_phy_scan check [] msk = ret msk"
| "uboot_st_phy_scan check (phy # ps) msk =
     (if msk AND BIT phy = 0 then uboot_st_phy_scan check ps msk
      else do {
        d \<leftarrow> esw_phydev (int phy);
        r \<leftarrow> check d;
        uboot_st_phy_scan check ps (if r then msk AND NOT (BIT phy) else msk) })"

definition uboot_psgmii_st_phy_wait :: "u32 \<Rightarrow> nat \<Rightarrow> nat \<Rightarrow> (u8 \<Rightarrow> (ubd, bool) state) \<Rightarrow> (ubd, bool) state" where
  "uboot_psgmii_st_phy_wait msk retries delay check = do {
     p \<leftarrow> gets priv;
     (i, msk) \<leftarrow> poll_loop (uboot_st_phy_scan check [0..<nat (num_phy (ep_esw p) - 1)]) (\<lambda>msk. msk = 0)
       (mdelay delay) retries 0 msk;
     ret (msk = 0) }"

definition uboot_psgmii_st_phy_wait_link :: "phy_ops \<Rightarrow> u32 \<Rightarrow> (ubd, bool) state" where
  "uboot_psgmii_st_phy_wait_link U msk = uboot_psgmii_st_phy_wait msk 100 10 (uboot_psgmii_st_phy_link_is_up U)"

definition uboot_psgmii_st_phy_wait_tx_complete :: "phy_ops \<Rightarrow> u32 \<Rightarrow> (ubd, bool) state" where
  "uboot_psgmii_st_phy_wait_tx_complete U msk =
     uboot_psgmii_st_phy_wait msk PSGMII_ST_TRAFFIC_TIMEOUT 1 (uboot_psgmii_st_phy_check_counters U)"

text \<open>The loop of the serial test, which stops at the first failure.\<close>

primrec uboot_st_serial_from :: "phy_ops \<Rightarrow> nat list \<Rightarrow> bool \<Rightarrow> (ubd, bool) state" where
  "uboot_st_serial_from U [] res = ret res"
| "uboot_st_serial_from U (i # is) res = do {
     d \<leftarrow> esw_phydev (int i);
     uboot_psgmii_st_phy_reset_loopback U d;
     _ \<leftarrow> uboot_psgmii_st_phy_wait_link U (BIT i);
     uboot_psgmii_st_phy_start_traffic U d;
     r \<leftarrow> uboot_psgmii_st_phy_wait_tx_complete U (BIT i);
     let res = (res \<and> r);
     uboot_psgmii_st_phy_power_down U d;
     if \<not> res then ret res else uboot_st_serial_from U is res }"

definition uboot_psgmii_st_run_test_serial :: "phy_ops \<Rightarrow> (ubd, bool) state" where
  "uboot_psgmii_st_run_test_serial U = do {
     p \<leftarrow> gets priv;
     uboot_st_serial_from U [0..<nat (num_phy (ep_esw p) - 1)] True }"

definition uboot_psgmii_st_run_test_parallel :: "phy_ops \<Rightarrow> (ubd, bool) state" where
  "uboot_psgmii_st_run_test_parallel U = do {
     for_each_phy (uboot_psgmii_st_phy_reset_loopback U);
     p \<leftarrow> gets priv;
     _ \<leftarrow> uboot_psgmii_st_phy_wait_link U (phy_mask (ep_esw p));
     for_each_phy (uboot_psgmii_st_phy_start_traffic U);
     result \<leftarrow> uboot_psgmii_st_phy_wait_tx_complete U (phy_mask (ep_esw p));
     for_each_phy (uboot_psgmii_st_phy_power_down U);
     ret result }"

record psgmii_st_stats =
  succeed :: int
  failed :: int
  failed_max :: int
  failed_cont :: int

definition psgmii_st_update_stats :: "bool \<Rightarrow> psgmii_st_stats \<Rightarrow> psgmii_st_stats" where
  "psgmii_st_update_stats success st =
    (if success then st\<lparr>succeed := succeed st + 1, failed_cont := 0\<rparr>
     else
       let st = st\<lparr>failed := failed st + 1\<rparr>;
           st = st\<lparr>failed_cont := failed_cont st + 1\<rparr>
       in if failed_max st < failed_cont st then st\<lparr>failed_max := failed_cont st\<rparr> else st)"

text \<open>The retry loop with n turns left; the value is \<open>result\<close> and \<open>stats\<close> after it.\<close>

primrec uboot_st_rounds ::
  "phy_ops \<Rightarrow> platform \<Rightarrow> nat \<Rightarrow> bool \<Rightarrow> psgmii_st_stats \<Rightarrow> (ubd, bool \<times> psgmii_st_stats) state" where
  "uboot_st_rounds U P 0 res st = ret (res, st)"
| "uboot_st_rounds U P (Suc n) res st = do {
     uboot_qca8075_ess_reset U P;
     uboot_esw_port_loopback_set_all P True;
     res \<leftarrow> uboot_psgmii_st_run_test_serial U;
     res \<leftarrow> (if res then uboot_psgmii_st_run_test_parallel U else ret res);
     let st = psgmii_st_update_stats res st;
     if psgmii_self_test_repeat then uboot_st_rounds U P n res st
     else if res then ret (res, st) else uboot_st_rounds U P n res st }"

text \<open>The last loop of the self-test.\<close>

definition uboot_st_recover_all :: "phy_ops \<Rightarrow> (ubd, unit) state" where
  "uboot_st_recover_all U = for_each_phy (\<lambda>d. do {
     uboot_psgmii_st_phy_recover U d;
     _ \<leftarrow> phy_write U d MDIO_DEVAD_NONE (ucast ub_QCA807X_FUNCTION_CONTROL) 0x6860;
     _ \<leftarrow> phy_write U d MDIO_DEVAD_NONE ub_MII_BMCR 0x9040;
     ret () })"

definition uboot_psgmii_self_test :: "phy_ops \<Rightarrow> platform \<Rightarrow> (ubd, unit) state" where
  "uboot_psgmii_self_test U P = do {
     let stats = \<lparr>succeed = 0, failed = 0, failed_max = 0, failed_cont = 0\<rparr>;
     for_each_phy (uboot_psgmii_st_phy_prepare U);
     (res, stats) \<leftarrow> uboot_st_rounds U P ub_PSGMII_ST_NUM_RETRIES False stats;
     uboot_st_recover_all U;
     uboot_esw_port_loopback_set_all P False }"

lemma update_stats_simps:
  "succeed (psgmii_st_update_stats ok st) = succeed st + (if ok then 1 else 0)"
  "failed (psgmii_st_update_stats ok st) = failed st + (if ok then 0 else 1)"
  by (auto simp: psgmii_st_update_stats_def Let_def)

lemma st_round_cases:
  obtains "result (uboot_st_rounds U P (Suc n) res st) w = (True, psgmii_st_update_stats True st)"
  | w' where "result (uboot_st_rounds U P (Suc n) res st) w =
      result (uboot_st_rounds U P n False (psgmii_st_update_stats False st)) w'"
proof -
  let ?w = "exec (do { uboot_qca8075_ess_reset U P; uboot_esw_port_loopback_set_all P True }) w"
  let ?m = "do { res \<leftarrow> uboot_psgmii_st_run_test_serial U; if res then uboot_psgmii_st_run_test_parallel U else ret res }"
  have "result (uboot_st_rounds U P (Suc n) res st) w = (if result ?m ?w then (True, psgmii_st_update_stats True st)
      else result (uboot_st_rounds U P n False (psgmii_st_update_stats False st)) (exec ?m ?w))"
    by (simp add: psgmii_self_test_repeat_def Let_def)
  then show thesis by (cases "result ?m ?w") (simp_all only: if_True if_False, (rule that, assumption)+)
qed

lemma st_rounds_stats:
  assumes "failed_cont st = failed st" and "failed_max st = failed st"
  shows "let (r, st') = result (uboot_st_rounds U P (Suc n) res st) w in
    (if r then succeed st' = succeed st + 1 \<and> failed st' \<le> failed st + int n
     else succeed st' = succeed st \<and> failed st' = failed st + int n + 1) \<and>
    failed st \<le> failed st' \<and> failed_max st' = failed st'"
  using assms
proof (induction n arbitrary: res st w)
  case 0
  show ?case
  proof (cases rule: st_round_cases [of U P 0 res st w])
    case 1
    then show ?thesis using 0 by (simp add: psgmii_st_update_stats_def del: uboot_st_rounds.simps)
  next
    case (2 w')
    show ?thesis unfolding 2 using 0 by (simp add: psgmii_st_update_stats_def Let_def)
  qed
next
  case (Suc n)
  have f: "failed_cont (psgmii_st_update_stats False st) = failed (psgmii_st_update_stats False st)"
    "failed_max (psgmii_st_update_stats False st) = failed (psgmii_st_update_stats False st)"
    using Suc.prems by (simp_all add: psgmii_st_update_stats_def Let_def)
  show ?case
  proof (cases rule: st_round_cases [of U P "Suc n" res st w])
    case 1
    then show ?thesis using Suc.prems by (simp add: psgmii_st_update_stats_def del: uboot_st_rounds.simps)
  next
    case (2 w')
    show ?thesis unfolding 2
      using Suc.IH [OF f, of False w'] by (auto simp: Let_def case_prod_beta update_stats_simps split: if_splits)
  qed
qed

section \<open>Against the port\<close>

text \<open>
  What the PHY accessors of U-Boot promise about the PHYs, which were in state b:
  clause-22 accesses, indirect MMD accesses in four frames, 16-bit values; the
  reset of the switch leaves the PHYs alone.
\<close>

locale phy_layer =
  fixes U :: phy_ops and b :: "u8 \<Rightarrow> phy_regs"
  assumes read_law: "wp (phy_read U a dv (ucast r)) (\<lambda>v t. v = ucast (phy_load r (phys_of b s a)) \<and>
      phys_of b t = phys_of b s \<and> priv t = priv s) s"
    and write_law: "wp (phy_write U a dv (ucast r) v) (\<lambda>_ t.
      phys_of b t = wire_step (MdioWrite a r v) (phys_of b s) \<and> priv t = priv s) s"
    and read_mmd_law: "wp (phy_read_mmd U a (ucast d) (ucast r16)) (\<lambda>v t.
      phys_of b t = wire_run (phys_of b s) (mmd_select a d r16) \<and>
      v = ucast (phy_load MII_MMD_DATA (phys_of b t a)) \<and> priv t = priv s) s"
    and write_mmd_law: "wp (phy_write_mmd U a (ucast d) (ucast r16) v) (\<lambda>_ t.
      phys_of b t = wire_run (phys_of b s) (mmd_select a d r16 @ [MdioWrite a MII_MMD_DATA v]) \<and> priv t = priv s) s"
    and reset_law: "keeps (\<lambda>s. (phys_of b s, priv s)) (reset_assert U)"
      "keeps (\<lambda>s. (phys_of b s, priv s)) (reset_deassert U)"

text \<open>The same PHYs behind both drivers, and the devices of the board in U-Boot's.\<close>

definition psgmii_rel :: "(u8 \<Rightarrow> phy_regs) \<Rightarrow> ubd \<Rightarrow> drv \<Rightarrow> bool" where
  "psgmii_rel b s t \<longleftrightarrow> wire_rel b s t \<and> phydev (ep_esw (priv s)) = [0, 1, 2, 3, 4, 5] \<and>
     num_phy (ep_esw (priv s)) = 6 \<and> sw_base (ep_esw (priv s)) = IPQ4019_ESS_BASE"

lemma wire_run_single: "wire_run c [f] = wire_step f c"
  by (simp add: wire_run_def)

text \<open>The port's accessors in the same terms.\<close>

lemma wp_port_read_mmd:
  assumes "mdio_responsive P" and "mdio_answers P b"
  shows "wp (ipq4019_phy_read_mmd P a d r) (\<lambda>v t.
    phys_of b t = wire_run (phys_of b s) (mmd_select a d r) \<and> v = phy_load MII_MMD_DATA (phys_of b t a)) s"
proof (rule wp_phy_read_mmd [OF assms(1)])
  fix es h v cs
  assume es: "mdio_frames (es @ hist s) = mdio_frames (hist s) @ mmd_select a d r @ [MdioRead a MII_MMD_DATA]"
    and v: "v = bus_read P (es @ hist s) (mdio_base + MDIO_DATA_READ_REG)"
  have "ucast v = phy_load MII_MMD_DATA (wire_run b (mdio_frames (hist s) @ mmd_select a d r) a)"
    unfolding v by (rule mdio_answer [OF assms(2)]) (simp add: es)
  then show "phys_of b (s\<lparr>hist := Rd (mdio_base + MDIO_DATA_READ_REG) v # es @ hist s, console := cs @ console s\<rparr>) =
        wire_run (phys_of b s) (mmd_select a d r) \<and>
      ucast v = phy_load MII_MMD_DATA
        (phys_of b (s\<lparr>hist := Rd (mdio_base + MDIO_DATA_READ_REG) v # es @ hist s, console := cs @ console s\<rparr>) a)"
    using es by (simp add: phys_of_def wire_run_append wire_run_single)
qed

lemma wp_port_write_mmd:
  assumes "mdio_responsive P"
  shows "wp (ipq4019_phy_write_mmd P a d r v) (\<lambda>_ t.
    phys_of b t = wire_run (phys_of b s) (mmd_select a d r @ [MdioWrite a MII_MMD_DATA v])) s"
  by (rule wp_phy_write_mmd [OF assms]) (simp add: phys_of_def wire_run_append)


text \<open>Values: a 16-bit register in a C int.\<close>

lemma reg_bits:
  "(ucast (ucast x :: i32) :: u16) = x"
  "(ucast (v OR w :: i32) :: u16) = ucast v OR ucast w"
  "(ucast (v AND w :: i32) :: u16) = ucast v AND ucast w"
  "(ucast (- w :: i32) :: u16) = - ucast w"
proof -
  show "(ucast (ucast x :: i32) :: u16) = x" "(ucast (v OR w :: i32) :: u16) = ucast v OR ucast w"
    "(ucast (v AND w :: i32) :: u16) = ucast v AND ucast w"
    by (auto intro!: bit_word_eqI simp: bit_simps)
  show "(ucast (- w :: i32) :: u16) = - ucast w"
  proof -
    have "take_bit 16 (- take_bit 32 k) = take_bit 16 (- k)" for k :: int
      using take_bit_minus [of 16 "take_bit 32 k"] take_bit_minus [of 16 k] by (simp del: take_bit_minus)
    then show ?thesis by transfer (simp add: take_bit_minus)
  qed
qed

lemma reg_tests:
  "(ucast x = (ucast y :: i32)) = (x = y)"
  "(ucast x AND ucast y = (0 :: i32)) = (x AND y = 0)" for x y :: u16
proof -
  show "(ucast x = (ucast y :: i32)) = (x = y)" for x y :: u16
    using reg_bits(1) [of x] reg_bits(1) [of y] by metis
  from this [of "x AND y" 0] show "(ucast x AND ucast y = (0 :: i32)) = (x AND y = 0)"
    by (simp add: unsigned_and_eq)
qed

lemmas reg_values = reg_bits reg_tests [of _ 0, simplified] reg_tests [of _ "0x1000", simplified]
  reg_tests [of _ "0x400", simplified] FIELD_PREP_def

locale phy_simulation = phy_layer U b
  for U :: phy_ops and b :: "u8 \<Rightarrow> phy_regs" +
  fixes P :: platform
  assumes responsive: "mdio_responsive P" and answers: "mdio_answers P b"
begin

abbreviation phy_corres ::
  "('a \<Rightarrow> 'c \<Rightarrow> bool) \<Rightarrow> (ubd, 'a) state \<Rightarrow> (drv, 'c) state \<Rightarrow> bool" where
  "phy_corres \<equiv> corres (psgmii_rel b)"

lemma corres_both:
  assumes "\<And>s t. psgmii_rel b s t \<Longrightarrow> wp m (\<lambda>x s'. priv s' = priv s \<and> A s x (phys_of b s')) s"
    and "\<And>s t. psgmii_rel b s t \<Longrightarrow> wp n (\<lambda>y t'. B t y (phys_of b t')) t"
    and "\<And>s t x y p q. psgmii_rel b s t \<Longrightarrow> phys_of b s = phys_of b t \<Longrightarrow> A s x p \<Longrightarrow> B t y q \<Longrightarrow> V x y \<and> p = q"
  shows "phy_corres V m n"
proof (rule corresI)
  fix s t
  assume R: "psgmii_rel b s t"
  then have "phys_of b s = phys_of b t" by (simp add: psgmii_rel_def wire_rel_def)
  from assms(3) [OF R this] assms(1) [OF R] assms(2) [OF R]
  have "V (result m s) (result n t) \<and> phys_of b (exec m s) = phys_of b (exec n t)" "priv (exec m s) = priv s"
    unfolding wp_def by blast+
  then show "V (result m s) (result n t) \<and> psgmii_rel b (exec m s) (exec n t)"
    using R by (simp add: psgmii_rel_def wire_rel_def)
qed

lemma corres_phy_write:
  "phy_corres (\<lambda>_ _. True) (phy_write U a dv (ucast r) v) (ipq4019_mdio_write P a r v)"
proof (rule corres_both)
  show "wp (phy_write U a dv (ucast r) v) (\<lambda>_ s'. priv s' = priv s \<and>
      phys_of b s' = wire_step (MdioWrite a r v) (phys_of b s)) s" for s
    by (rule wp_mono [OF write_law]) simp
  show "wp (ipq4019_mdio_write P a r v) (\<lambda>_ t'. phys_of b t' = wire_step (MdioWrite a r v) (phys_of b t)) t" for t
    by (rule wp_mono [OF wp_port_write [OF responsive]]) (simp add: phys_of_def)
qed simp

lemma corres_phy_read:
  "phy_corres (\<lambda>v (rc, x). v = ucast x) (phy_read U a dv (ucast r)) (ipq4019_mdio_read P a r y)"
proof (rule corres_both)
  show "wp (phy_read U a dv (ucast r)) (\<lambda>v s'. priv s' = priv s \<and>
      v = ucast (phy_load r (phys_of b s a)) \<and> phys_of b s' = phys_of b s) s" for s
    by (rule wp_mono [OF read_law]) simp
  show "wp (ipq4019_mdio_read P a r y) (\<lambda>x t'. x = (0, phy_load r (phys_of b t a)) \<and> phys_of b t' = phys_of b t) t" for t
    by (rule wp_mono [OF wp_port_read [OF responsive answers]]) (simp add: phys_of_def)
qed auto

lemma corres_write_mmd:
  "phy_corres (\<lambda>_ _. True) (phy_write_mmd U a (ucast d) (ucast r) v) (ipq4019_phy_write_mmd P a d r v)"
proof (rule corres_both)
  show "wp (phy_write_mmd U a (ucast d) (ucast r) v) (\<lambda>_ s'. priv s' = priv s \<and>
      phys_of b s' = wire_run (phys_of b s) (mmd_select a d r @ [MdioWrite a MII_MMD_DATA v])) s" for s
    by (rule wp_mono [OF write_mmd_law]) simp
qed (rule wp_port_write_mmd [OF responsive], simp)

lemma corres_read_mmd:
  "phy_corres (\<lambda>v x. v = ucast x) (phy_read_mmd U a (ucast d) (ucast r)) (ipq4019_phy_read_mmd P a d r)"
proof (rule corres_both)
  show "wp (phy_read_mmd U a (ucast d) (ucast r)) (\<lambda>v s'. priv s' = priv s \<and>
      phys_of b s' = wire_run (phys_of b s) (mmd_select a d r) \<and> v = ucast (phy_load MII_MMD_DATA (phys_of b s' a))) s" for s
    by (rule wp_mono [OF read_mmd_law]) simp
qed (rule wp_port_read_mmd [OF responsive answers], simp)

text \<open>The forms in which the code uses them.\<close>

lemma corres_phy_write_bind:
  assumes "reg = ucast r" and "v = v'" and "phy_corres V m n"
  shows "phy_corres V (State_Monad.bind (phy_write U a dv reg v) (\<lambda>_. m))
    (State_Monad.bind (ipq4019_mdio_write P a r v') (\<lambda>_. n))"
  unfolding assms(1,2) by (rule corres_bind [OF corres_phy_write assms(3)])

lemma corres_phy_read_bind:
  assumes "reg = ucast r" and "\<And>x. phy_corres V (f (ucast x)) (g x)"
  shows "phy_corres V (State_Monad.bind (phy_read U a dv reg) f)
    (State_Monad.bind (ipq4019_mdio_read P a r y) (\<lambda>(_, x). g x))"
  unfolding assms(1) by (rule corres_bind [OF corres_phy_read]) (use assms(2) in auto)

lemma corres_write_mmd_bind:
  assumes "dv = ucast d" and "reg = ucast r" and "v = v'" and "phy_corres V m n"
  shows "phy_corres V (State_Monad.bind (phy_write_mmd U a dv reg v) (\<lambda>_. m))
    (State_Monad.bind (ipq4019_phy_write_mmd P a d r v') (\<lambda>_. n))"
  unfolding assms(1-3) by (rule corres_bind [OF corres_write_mmd assms(4)])

lemma corres_write_mmd_last:
  assumes "dv = ucast d" and "reg = ucast r" and "v = v'"
  shows "phy_corres (=) (State_Monad.bind (phy_write_mmd U a dv reg v) (\<lambda>_. ret ()))
    (ipq4019_phy_write_mmd P a d r v')"
  unfolding assms using corres_write_mmd by (simp add: corres_def)

lemma corres_read_mmd_bind:
  assumes "dv = ucast d" and "reg = ucast r" and "\<And>x. phy_corres V (f (ucast x)) (g x)"
  shows "phy_corres V (State_Monad.bind (phy_read_mmd U a dv reg) f)
    (State_Monad.bind (ipq4019_phy_read_mmd P a d r) g)"
  unfolding assms(1,2) by (rule corres_bind [OF corres_read_mmd]) (use assms(3) in auto)

lemmas corres_phy = corres_phy_write_bind corres_phy_read_bind corres_write_mmd_bind corres_write_mmd_last
  corres_read_mmd_bind

lemma corres_power_down:
  "phy_corres (=) (uboot_psgmii_st_phy_power_down U a) (psgmii_st_phy_power_down P a)"
  unfolding uboot_psgmii_st_phy_power_down_def psgmii_st_phy_power_down_def Let_def
  by (intro corres_phy corres_ret) (simp_all add: reg_values)

lemma corres_start_traffic:
  "phy_corres (=) (uboot_psgmii_st_phy_start_traffic U a) (psgmii_st_phy_start_traffic P a)"
  unfolding uboot_psgmii_st_phy_start_traffic_def psgmii_st_phy_start_traffic_def Let_def
  by (intro corres_phy corres_ret) (simp_all add: reg_values)

lemma corres_recover:
  "phy_corres (=) (uboot_psgmii_st_phy_recover U a) (psgmii_st_phy_recover P a)"
  unfolding uboot_psgmii_st_phy_recover_def psgmii_st_phy_recover_def Let_def
  by (intro corres_phy corres_ret) (simp_all add: reg_values)

lemma corres_reset_loopback:
  "phy_corres (=) (uboot_psgmii_st_phy_reset_loopback U a) (psgmii_st_phy_reset_loopback P a)"
  unfolding uboot_psgmii_st_phy_reset_loopback_def psgmii_st_phy_reset_loopback_def
  by (intro corres_phy corres_ret) simp_all

lemma corres_prepare:
  "phy_corres (=) (uboot_psgmii_st_phy_prepare U a) (psgmii_st_phy_prepare P a)"
  unfolding uboot_psgmii_st_phy_prepare_def psgmii_st_phy_prepare_def Let_def
  by (intro corres_phy corres_bind_eq corres_when_do corres_ret corres_power_down) (simp_all add: reg_values)

lemma corres_link_is_up:
  "phy_corres (\<lambda>r r'. r = (r' \<noteq> 0)) (uboot_psgmii_st_phy_link_is_up U a) (psgmii_st_phy_link_is_up P a)"
  unfolding uboot_psgmii_st_phy_link_is_up_def psgmii_st_phy_link_is_up_def
  by (intro corres_phy corres_ret) (simp_all add: reg_values)

lemma corres_check_counters:
  "phy_corres (\<lambda>r r'. r = (r' \<noteq> 0)) (uboot_psgmii_st_phy_check_counters U a) (psgmii_st_phy_check_counters P a)"
  unfolding uboot_psgmii_st_phy_check_counters_def psgmii_st_phy_check_counters_def
  by (intro corres_phy corres_ret) (simp_all add: reg_values)

end

context phy_simulation
begin

lemma corres_phydev:
  assumes "i < 6"
  shows "phy_corres (\<lambda>d _. d = of_nat i) (esw_phydev (int i)) (ret x)"
proof (rule corresI)
  fix s t
  assume R: "psgmii_rel b s t"
  have "[0, 1, 2, 3, 4, 5] ! i = (of_nat i :: u8)"
    using assms by (auto simp: less_Suc_eq numeral_eq_Suc)
  then show "result (esw_phydev (int i)) s = of_nat i \<and> psgmii_rel b (exec (esw_phydev (int i)) s) (exec (ret x) t)"
    using R assms by (simp add: esw_phydev_def psgmii_rel_def Let_def)
qed

text \<open>A step of U-Boot's program that the port does not have.\<close>

lemma corres_left_step:
  assumes "phy_corres U' m (ret ())" and "\<And>x. U' x () \<Longrightarrow> phy_corres V (f x) n"
  shows "phy_corres V (State_Monad.bind m f) n"
  using assms by (simp add: corres_def)

lemma corres_for_each_phy:
  assumes "\<And>d. phy_corres (=) (body d) (body' d)"
  shows "phy_corres (=) (for_each_phy body) (for_each [0..<5] (\<lambda>i. body' (of_nat i)))"
proof (rule corresI)
  fix s t
  assume R: "psgmii_rel b s t"
  have "phy_corres (=) (for_each [0..<5] (\<lambda>i. do { d \<leftarrow> esw_phydev (int i); body d }))
      (for_each [0..<5] (\<lambda>i. body' (of_nat i)))"
  proof (rule corres_for_each [OF refl])
    fix i :: nat
    assume "i \<in> set [0..<5]"
    then show "phy_corres (=) (do { d \<leftarrow> esw_phydev (int i); body d }) (body' (of_nat i))"
      by (intro corres_left_step [OF corres_phydev]) (use assms in auto)
  qed
  from corresD [OF this R]
  show "result (for_each_phy body) s = result (for_each [0..<5] (\<lambda>i. body' (of_nat i))) t \<and>
      psgmii_rel b (exec (for_each_phy body) s) (exec (for_each [0..<5] (\<lambda>i. body' (of_nat i))) t)"
    using R by (simp add: for_each_phy_def psgmii_rel_def del: upt_rec_numeral)
qed

lemma corres_scan:
  assumes "\<And>d. phy_corres (\<lambda>r r'. r = (r' \<noteq> 0)) (check d) (check' d)" and "set ps \<subseteq> {..<6}"
  shows "phy_corres (=) (uboot_st_phy_scan check ps m) (st_phy_scan check' ps m)"
  using assms(2)
proof (induction ps arbitrary: m)
  case Nil
  then show ?case by (simp add: corres_ret)
next
  case (Cons phy ps)
  then have "phy < 6" and IH: "\<And>m. phy_corres (=) (uboot_st_phy_scan check ps m) (st_phy_scan check' ps m)" by auto
  show ?case unfolding uboot_st_phy_scan.simps st_phy_scan.simps BIT_push_bit
  proof (rule corres_if [OF IH])
    have "phy_corres (=) (do { r \<leftarrow> check (of_nat phy);
          uboot_st_phy_scan check ps (if r then m AND NOT (push_bit phy 1) else m) })
      (do { r \<leftarrow> check' (of_nat phy);
          st_phy_scan check' ps (if r \<noteq> 0 then m AND NOT (push_bit phy 1) else m) })"
      by (rule corres_bind [OF assms(1)]) (simp add: IH cong: if_cong)
    then show "phy_corres (=) (do { d \<leftarrow> esw_phydev (int phy); r \<leftarrow> check d;
          uboot_st_phy_scan check ps (if r then m AND NOT (push_bit phy 1) else m) })
      (do { r \<leftarrow> check' (of_nat phy);
          st_phy_scan check' ps (if r \<noteq> 0 then m AND NOT (push_bit phy 1) else m) })"
      by (intro corres_left_step [OF corres_phydev [OF \<open>phy < 6\<close>]]) simp
  qed
qed

lemma keeps_corres:
  assumes "keeps (\<lambda>s. (phys_of b s, priv s)) m" and "keeps (phys_of b) n"
  shows "phy_corres (\<lambda>_ _. True) m n"
  by (rule corresI)
    (use assms in \<open>auto simp: psgmii_rel_def wire_rel_def keeps_def\<close>)

lemma corres_wait:
  assumes "\<And>d. phy_corres (\<lambda>r r'. r = (r' \<noteq> 0)) (check d) (check' d)"
  shows "phy_corres (\<lambda>r r'. r = (r' \<noteq> 0)) (uboot_psgmii_st_phy_wait m n delay check) (psgmii_st_phy_wait m n delay check')"
proof (rule corresI)
  fix s t
  assume R: "psgmii_rel b s t"
  have "phy_corres (=) (mdelay delay) (mdelay delay)"
    by (rule corresI) (simp add: psgmii_rel_def wire_rel_def phys_of_def mdelay_def emit_def)
  then have "phy_corres (=) (poll_loop (uboot_st_phy_scan check [0..<5]) (\<lambda>m. m = 0) (mdelay delay) n 0 m)
      (poll_loop (st_phy_scan check' [0..<5]) (\<lambda>m. m = 0) (mdelay delay) n 0 m)"
    by (intro corres_poll_loop corres_scan assms) auto
  from corresD [OF this R]
  show "result (uboot_psgmii_st_phy_wait m n delay check) s = (result (psgmii_st_phy_wait m n delay check') t \<noteq> 0) \<and>
      psgmii_rel b (exec (uboot_psgmii_st_phy_wait m n delay check) s) (exec (psgmii_st_phy_wait m n delay check') t)"
    using R by (simp add: uboot_psgmii_st_phy_wait_def psgmii_st_phy_wait_def psgmii_rel_def case_prod_beta
        del: upt_rec_numeral)
qed

end

context phy_simulation
begin

lemma corres_quiet:
  assumes "keeps (\<lambda>s. (phys_of b s, priv s)) m" and "keeps (phys_of b) n" and "\<And>x y. phy_corres V (f x) (g y)"
  shows "phy_corres V (State_Monad.bind m f) (State_Monad.bind n g)"
  by (rule corres_bind [OF keeps_corres [OF assms(1,2)]]) (rule assms(3))

lemma corres_right_quiet:
  assumes "keeps (phys_of b) n" and "\<And>y. phy_corres V m (g y)"
  shows "phy_corres V m (State_Monad.bind n g)"
  using assms by (auto simp: corres_def keeps_def psgmii_rel_def wire_rel_def)

lemma keeps_probe: "keeps (phys_of b) (when_do c (do { probe_phy_ids P; upd_vars f }))"
proof -
  have "keeps (phys_of b) (ipq4019_mdio_read P a r v :: (drv, int \<times> u16) state)" for a r v
  proof -
    have "mdio_frames (hist (exec (ipq4019_mdio_read P a r v) s)) = mdio_frames (hist s) @ [MdioRead a r]" for s :: drv
      using wp_port_read [OF responsive answers, of a r v s] by (simp add: wp_def)
    then show ?thesis by (simp add: keeps_def phys_of_def)
  qed
  then show ?thesis
    unfolding probe_phy_ids_def by (intro keeps_rules) (simp_all add: phys_of_def)
qed

lemma keeps_quiet:
  "keeps (phys_of b) (printf fmt xs)" "keeps (phys_of b) (mdelay k)"
  "keeps (\<lambda>s. (phys_of b s, priv s)) (printf fmt xs)" "keeps (\<lambda>s. (phys_of b s, priv s)) (mdelay k)"
  "keeps (phys_of b) (poll_loop (\<lambda>_. readl Q a) ok (mdelay k) n i v)"
  "keeps (\<lambda>s. (phys_of b s, priv s)) (poll_loop (\<lambda>_. readl Q a) ok (mdelay k) n i v)"
  "keeps (phys_of b) ess_reset" "keeps (phys_of b) psgmii_analog_cal"
  unfolding ess_reset_def psgmii_analog_cal_def Let_def
  by (intro keeps_rules; simp add: phys_of_def)+

lemma keeps_uboot_reset: "keeps (\<lambda>s. (phys_of b s, priv s)) (uboot_ess_reset U)"
  unfolding uboot_ess_reset_def by (intro keeps_bind keeps_quiet reset_law)

lemma corres_psgmii_phy:
  assumes "\<And>p. phy_corres V (f p 5) n"
  shows "phy_corres V (do { p \<leftarrow> gets priv; d \<leftarrow> esw_phydev (num_phy (ep_esw p) - 1); f p d }) n"
proof (rule corresI)
  fix s t
  assume R: "psgmii_rel b s t"
  from corresD [OF assms R, of "priv s"]
  show "V (result (do { p \<leftarrow> gets priv; d \<leftarrow> esw_phydev (num_phy (ep_esw p) - 1); f p d }) s) (result n t) \<and>
      psgmii_rel b (exec (do { p \<leftarrow> gets priv; d \<leftarrow> esw_phydev (num_phy (ep_esw p) - 1); f p d }) s) (exec n t)"
    using R by (simp add: psgmii_rel_def esw_phydev_def Let_def)
qed

lemma corres_qca8075_reset: "phy_corres (=) (uboot_qca8075_ess_reset U P) (qca8075_ess_reset P)"
proof -
  have wait: "phy_corres (=) (mdelay 1) (mdelay 1)"
    by (rule corresI) (simp add: psgmii_rel_def wire_rel_def phys_of_def mdelay_def emit_def)
  have poll: "phy_corres (\<lambda>(i, v) (j, x). i = j \<and> v = ucast x)
      (poll_loop (\<lambda>_. phy_read_mmd U 5 ub_MDIO_MMD_PMAPMD 0x28) (\<lambda>v. v AND 1 \<noteq> 0) (mdelay 1) 100 0 0)
      (poll_loop (\<lambda>_. ipq4019_phy_read_mmd P 5 MDIO_MMD_PMAPMD 0x28) (\<lambda>v. v AND 1 \<noteq> 0) (mdelay 1) 100 0 0)"
    by (rule corres_poll_loop_rel)
      (use corres_read_mmd [of 5 1 "0x28"] wait reg_tests(2) [of _ 1] in simp_all)
  show ?thesis
    unfolding uboot_qca8075_ess_reset_def qca8075_ess_reset_def psgmii_phy_def IPQ4019_PHY_PSGMII_ADDR_def
    by (rule corres_psgmii_phy, rule corres_right_quiet [OF keeps_gets], rule corres_right_quiet [OF keeps_probe],
      (rule corres_phy_write_bind, simp, simp)+, rule corres_bind [OF poll], clarsimp split del: if_split,
      rule corres_quiet [OF keeps_when_do keeps_when_do], (rule keeps_quiet)+,
      rule corres_phy_write_bind, simp, simp, rule corres_quiet [OF keeps_uboot_reset keeps_quiet(7)],
      rule corres_quiet [OF keeps_quiet(6,5)], clarsimp split del: if_split,
      rule corres_quiet [OF keeps_when_do keeps_when_do], (rule keeps_quiet)+,
      (rule corres_phy_write_bind, simp, simp)+, simp add: corres_ret)
qed

lemma corres_recover_all:
  "phy_corres (=) (uboot_st_recover_all U) (for_each [0..<IPQ4019_NUM_PORT_PHY] (\<lambda>i. do {
     psgmii_st_phy_recover P (of_nat i);
     _ \<leftarrow> ipq4019_mdio_write P (of_nat i) QCA807X_FUNCTION_CONTROL 0x6860;
     _ \<leftarrow> ipq4019_mdio_write P (of_nat i) MII_BMCR 0x9040;
     ret () }))"
  unfolding uboot_st_recover_all_def IPQ4019_NUM_PORT_PHY_def
  by (rule corres_for_each_phy) (intro corres_bind_eq corres_recover corres_phy_write_bind corres_ret; simp)

lemma corres_loopback_all:
  "phy_corres (=) (uboot_esw_port_loopback_set_all P e) (esw_port_loopback_set_all P e')"
proof -
  have away: "IPQ4019_ESS_BASE + (0x660 + of_nat i * 12) \<noteq> mdio_base + MDIO_CMD_REG" if "i \<in> {1, 2, 3, 4, 5}" for i
    using that by auto
  have port: "phy_corres (=) (uboot_esw_port_loopback_set P i e) (esw_port_loopback_set P i e')"
    if "i \<in> {1, 2, 3, 4, 5}" for i
  proof (rule corresI)
    fix s t
    assume R: "psgmii_rel b s t"
    then have base: "sw_base (ep_esw (priv s)) = IPQ4019_ESS_BASE" by (simp add: psgmii_rel_def)
    show "result (uboot_esw_port_loopback_set P i e) s = result (esw_port_loopback_set P i e') t \<and>
        psgmii_rel b (exec (uboot_esw_port_loopback_set P i e) s) (exec (esw_port_loopback_set P i e') t)"
      using R away [OF that] unfolding uboot_esw_port_loopback_set_def esw_port_loopback_set_def ess_def
        ub_ESS_PORT_LOOKUP_CTRL_def ESS_PORT_LOOKUP_CTRL_def Let_def readl_def writel_def emit_def
      by (simp add: base psgmii_rel_def wire_rel_def phys_of_def del: mdio_base_def MDIO_CMD_REG_def IPQ4019_ESS_BASE_def)
  qed
  have "[1..<6] = [1, 2, 3, 4, 5 :: nat]" by (simp add: upt_conv_Cons)
  then show ?thesis
    unfolding uboot_esw_port_loopback_set_all_def esw_port_loopback_set_all_def ub_ESS_PORTS_NUM_def ESS_PORTS_NUM_def
    by (intro corres_for_each refl port) simp
qed

end

text \<open>The steps, outside the locale.\<close>

lemma psgmii_steps_match:
  assumes "phy_layer U b" and "mdio_responsive P" and "mdio_answers P b" and "psgmii_rel b s t"
  shows "psgmii_rel b (exec (uboot_psgmii_st_phy_prepare U a) s) (exec (psgmii_st_phy_prepare P a) t) \<and>
    psgmii_rel b (exec (uboot_psgmii_st_phy_recover U a) s) (exec (psgmii_st_phy_recover P a) t) \<and>
    psgmii_rel b (exec (uboot_psgmii_st_phy_start_traffic U a) s) (exec (psgmii_st_phy_start_traffic P a) t) \<and>
    psgmii_rel b (exec (uboot_psgmii_st_phy_reset_loopback U a) s) (exec (psgmii_st_phy_reset_loopback P a) t) \<and>
    psgmii_rel b (exec (uboot_qca8075_ess_reset U P) s) (exec (qca8075_ess_reset P) t) \<and>
    result (uboot_psgmii_st_phy_link_is_up U a) s = (result (psgmii_st_phy_link_is_up P a) t \<noteq> 0) \<and>
    result (uboot_psgmii_st_phy_wait m n delay (uboot_psgmii_st_phy_link_is_up U)) s =
      (result (psgmii_st_phy_wait m n delay (psgmii_st_phy_link_is_up P)) t \<noteq> 0)"
proof -
  have ps: "phy_simulation U b P"
    using assms(1-3) by (simp add: phy_simulation_def phy_simulation_axioms_def)
  note prepare = corresD(2) [OF phy_simulation.corres_prepare [OF ps] assms(4), of a]
    and recover = corresD(2) [OF phy_simulation.corres_recover [OF ps] assms(4), of a]
    and traffic = corresD(2) [OF phy_simulation.corres_start_traffic [OF ps] assms(4), of a]
    and loopback = corresD(2) [OF phy_simulation.corres_reset_loopback [OF ps] assms(4), of a]
    and calibrate = corresD(2) [OF phy_simulation.corres_qca8075_reset [OF ps] assms(4)]
    and link = corresD(1) [OF phy_simulation.corres_link_is_up [OF ps] assms(4), of a]
    and wait = corresD(1) [OF phy_simulation.corres_wait [OF ps, of "uboot_psgmii_st_phy_link_is_up U"
        "psgmii_st_phy_link_is_up P", OF phy_simulation.corres_link_is_up [OF ps]] assms(4), of m n delay]
  show ?thesis by (intro conjI prepare recover traffic loopback calibrate link wait)
qed

text \<open>
  The accessors on top of U-Boot's own MDIO driver, with the standard sequence of
  four frames for a MMD access and a reset that the PHYs do not see.
\<close>

definition mdio_phy_ops ::
  "(u32 \<Rightarrow> (u32 \<Rightarrow> bool) \<Rightarrow> nat \<Rightarrow> nat \<Rightarrow> (ubd, i32) state) \<Rightarrow> platform \<Rightarrow> ipq4019_mdio_priv \<Rightarrow> phy_ops" where
  "mdio_phy_ops poll P mp =
    (let wr = (\<lambda>a r v. uboot_mdio_write poll mp (ucast a) MDIO_DEVAD_NONE (ucast (r :: u8)) v);
         select = (\<lambda>(a :: u8) d r. do {
           _ \<leftarrow> wr a MII_MMD_CTRL (ucast d); _ \<leftarrow> wr a MII_MMD_DATA (ucast r);
           wr a MII_MMD_CTRL (MMD_CTRL_DATA OR ucast d) })
     in \<lparr>phy_read = \<lambda>a dv r. uboot_mdio_read poll P mp (ucast a) dv r,
         phy_write = \<lambda>a dv r v. uboot_mdio_write poll mp (ucast a) dv r v,
         phy_read_mmd = \<lambda>a d r. do {
           _ \<leftarrow> select a d r; uboot_mdio_read poll P mp (ucast a) MDIO_DEVAD_NONE (ucast MII_MMD_DATA) },
         phy_write_mmd = \<lambda>a d r v. do { _ \<leftarrow> select a d r; wr a MII_MMD_DATA v },
         reset_assert = ret 0, reset_deassert = ret 0\<rparr>)"

lemma mdio_phy_layer:
  assumes "poll_macro poll P" and "uboot_mdio_responsive poll mp" and "mp_mdio_base mp = IPQ4019_MDIO_BASE"
    and answers: "mdio_answers P b"
    and zero_high: "\<And>h. bus_read P h (mdio_base + MDIO_DATA_READ_REG) AND NOT 0xffff = 0"
  shows "phy_layer (mdio_phy_ops poll P mp) b"
proof -
  note sent = poll_macro.wp_uboot_mdio_write [OF assms(1-3)]
  have wide: "bus_read P h (mdio_base + MDIO_DATA_READ_REG) = ucast (phy_load r (wire_run b fs a))"
    if "mdio_frames h = fs @ [MdioRead a r]" for h fs a r
  proof -
    let ?v = "bus_read P h (mdio_base + MDIO_DATA_READ_REG)"
    have m: "(0xffff :: u32) = mask 16" by (simp add: mask_eq_exp_minus_1)
    have "?v = ucast (ucast ?v :: u16)"
    proof (rule bit_word_eqI)
      fix n
      assume "n < LENGTH(32)"
      have "\<not> bit (?v AND NOT (mask 16)) n" using zero_high [of h] unfolding m by (simp only: bit_0_eq) simp
      then show "bit ?v n = bit (ucast (ucast ?v :: u16) :: u32) n"
        using \<open>n < LENGTH(32)\<close> by (auto simp: bit_simps)
    qed
    then show ?thesis using mdio_answer [OF answers that] by simp
  qed
  note got = poll_macro.wp_uboot_mdio_read [OF assms(1-3)]
  show ?thesis
  proof
    show "wp (phy_read (mdio_phy_ops poll P mp) a dv (ucast r))
        (\<lambda>v t. v = ucast (phy_load r (phys_of b s a)) \<and> phys_of b t = phys_of b s \<and> priv t = priv s) s" for a dv r s
      unfolding mdio_phy_ops_def Let_def by (simp, rule got) (simp add: wide [simplified] phys_of_def)
    show "wp (phy_write (mdio_phy_ops poll P mp) a dv (ucast r) v)
        (\<lambda>_ t. phys_of b t = wire_step (MdioWrite a r v) (phys_of b s) \<and> priv t = priv s) s" for a dv r v s
      unfolding mdio_phy_ops_def Let_def by (simp, rule sent) (simp add: phys_of_def)
  next
    have narrow: "(ucast (ucast d :: i32) :: u16) = ucast d" for d :: u8
      by (rule bit_word_eqI) (auto simp: bit_simps)
    note ctrl = sent [where reg = MII_MMD_CTRL, simplified] and data = sent [where reg = MII_MMD_DATA, simplified]
      and load = got [where reg = MII_MMD_DATA, simplified]
    show "wp (phy_read_mmd (mdio_phy_ops poll P mp) a (ucast d) (ucast r)) (\<lambda>v t.
        phys_of b t = wire_run (phys_of b s) (mmd_select a d r) \<and>
        v = ucast (phy_load MII_MMD_DATA (phys_of b t a)) \<and> priv t = priv s) s" for a d r s
      unfolding mdio_phy_ops_def Let_def
      by (simp add: narrow reg_bits, intro ctrl data load)
        (simp add: wide [simplified] phys_of_def mmd_select_def wire_run_def)
    show "wp (phy_write_mmd (mdio_phy_ops poll P mp) a (ucast d) (ucast r) v) (\<lambda>_ t.
        phys_of b t = wire_run (phys_of b s) (mmd_select a d r @ [MdioWrite a MII_MMD_DATA v]) \<and> priv t = priv s) s" for a d r v s
      unfolding mdio_phy_ops_def Let_def
      by (simp add: narrow reg_bits, intro ctrl data) (simp add: phys_of_def mmd_select_def wire_run_def)
  qed (simp_all add: mdio_phy_ops_def Let_def keeps_ret)
qed

definition board_ops :: "(u8 \<Rightarrow> phy_regs) \<Rightarrow> phy_ops" where
  "board_ops b = mdio_phy_ops (sample_poll (phy_platform b)) (phy_platform b) \<lparr>mp_mdio_base = IPQ4019_MDIO_BASE\<rparr>"

lemma phy_layer_board: "phy_layer (board_ops b) b"
  unfolding board_ops_def
proof (rule mdio_phy_layer [OF sample_poll.poll_macro_axioms sample_poll_responsive _ phy_platform_answers])
  have "(ucast x :: u32) AND NOT 0xffff = 0" for x :: u16
  proof -
    have m: "(0xffff :: u32) = mask 16" by (simp add: mask_eq_exp_minus_1)
    show ?thesis unfolding m by (rule bit_word_eqI) (auto simp: bit_simps dest: bit_imp_le_length)
  qed
  from this [simplified] show "bus_read (phy_platform b) h (mdio_base + MDIO_DATA_READ_REG) AND NOT 0xffff = 0" for h
    by (simp add: phy_platform_def split: list.split mdio_frame.split)
qed simp

interpretation board: phy_simulation "board_ops b" b "phy_platform b" for b
  by (simp add: phy_simulation_def phy_simulation_axioms_def phy_layer_board phy_platform_responsive phy_platform_answers)

text \<open>U-Boot's driver probed on the board.\<close>

definition ub_board :: ubd where
  "ub_board = ub_ready\<lparr>priv := (priv ub_ready)\<lparr>ep_esw := (ep_esw (priv ub_ready))\<lparr>sw_base := IPQ4019_ESS_BASE\<rparr>\<rparr>\<rparr>"

text \<open>
  U-Boot's self-test gives up: its retry loop makes at most 20 turns, ends at
  the first success, and counts each failure once, in a row.
\<close>

theorem uboot_self_test_rounds:
  "let (r, st) = result (uboot_st_rounds U P ub_PSGMII_ST_NUM_RETRIES False
      \<lparr>succeed = 0, failed = 0, failed_max = 0, failed_cont = 0\<rparr>) w in
    succeed st = (if r then 1 else 0) \<and> succeed st + failed st \<le> 20 \<and> (\<not> r \<longrightarrow> failed st = 20) \<and>
    0 \<le> failed st \<and> failed_max st = failed st"
proof -
  have n: "ub_PSGMII_ST_NUM_RETRIES = Suc 19" by simp
  show ?thesis unfolding n
    using st_rounds_stats [of "\<lparr>succeed = 0, failed = 0, failed_max = 0, failed_cont = 0\<rparr>" U P 19 False w]
    by (auto simp: Let_def case_prod_beta simp del: uboot_st_rounds.simps split: if_splits)
qed

end
