(* ===== verification/Uboot_Selftest.thy ===== *)
theory Uboot_Selftest
  imports Uboot_Psgmii
begin

text \<open>
  The whole PSGMII self-test of both drivers. U-Boot's runs its tests, up to twenty
  times; the port calibrates once and tests nothing. The PHYs end in the same state
  all the same: the recovery at the end undoes what the tests do to them.
\<close>

section \<open>What the tests change in a PHY\<close>

text \<open>The register file after a MMD register was selected, and after one was written.\<close>

definition phy_select :: "u8 \<Rightarrow> u16 \<Rightarrow> phy_regs \<Rightarrow> phy_regs" where
  "phy_select d r p = p\<lparr>c22 := (c22 p)(0x0d := 0x4000 OR ucast d), mmd_addr := (mmd_addr p)(d := r)\<rparr>"

definition phy_put :: "u8 \<Rightarrow> u16 \<Rightarrow> u16 \<Rightarrow> phy_regs \<Rightarrow> phy_regs" where
  "phy_put d r v p = (phy_select d r p)\<lparr>mmd_regs := (mmd_regs p)(d := (mmd_regs p d)(r := v))\<rparr>"

lemma wire_run_mmd:
  assumes "d < 32"
  shows "wire_run c (mmd_select a d r) = c(a := phy_select d r (c a))"
    and "wire_run c (mmd_select a d r @ [MdioWrite a MII_MMD_DATA v]) = c(a := phy_put d r v (c a))"
    and "phy_load MII_MMD_DATA (phy_select d r p) = mmd_regs p d r"
  using assms
  by (cases "c a", simp add: mmd_select_def wire_run_def phy_store_def mmd_dev_def mmd_data_mode_def phy_select_def phy_put_def
      phy_load_def)+

text \<open>
  \<open>phy_tested p q\<close>: q is p but for the registers the tests write: the control
  register, the generator of test packets, the enable bit of the packet counter, and
  what a MMD access goes through.
\<close>

definition phy_tested :: "phy_regs \<Rightarrow> phy_regs \<Rightarrow> bool" where
  "phy_tested p q \<longleftrightarrow> (\<forall>r. r \<noteq> 0 \<and> r \<noteq> 0x0d \<longrightarrow> c22 q r = c22 p r) \<and>
     (\<forall>d. d \<noteq> 7 \<longrightarrow> mmd_addr q d = mmd_addr p d) \<and>
     (\<forall>d r. (d, r) \<noteq> (7, 0x8020) \<and> (d, r) \<noteq> (7, 0x8029) \<longrightarrow> mmd_regs q d r = mmd_regs p d r) \<and>
     mmd_regs q 7 0x8029 AND NOT 1 = mmd_regs p 7 0x8029 AND NOT 1"

definition tested :: "(u8 \<Rightarrow> phy_regs) \<Rightarrow> (u8 \<Rightarrow> phy_regs) \<Rightarrow> bool" where
  "tested c e \<longleftrightarrow> (\<forall>a. if a < 5 then phy_tested (c a) (e a) else e a = c a)"

lemma tested_refl: "tested c c"
  by (simp add: tested_def phy_tested_def)

lemma tested_step:
  assumes "tested c e" and "a < 5" and "phy_tested (c a) p"
  shows "tested c (e(a := p))"
  using assms by (simp add: tested_def)

lemma testedD: "tested c e \<Longrightarrow> a < 5 \<Longrightarrow> phy_tested (c a) (e a)"
  by (simp add: tested_def)

lemma phy_tested_steps:
  assumes "phy_tested p q"
  shows "phy_tested p (q\<lparr>c22 := (c22 q)(0 := v)\<rparr>)" and "phy_tested p (phy_select 7 r q)"
    and "phy_tested p (phy_put 7 0x8020 v q)"
    and "phy_tested p (phy_put 7 0x8029 (mmd_regs q 7 0x8029 OR 1) q)"
proof -
  have "(x OR 1) AND NOT 1 = x AND NOT 1" for x :: u16
    by (rule bit_word_eqI) (auto simp: bit_simps)
  then show "phy_tested p (phy_put 7 0x8029 (mmd_regs q 7 0x8029 OR 1) q)"
    using assms by (auto simp: phy_tested_def phy_put_def phy_select_def)
qed (use assms in \<open>auto simp: phy_tested_def phy_put_def phy_select_def\<close>)

text \<open>What the recovery makes of a PHY.\<close>

definition phy_recovered :: "phy_regs \<Rightarrow> phy_regs" where
  "phy_recovered p = p\<lparr>c22 := (c22 p)(0x0d := 0x4007, 0x10 := 0x6860, 0 := 0x9040), mmd_addr := (mmd_addr p)(7 := 0x8020),
     mmd_regs := (mmd_regs p)(7 := (mmd_regs p 7)(0x8021 := 0,
       0x8029 := mmd_regs p 7 0x8029 AND NOT 0x2 AND NOT 1, 0x8020 := 0))\<rparr>"

lemma phy_recovered_tested:
  assumes "phy_tested p q"
  shows "phy_recovered q = phy_recovered p"
proof -
  have "x AND NOT 0x2 AND NOT 1 = (x AND NOT 1) AND NOT 0x2" for x :: u16
    by (metis and.assoc and.commute)
  then have "mmd_regs q 7 0x8029 AND NOT 0x2 AND NOT 1 = mmd_regs p 7 0x8029 AND NOT 0x2 AND NOT 1"
    using assms by (simp add: phy_tested_def)
  then show ?thesis
    using assms by (cases p; cases q) (auto simp: phy_recovered_def phy_tested_def fun_eq_iff)
qed

text \<open>And the calibration of the one behind the PSGMII.\<close>

definition phy_calibrated :: "phy_regs \<Rightarrow> phy_regs" where
  "phy_calibrated p = p\<lparr>c22 := (c22 p)(0x0d := 0x4001, 0x1a := 0x3230, 0 := 0x005f), mmd_addr := (mmd_addr p)(1 := 0x28)\<rparr>"

section \<open>The accesses\<close>

definition psgmii_board :: "essedma_priv \<Rightarrow> bool" where
  "psgmii_board q \<longleftrightarrow> phydev (ep_esw q) = [0, 1, 2, 3, 4, 5] \<and> num_phy (ep_esw q) = 6 \<and>
     sw_base (ep_esw q) = IPQ4019_ESS_BASE"

context phy_simulation
begin

lemma wp_U_read:
  assumes "reg = ucast r" and "\<And>t. phys_of b t = phys_of b s \<Longrightarrow> priv t = priv s \<Longrightarrow> Q (ucast (phy_load r (phys_of b s a))) t"
  shows "wp (phy_read U a dv reg) Q s"
  unfolding assms(1) by (rule wp_mono [OF read_law]) (use assms(2) in auto)

lemma wp_U_write:
  assumes "reg = ucast r" and "r \<noteq> 0x0e"
    and "\<And>x t. phys_of b t = (phys_of b s)(a := (phys_of b s a)\<lparr>c22 := (c22 (phys_of b s a))(r := v)\<rparr>) \<Longrightarrow> priv t = priv s \<Longrightarrow> Q x t"
  shows "wp (phy_write U a dv reg v) Q s"
  unfolding assms(1) by (rule wp_mono [OF write_law]) (use assms(2,3) in \<open>simp add: phy_store_def\<close>)

lemma wp_U_read_mmd:
  assumes "dv = ucast d" and "reg = ucast r" and "d < 32"
    and "\<And>t. phys_of b t = (phys_of b s)(a := phy_select d r (phys_of b s a)) \<Longrightarrow> priv t = priv s \<Longrightarrow>
      Q (ucast (mmd_regs (phys_of b s a) d r)) t"
  shows "wp (phy_read_mmd U a dv reg) Q s"
  unfolding assms(1,2)
  by (rule wp_mono [OF read_mmd_law]) (use assms(4) in \<open>simp add: wire_run_mmd(1,3) [OF assms(3), simplified]\<close>)

lemma wp_U_write_mmd:
  assumes "dv = ucast d" and "reg = ucast r" and "d < 32"
    and "\<And>x t. phys_of b t = (phys_of b s)(a := phy_put d r v (phys_of b s a)) \<Longrightarrow> priv t = priv s \<Longrightarrow> Q x t"
  shows "wp (phy_write_mmd U a dv reg v) Q s"
  unfolding assms(1,2)
  by (rule wp_mono [OF write_mmd_law]) (use assms(4) in \<open>simp add: wire_run_mmd(2) [OF assms(3), simplified]\<close>)

text \<open>The tests leave the PHYs in a tested state; the device's data is not theirs.\<close>

definition test_inv :: "(u8 \<Rightarrow> phy_regs) \<Rightarrow> essedma_priv \<Rightarrow> ubd \<Rightarrow> bool" where
  "test_inv c q s \<longleftrightarrow> tested c (phys_of b s) \<and> priv s = q"

definition keeps_tested :: "(u8 \<Rightarrow> phy_regs) \<Rightarrow> essedma_priv \<Rightarrow> (ubd, 'a) state \<Rightarrow> bool" where
  "keeps_tested c q m \<longleftrightarrow> (\<forall>s. test_inv c q s \<longrightarrow> wp m (\<lambda>_. test_inv c q) s)"

lemma keeps_testedI:
  assumes "\<And>s. tested c (phys_of b s) \<Longrightarrow> priv s = q \<Longrightarrow> wp m (\<lambda>_ t. tested c (phys_of b t) \<and> priv t = q) s"
  shows "keeps_tested c q m"
  using assms by (simp add: keeps_tested_def test_inv_def [abs_def])

lemma keeps_testedD:
  assumes "keeps_tested c q m" and "test_inv c q s" and "\<And>x t. test_inv c q t \<Longrightarrow> Q x t"
  shows "wp m Q s"
proof (rule wp_mono)
  show "wp m (\<lambda>_. test_inv c q) s" using assms(1,2) by (simp add: keeps_tested_def)
qed (rule assms(3))

lemma tested_quiet:
  assumes "keeps (\<lambda>s. (phys_of b s, priv s)) m"
  shows "keeps_tested c q m"
  using assms by (auto simp: keeps_def wp_def test_inv_def keeps_tested_def)

lemma tested_bind:
  assumes "keeps_tested c q m" and "\<And>x. keeps_tested c q (f x)"
  shows "keeps_tested c q (State_Monad.bind m f)"
  unfolding keeps_tested_def wp_bind
  by (intro allI impI, rule keeps_testedD [OF assms(1)], assumption, rule keeps_testedD [OF assms(2)])

lemma tested_ret: "keeps_tested c q (ret x)"
  by (simp add: keeps_tested_def)

lemma tested_gets: "keeps_tested c q (gets f)"
  by (simp add: keeps_tested_def)

lemma tested_if: "keeps_tested c q m \<Longrightarrow> keeps_tested c q n \<Longrightarrow> keeps_tested c q (if p then m else n)"
  by simp

lemma tested_for_each: "(\<And>i. i \<in> set is \<Longrightarrow> keeps_tested c q (body i)) \<Longrightarrow> keeps_tested c q (for_each is body)"
  by (induction "is") (simp_all add: tested_bind tested_ret)

lemma tested_poll_loop:
  assumes "\<And>v. keeps_tested c q (body v)" and "keeps_tested c q wait"
  shows "keeps_tested c q (poll_loop body ok wait n i v)"
proof (induction n arbitrary: i v)
  case 0
  then show ?case by (simp add: tested_ret)
next
  case (Suc n)
  show ?case unfolding poll_loop.simps
    by (intro tested_bind assms tested_if tested_ret Suc.IH)
qed

lemmas tested_rules = tested_bind tested_ret tested_gets tested_if tested_for_each tested_poll_loop

lemma tested_phy:
  assumes a: "a < 5"
  shows "keeps_tested c q (uboot_psgmii_st_phy_reset_loopback U a)"
    and "keeps_tested c q (uboot_psgmii_st_phy_link_is_up U a)"
    and "keeps_tested c q (uboot_psgmii_st_phy_start_traffic U a)"
    and "keeps_tested c q (uboot_psgmii_st_phy_check_counters U a)"
    and "keeps_tested c q (uboot_psgmii_st_phy_power_down U a)"
proof -
  note st = tested_step [OF _ a] and D = testedD [OF _ a]
  have bmcr: "tested c (e(a := (e a)\<lparr>c22 := (c22 (e a))(0 := v)\<rparr>))" if "tested c e" for e v
    by (rule st [OF that phy_tested_steps(1) [OF D [OF that]]])
  have sel: "tested c (e(a := phy_select 7 r (e a)))" if "tested c e" for e r
    by (rule st [OF that phy_tested_steps(2) [OF D [OF that]]])
  have gen: "tested c (e(a := phy_put 7 0x8020 v (e a)))" if "tested c e" for e v
    by (rule st [OF that phy_tested_steps(3) [OF D [OF that]]])
  have cnt: "tested c (e(a := phy_put 7 0x8029 (mmd_regs (e a) 7 0x8029 OR 1) (e a)))" if "tested c e" for e
    by (rule st [OF that phy_tested_steps(4) [OF D [OF that]]])
  have put: "phy_put 7 r v (phy_select 7 r p) = phy_put 7 r v p" for r v p
    by (cases p) (simp add: phy_put_def phy_select_def)
  show "keeps_tested c q (uboot_psgmii_st_phy_reset_loopback U a)"
    unfolding uboot_psgmii_st_phy_reset_loopback_def
    by (rule keeps_testedI, unfold wp_bind, rule wp_U_write [where r = 0], simp, simp, rule wp_U_write [where r = 0], simp, simp)
      (use bmcr [OF bmcr] in simp)
  show "keeps_tested c q (uboot_psgmii_st_phy_link_is_up U a)"
    unfolding uboot_psgmii_st_phy_link_is_up_def
    by (rule keeps_testedI, unfold wp_bind, rule wp_U_read [where r = "0x11"]) simp_all
  show "keeps_tested c q (uboot_psgmii_st_phy_check_counters U a)"
    unfolding uboot_psgmii_st_phy_check_counters_def
    by (rule keeps_testedI, unfold wp_bind, rule wp_U_read_mmd [where d = 7 and r = "0x802e"]) (simp_all add: sel)
  show "keeps_tested c q (uboot_psgmii_st_phy_power_down U a)"
    unfolding uboot_psgmii_st_phy_power_down_def Let_def
    by (rule keeps_testedI, unfold wp_bind, rule wp_U_read [where r = 0], simp, rule wp_U_write [where r = 0]) (simp_all add: bmcr)
  show "keeps_tested c q (uboot_psgmii_st_phy_start_traffic U a)"
    unfolding uboot_psgmii_st_phy_start_traffic_def Let_def
    apply (rule keeps_testedI, unfold wp_bind, rule wp_U_read_mmd [where d = 7 and r = "0x8029"], simp, simp, simp)
    apply (rule wp_U_write_mmd [where d = 7 and r = "0x8029"], simp, simp, simp)
    apply (rule wp_U_write_mmd [where d = 7 and r = "0x8020"], simp, simp, simp)
    apply (use gen [OF cnt] in \<open>simp add: put reg_bits\<close>)
    done
qed

lemma tested_priv:
  assumes "keeps_tested c q (f q)"
  shows "keeps_tested c q (State_Monad.bind (gets priv) f)"
  using assms by (simp add: keeps_tested_def test_inv_def)

lemma tested_phydev:
  assumes "psgmii_board q" and "i < 5" and "\<And>a. a < 5 \<Longrightarrow> keeps_tested c q (f a)"
  shows "keeps_tested c q (State_Monad.bind (esw_phydev (int i)) f)"
proof -
  consider "i = 0" | "i = 1" | "i = 2" | "i = 3" | "i = 4" using assms(2) by linarith
  then have "[0, 1, 2, 3, 4, 5] ! i = (of_nat i :: u8)" "(of_nat i :: u8) < 5" by (cases, simp_all)+
  then show ?thesis
    using assms(1,2) assms(3) [of "of_nat i"]
    by (simp add: keeps_tested_def test_inv_def esw_phydev_def Let_def psgmii_board_def)
qed

lemma tested_for_each_phy:
  assumes "psgmii_board q" and "\<And>a. a < 5 \<Longrightarrow> keeps_tested c q (body a)"
  shows "keeps_tested c q (for_each_phy body)"
  unfolding for_each_phy_def
  by (rule tested_priv, rule tested_for_each, rule tested_phydev [OF assms(1) _ assms(2)])
    (use assms(1) in \<open>auto simp: psgmii_board_def\<close>)

lemma tested_scan:
  assumes "psgmii_board q" and "\<And>a. a < 5 \<Longrightarrow> keeps_tested c q (check a)" and "set ps \<subseteq> {..<5}"
  shows "keeps_tested c q (uboot_st_phy_scan check ps m)"
  using assms(3)
proof (induction ps arbitrary: m)
  case (Cons i ps)
  then have "i < 5" and IH: "\<And>m. keeps_tested c q (uboot_st_phy_scan check ps m)" by auto
  then show ?case unfolding uboot_st_phy_scan.simps
    by (intro tested_if IH tested_phydev [OF assms(1)] tested_bind assms(2))
qed (simp add: tested_ret)

lemma tested_wait:
  assumes "psgmii_board q" and "\<And>a. a < 5 \<Longrightarrow> keeps_tested c q (check a)"
  shows "keeps_tested c q (uboot_psgmii_st_phy_wait m n delay check)"
  unfolding uboot_psgmii_st_phy_wait_def case_prod_beta
  by (rule tested_priv, intro tested_bind tested_poll_loop tested_scan [OF assms] tested_ret tested_quiet keeps_quiet)
    (use assms(1) in \<open>auto simp: psgmii_board_def\<close>)

lemma tested_waits:
  assumes "psgmii_board q"
  shows "keeps_tested c q (uboot_psgmii_st_phy_wait_link U m)"
    and "keeps_tested c q (uboot_psgmii_st_phy_wait_tx_complete U m)"
  unfolding uboot_psgmii_st_phy_wait_link_def uboot_psgmii_st_phy_wait_tx_complete_def
  by (intro tested_wait [OF assms] tested_phy; assumption)+

lemma tested_serial:
  assumes "psgmii_board q" and "set is \<subseteq> {..<5}"
  shows "keeps_tested c q (uboot_st_serial_from U is res)"
  using assms(2)
proof (induction "is" arbitrary: res)
  case (Cons i "is")
  then have "i < 5" and IH: "\<And>r. keeps_tested c q (uboot_st_serial_from U is r)" by auto
  then show ?case unfolding uboot_st_serial_from.simps Let_def
    by (intro tested_if IH tested_phydev [OF assms(1)] tested_bind tested_ret tested_phy tested_waits assms(1))
qed (simp add: tested_ret)

lemma tested_tests:
  assumes "psgmii_board q"
  shows "keeps_tested c q (uboot_psgmii_st_run_test_serial U)"
    and "keeps_tested c q (uboot_psgmii_st_run_test_parallel U)"
proof -
  show "keeps_tested c q (uboot_psgmii_st_run_test_serial U)"
    unfolding uboot_psgmii_st_run_test_serial_def
    by (rule tested_priv, rule tested_serial [OF assms]) (use assms in \<open>auto simp: psgmii_board_def\<close>)
  show "keeps_tested c q (uboot_psgmii_st_run_test_parallel U)"
    unfolding uboot_psgmii_st_run_test_parallel_def
    by (intro tested_bind tested_for_each_phy [OF assms] tested_phy tested_gets tested_waits [OF assms] tested_ret)
qed

lemma wp_loopback:
  assumes "psgmii_board (priv s)" and "\<And>t. phys_of b t = phys_of b s \<Longrightarrow> priv t = priv s \<Longrightarrow> Q () t"
  shows "wp (uboot_esw_port_loopback_set_all P' e) Q s"
proof -
  have six: "[1..<6] = [1, 2, 3, 4, 5 :: nat]" by (simp add: upt_conv_Cons)
  have away: "IPQ4019_ESS_BASE + (0x660 + of_nat i * 12) \<noteq> mdio_base + MDIO_CMD_REG" if "i \<in> {1, 2, 3, 4, 5}" for i
    using that by auto
  have base: "sw_base (ep_esw (priv s)) = IPQ4019_ESS_BASE" using assms(1) by (simp add: psgmii_board_def)
  have "wp (uboot_esw_port_loopback_set P' i e) (\<lambda>_ t. phys_of b t = phys_of b s \<and> priv t = priv s) t"
    if "i \<in> {1, 2, 3, 4, 5}" "phys_of b t = phys_of b s \<and> priv t = priv s" for i t
    using that(2) away [OF that(1)] unfolding uboot_esw_port_loopback_set_def ub_ESS_PORT_LOOKUP_CTRL_def Let_def
    by (simp add: wp_readl base phys_of_def del: mdio_base_def MDIO_CMD_REG_def IPQ4019_ESS_BASE_def)
  then have "wp (uboot_esw_port_loopback_set_all P' e) (\<lambda>_ t. phys_of b t = phys_of b s \<and> priv t = priv s) s"
    unfolding uboot_esw_port_loopback_set_all_def ub_ESS_PORTS_NUM_def six
    by (intro wp_for_each_inv) simp_all
  then show ?thesis by (rule wp_mono) (use assms(2) in simp)
qed

lemma tested_loopback:
  assumes "psgmii_board q"
  shows "keeps_tested c q (uboot_esw_port_loopback_set_all P' e)"
  by (rule keeps_testedI, rule wp_loopback) (use assms in auto)

section \<open>The calibration\<close>

lemma wp_poll_mmd:
  "wp (poll_loop (\<lambda>_. phy_read_mmd U a ub_MDIO_MMD_PMAPMD 0x28) ok (mdelay 1) (Suc n) i v)
    (\<lambda>_ t. phys_of b t = (phys_of b s)(a := phy_select 1 0x28 (phys_of b s a)) \<and> priv t = priv s) s"
    (is "wp _ (\<lambda>_ t. ?F t) s")
proof (rule wp_poll_loop [where I = "\<lambda>j _ t. if j = i then phys_of b t = phys_of b s \<and> priv t = priv s else ?F t"])
  fix j u t
  assume I: "if j = i then phys_of b t = phys_of b s \<and> priv t = priv s else ?F t" and j: "i \<le> j"
  have sel: "phy_select 1 0x28 (phy_select 1 0x28 p) = phy_select 1 0x28 p" for p
    by (cases p) (simp add: phy_select_def)
  show "wp (phy_read_mmd U a ub_MDIO_MMD_PMAPMD 0x28) (\<lambda>u' t'. if ok u' then ?F t'
      else wp (mdelay 1) (\<lambda>_ t. if Suc j = i then phys_of b t = phys_of b s \<and> priv t = priv s else ?F t) t') t"
    by (rule wp_U_read_mmd [where d = 1 and r = "0x28"], simp, simp, simp)
      (use I j in \<open>auto simp: sel phys_of_def split: if_splits\<close>)
qed simp_all

lemma wp_calibrate:
  assumes "psgmii_board (priv s)"
    and "\<And>t. phys_of b t = (phys_of b s)(5 := phy_calibrated (phys_of b s 5)) \<Longrightarrow> priv t = priv s \<Longrightarrow> Q () t"
  shows "wp (uboot_qca8075_ess_reset U P') Q s"
proof -
  have n: "(100 :: nat) = Suc 99" by simp
  have dev: "wp (esw_phydev (num_phy (ep_esw (priv s)) - 1)) R s" if "R 5 s" for R
    using assms(1) that by (simp add: esw_phydev_def psgmii_board_def Let_def)
  have keep: "wp m R t" if "keeps (\<lambda>s. (phys_of b s, priv s)) m" "\<And>x u. phys_of b u = phys_of b t \<Longrightarrow> priv u = priv t \<Longrightarrow> R x u"
    for m :: "(ubd, 'x) state" and R t
    using that by (auto simp: keeps_def wp_def)
  show ?thesis
    unfolding uboot_qca8075_ess_reset_def wp_bind wp_gets n
    apply (rule dev)
    apply (rule wp_U_write [where r = 0], simp, simp)
    apply (rule wp_U_write [where r = 0], simp, simp)
    apply (rule wp_U_write [where r = 0], simp, simp)
    apply (rule wp_mono [OF wp_poll_mmd])
    apply (unfold case_prod_beta wp_bind)
    apply (rule keep, rule keeps_when_do, rule keeps_quiet(3))
    apply (rule wp_U_write [where r = "0x1a"], simp, simp)
    apply (rule keep, rule keeps_uboot_reset)
    apply (rule keep, rule keeps_quiet)
    apply (rule keep, rule keeps_when_do, rule keeps_quiet(3))
    apply (rule wp_U_write [where r = "0x1a"], simp, simp)
    apply (rule wp_U_write [where r = 0], simp, simp)
    apply (unfold wp_ret, rule assms(2))
    apply (simp_all add: phy_calibrated_def phy_select_def)
    apply (cases "phys_of b s 5", simp add: fun_eq_iff)
    done
qed

lemma tested_calibrate:
  assumes "psgmii_board q" and "phy_calibrated (c 5) = c 5"
  shows "keeps_tested c q (uboot_qca8075_ess_reset U P')"
proof (rule keeps_testedI, rule wp_calibrate)
  fix s t :: ubd
  assume "tested c (phys_of b s)" and "priv s = q"
    and t: "phys_of b t = (phys_of b s)(5 := phy_calibrated (phys_of b s 5))" "priv t = priv s"
  moreover from this have "phys_of b s 5 = c 5" by (auto simp: tested_def dest: spec [of _ 5])
  ultimately show "tested c (phys_of b t) \<and> priv t = q"
    using assms(2) by (simp add: fun_upd_idem)
qed (use assms in simp)

lemma tested_round:
  assumes "psgmii_board q"
    and "\<And>res st. keeps_tested c q (uboot_st_rounds U P' n res st)"
  shows "keeps_tested c q (do {
     uboot_esw_port_loopback_set_all P' True;
     res \<leftarrow> uboot_psgmii_st_run_test_serial U;
     res \<leftarrow> (if res then uboot_psgmii_st_run_test_parallel U else ret res);
     let st = psgmii_st_update_stats res st;
     if psgmii_self_test_repeat then uboot_st_rounds U P' n res st
     else if res then ret (res, st) else uboot_st_rounds U P' n res st })"
  unfolding Let_def
  by (intro tested_bind tested_if tested_ret tested_tests tested_loopback assms)

lemma tested_rounds:
  assumes "psgmii_board q" and "phy_calibrated (c 5) = c 5"
  shows "keeps_tested c q (uboot_st_rounds U P' n res st)"
proof (induction n arbitrary: res st)
  case 0
  then show ?case by (simp add: tested_ret)
next
  case (Suc n)
  show ?case unfolding uboot_st_rounds.simps
    by (rule tested_bind [OF tested_calibrate [of q c, OF assms] tested_round [OF assms(1) Suc.IH]])
qed

text \<open>However the tests come out, all that is left of them is a tested state.\<close>

lemma wp_rounds:
  assumes "psgmii_board (priv s)"
    and "\<And>x t. tested ((phys_of b s)(5 := phy_calibrated (phys_of b s 5))) (phys_of b t) \<Longrightarrow> priv t = priv s \<Longrightarrow> Q x t"
  shows "wp (uboot_st_rounds U P' (Suc n) res st) Q s"
proof -
  let ?c = "(phys_of b s)(5 := phy_calibrated (phys_of b s 5))"
  have "phy_calibrated (?c 5) = ?c 5" by (simp add: phy_calibrated_def fun_upd_twist)
  note rounds = tested_round [OF assms(1) tested_rounds [of "priv s" ?c, OF assms(1) this]]
  show ?thesis unfolding uboot_st_rounds.simps wp_bind [of "uboot_qca8075_ess_reset U P'"]
    by (rule wp_calibrate [OF assms(1)], rule keeps_testedD [OF rounds])
      (use assms(2) in \<open>simp_all add: test_inv_def tested_refl\<close>)
qed

section \<open>The recovery\<close>

lemma wp_recover:
  assumes "\<And>t. phys_of b t = (phys_of b s)(a := phy_recovered (phys_of b s a)) \<Longrightarrow> priv t = priv s \<Longrightarrow> Q () t"
  shows "wp (do {
     uboot_psgmii_st_phy_recover U a;
     _ \<leftarrow> phy_write U a MDIO_DEVAD_NONE (ucast ub_QCA807X_FUNCTION_CONTROL) 0x6860;
     _ \<leftarrow> phy_write U a MDIO_DEVAD_NONE ub_MII_BMCR 0x9040;
     ret () }) Q s"
  unfolding uboot_psgmii_st_phy_recover_def wp_bind Let_def
  apply (rule wp_U_write_mmd [where d = 7 and r = "0x8021"], simp, simp, simp)
  apply (rule wp_U_read_mmd [where d = 7 and r = "0x8029"], simp, simp, simp)
  apply (rule wp_U_write_mmd [where d = 7 and r = "0x8029"], simp, simp, simp)
  apply (rule wp_U_write_mmd [where d = 7 and r = "0x8020"], simp, simp, simp)
  apply (unfold wp_ret)
  apply (rule wp_U_write [where r = "0x10"], simp, simp)
  apply (rule wp_U_write [where r = 0], simp, simp)
  apply (rule assms)
  apply (simp_all add: phy_recovered_def phy_put_def phy_select_def reg_bits)
  apply (cases "phys_of b s a", auto simp: fun_eq_iff and.assoc)
  done

lemma wp_recover_all:
  assumes "psgmii_board (priv s)"
    and "\<And>t. phys_of b t = (\<lambda>a. if a < 5 then phy_recovered (phys_of b s a) else phys_of b s a) \<Longrightarrow>
      priv t = priv s \<Longrightarrow> Q () t"
  shows "wp (uboot_st_recover_all U) Q s"
proof -
  have dev: "wp (esw_phydev (int i)) R t" if "i < 5" "priv t = priv s" "R (of_nat i) t" for i R t
  proof -
    have "[0, 1, 2, 3, 4, 5] ! i = (of_nat i :: u8)"
      using that(1) by (auto simp: less_Suc_eq numeral_eq_Suc)
    then show ?thesis using assms(1) that by (simp add: esw_phydev_def psgmii_board_def Let_def)
  qed
  have five: "nat (num_phy (ep_esw (priv s)) - 1) = 5" using assms(1) by (simp add: psgmii_board_def)
  show ?thesis
    unfolding uboot_st_recover_all_def for_each_phy_def wp_bind wp_gets five
  proof (rule wp_for_upto [where I = "\<lambda>i t. phys_of b t = (\<lambda>a. if unat a < i then phy_recovered (phys_of b s a)
      else phys_of b s a) \<and> priv t = priv s"])
    fix i and t :: ubd
    assume i: "i < 5" and I: "phys_of b t = (\<lambda>a. if unat a < i then phy_recovered (phys_of b s a)
      else phys_of b s a) \<and> priv t = priv s"
    have n: "unat (of_nat i :: u8) = i" using i by (simp add: unat_of_nat take_bit_nat_eq_self)
    have up: "(unat a < Suc i) = (unat a < i \<or> a = of_nat i)" for a :: u8
      by (simp add: less_Suc_eq word_unat_eq_iff n)
    show "wp (State_Monad.bind (esw_phydev (int i)) (\<lambda>d. do {
       uboot_psgmii_st_phy_recover U d;
       _ \<leftarrow> phy_write U d MDIO_DEVAD_NONE (ucast ub_QCA807X_FUNCTION_CONTROL) 0x6860;
       _ \<leftarrow> phy_write U d MDIO_DEVAD_NONE ub_MII_BMCR 0x9040;
       ret () })) (\<lambda>_ u. phys_of b u = (\<lambda>a. if unat a < Suc i then phy_recovered (phys_of b s a)
         else phys_of b s a) \<and> priv u = priv s) t"
      unfolding wp_bind [of "esw_phydev (int i)"]
      by (rule dev [OF i], use I in simp, rule wp_recover) (use I n in \<open>auto simp: up\<close>)
  next
    fix t :: ubd
    assume "phys_of b t = (\<lambda>a. if unat a < 5 then phy_recovered (phys_of b s a) else phys_of b s a) \<and> priv t = priv s"
    then show "Q () t" using assms(2) by (simp add: word_less_nat_alt)
  qed simp
qed

section \<open>The whole self-test\<close>

lemma recovered_alike:
  assumes "tested c e"
  shows "(\<lambda>a. if a < 5 then phy_recovered (e a) else e a) = (\<lambda>a. if a < 5 then phy_recovered (c a) else c a)"
  using assms by (auto simp: tested_def phy_recovered_tested)

lemma psgmii_rel_cong:
  assumes "psgmii_rel b s t" and "phys_of b s' = phys_of b s" and "priv s' = priv s"
  shows "psgmii_rel b s' t"
  using assms by (simp add: psgmii_rel_def wire_rel_def)

text \<open>The port's self-test is U-Boot's without the tests.\<close>

lemma corres_untested:
  "phy_corres (\<lambda>_ _. True) (do {
     for_each_phy (uboot_psgmii_st_phy_prepare U);
     uboot_qca8075_ess_reset U P;
     uboot_st_recover_all U;
     uboot_esw_port_loopback_set_all P False }) (ipq4019_psgmii_self_test P)"
  unfolding ipq4019_psgmii_self_test_def Let_def IPQ4019_NUM_PORT_PHY_def
  by (rule corres_right_quiet [OF keeps_quiet(1)], rule corres_right_quiet [OF keeps_quiet(8)],
    rule corres_right_quiet [OF keeps_quiet(1)], rule corres_bind [OF corres_for_each_phy [OF corres_prepare]],
    rule corres_right_quiet [OF keeps_quiet(1)], rule corres_bind [OF corres_qca8075_reset],
    rule corres_right_quiet [OF keeps_quiet(8)], rule corres_right_quiet [OF keeps_quiet(2)],
    rule corres_right_quiet [OF keeps_quiet(1)], rule corres_bind [OF corres_recover_all [unfolded IPQ4019_NUM_PORT_PHY_def]])
    (use corres_loopback_all in \<open>simp add: corres_def\<close>)

lemma self_tests:
  assumes R: "psgmii_rel b s t"
  shows self_test_simulation: "psgmii_rel b (exec (uboot_psgmii_self_test U P) s) (exec (ipq4019_psgmii_self_test P) t)"
    and before_loopback: "\<exists>u. sw_base (ep_esw (priv u)) = IPQ4019_ESS_BASE \<and>
      exec (uboot_psgmii_self_test U P) s = exec (uboot_esw_port_loopback_set_all P False) u"
proof -
  let ?loop = "uboot_esw_port_loopback_set_all P False"
  let ?s1 = "exec (for_each_phy (uboot_psgmii_st_phy_prepare U)) s"
  let ?tests = "uboot_st_rounds U P ub_PSGMII_ST_NUM_RETRIES False \<lparr>succeed = 0, failed = 0, failed_max = 0, failed_cont = 0\<rparr>"
  let ?sT = "exec ?tests ?s1" and ?sC = "exec (uboot_qca8075_ess_reset U P) ?s1"
  let ?rT = "exec (uboot_st_recover_all U) ?sT" and ?rC = "exec (uboot_st_recover_all U) ?sC"
  have "psgmii_rel b ?s1 (exec (for_each [0..<5] (\<lambda>i. psgmii_st_phy_prepare P (of_nat i))) t)"
    by (rule corresD(2) [OF corres_for_each_phy [OF corres_prepare] R])
  then have board: "psgmii_board (priv ?s1)" by (simp add: psgmii_rel_def psgmii_board_def)
  have C: "phys_of b ?sC = (phys_of b ?s1)(5 := phy_calibrated (phys_of b ?s1 5))" "priv ?sC = priv ?s1"
    by (rule wp_execI, rule wp_calibrate [OF board], assumption)+
  have T: "tested (phys_of b ?sC) (phys_of b ?sT)" "priv ?sT = priv ?s1"
    unfolding C(1) ub_PSGMII_ST_NUM_RETRIES_def numeral_eq_Suc pred_numeral_simps
    by (rule wp_execI, rule wp_rounds [OF board], assumption)+
  have r: "phys_of b (exec (uboot_st_recover_all U) u) = (\<lambda>a. if a < 5 then phy_recovered (phys_of b u a) else phys_of b u a)"
    "priv (exec (uboot_st_recover_all U) u) = priv u" if "psgmii_board (priv u)" for u
    by (rule wp_execI, rule wp_recover_all [OF that], assumption)+
  have same: "phys_of b ?rT = phys_of b ?rC" "priv ?rT = priv ?rC"
    using r [of ?sT] r [of ?sC] recovered_alike [OF T(1)] T(2) C(2) board by simp_all
  have "psgmii_rel b (exec ?loop ?rC) (exec (ipq4019_psgmii_self_test P) t)"
    using corresD(2) [OF corres_untested R] by simp
  moreover have "phys_of b (exec ?loop u) = phys_of b u" "priv (exec ?loop u) = priv u" if "psgmii_board (priv u)" for u
    by (rule wp_execI, rule wp_loopback [OF that], assumption)+
  then have "phys_of b (exec ?loop ?rT) = phys_of b (exec ?loop ?rC)" "priv (exec ?loop ?rT) = priv (exec ?loop ?rC)"
    using same r(2) [of ?sC] C(2) board by simp_all
  ultimately have "psgmii_rel b (exec ?loop ?rT) (exec (ipq4019_psgmii_self_test P) t)"
    by (rule psgmii_rel_cong)
  then show "psgmii_rel b (exec (uboot_psgmii_self_test U P) s) (exec (ipq4019_psgmii_self_test P) t)"
    by (simp add: uboot_psgmii_self_test_def Let_def case_prod_beta)
  show "\<exists>u. sw_base (ep_esw (priv u)) = IPQ4019_ESS_BASE \<and> exec (uboot_psgmii_self_test U P) s = exec ?loop u"
    using r(2) [of ?sT] T(2) board
    by (intro exI [of _ ?rT]) (simp add: uboot_psgmii_self_test_def Let_def case_prod_beta psgmii_board_def)
qed

end

section \<open>What the self-test does to the board\<close>

text \<open>The register writes of a history, those to the MDIO controller left out.\<close>

definition board_writes :: "event list \<Rightarrow> (u32 \<times> u32) list" where
  "board_writes h = filter (\<lambda>(a, _). a \<notin> {mdio_base..<mdio_base + 0x100}) (writes h)"

lemma board_writes_append: "board_writes (xs @ ys) = board_writes ys @ board_writes xs"
  by (simp add: board_writes_def)

lemma board_writes_quiet [simp]:
  "board_writes (Udelay k # h) = board_writes h" "board_writes (Rd a v # h) = board_writes h"
  by (simp_all add: board_writes_def)

abbreviation keeps_board :: "(drv, 'a) state \<Rightarrow> bool" where
  "keeps_board \<equiv> keeps (\<lambda>s. board_writes (hist s))"

lemma keeps_board_io:
  "keeps_board (readl P a)" "keeps_board (udelay k)" "keeps_board (mdelay k)" "keeps_board (printf f xs)"
  "a \<in> {mdio_base..<mdio_base + 0x100} \<Longrightarrow> keeps_board (writel v a)"
  by (simp_all add: keeps_def board_writes_def readl_def writel_def udelay_def mdelay_def printf_def emit_def)

lemma keeps_board_mdio:
  "keeps_board (ipq4019_mdio_read P a r v)" "keeps_board (ipq4019_mdio_write P a r w)"
  "keeps_board (ipq4019_phy_read_mmd P a d x)" "keeps_board (ipq4019_phy_write_mmd P a d x w)"
proof -
  have wait: "keeps_board (mdio_wait_busy P)"
    unfolding mdio_wait_busy_def by (intro keeps_rules keeps_board_io)
  show rd: "keeps_board (ipq4019_mdio_read P a r v)" for a r v
    unfolding ipq4019_mdio_read_def by (intro keeps_rules wait keeps_board_io) simp_all
  show wr: "keeps_board (ipq4019_mdio_write P a r w)" for a r w
    unfolding ipq4019_mdio_write_def by (intro keeps_rules wait keeps_board_io) simp_all
  show "keeps_board (ipq4019_phy_read_mmd P a d x)" "keeps_board (ipq4019_phy_write_mmd P a d x w)"
    unfolding ipq4019_phy_read_mmd_def ipq4019_phy_write_mmd_def by (intro keeps_rules rd wr)+
qed

lemma keeps_board_phy:
  "keeps_board (psgmii_st_phy_prepare P a)" "keeps_board (psgmii_st_phy_recover P a)" "keeps_board (probe_phy_ids P)"
  unfolding psgmii_st_phy_prepare_def psgmii_st_phy_power_down_def psgmii_st_phy_recover_def probe_phy_ids_def Let_def
  by (intro keeps_rules keeps_board_mdio keeps_board_io)+

text \<open>The analog calibration of the PSGMII, and the pulse on the switch's reset line.\<close>

definition analog_cal_writes :: "(u32 \<times> u32) list" where
  "analog_cal_writes = [(0x9878c, 0x2803), (0x9809c, 0x4ada), (0x9809c, 0x0ada)]"

definition ess_reset_writes :: "(u32 \<times> u32) list" where
  "ess_reset_writes = [(0x1812008, 1), (0x1812008, 0)]"

lemma keeps_boardD:
  assumes "keeps_board m" and "\<And>x t. board_writes (hist t) = board_writes (hist s) \<Longrightarrow> Q x t"
  shows "wp m Q s"
  using assms by (simp add: keeps_def wp_def)

lemma wp_analog_cal:
  assumes "\<And>t. board_writes (hist t) = board_writes (hist s) @ analog_cal_writes \<Longrightarrow> Q () t"
  shows "wp psgmii_analog_cal Q s"
  unfolding psgmii_analog_cal_def
  by (simp, rule assms) (simp add: board_writes_def analog_cal_writes_def)

lemma wp_ess_reset_writes:
  assumes "\<And>t. board_writes (hist t) = board_writes (hist s) @ ess_reset_writes \<Longrightarrow> Q () t"
  shows "wp ess_reset Q s"
  unfolding ess_reset_def Let_def
  by (simp, rule assms) (simp add: board_writes_def ess_reset_writes_def)

lemma wp_calibration_writes:
  assumes "\<And>t. board_writes (hist t) = board_writes (hist s) @ ess_reset_writes \<Longrightarrow> Q () t"
  shows "wp (qca8075_ess_reset P) Q s"
proof -
  note keep = keeps_rules keeps_board_mdio keeps_board_io keeps_board_phy
  show ?thesis
    unfolding qca8075_ess_reset_def wp_bind wp_gets case_prod_beta
    apply (rule keeps_boardD, (intro keep; simp))+
    apply (rule wp_ess_reset_writes)
    apply (rule keeps_boardD, (intro keep; simp))+
    apply (simp add: assms)
    done
qed

text \<open>Reading and rewriting the lookup registers of ports 1 to 5, bit 21 cleared.\<close>

definition loopback_cleared :: "event list \<Rightarrow> bool" where
  "loopback_cleared es \<longleftrightarrow> map fst (reads es) = map (\<lambda>i. 0x0c000660 + of_nat i * 12) [1..<6] \<and>
     writes es = map (\<lambda>(a, x). (a, x AND NOT 0x200000)) (reads es)"

lemma wp_port_self_test:
  "wp (ipq4019_psgmii_self_test P) (\<lambda>r t'. r = 0 \<and> (\<exists>es h. hist t' = es @ h \<and> loopback_cleared es \<and>
    board_writes h = board_writes (hist t) @ analog_cal_writes @ ess_reset_writes @ analog_cal_writes)) t"
  unfolding ipq4019_psgmii_self_test_def wp_bind Let_def
  apply (rule keeps_boardD, (intro keeps_rules keeps_board_io; simp))
  apply (rule wp_analog_cal)
  apply (rule keeps_boardD, (intro keeps_rules keeps_board_io; simp))
  apply (rule keeps_boardD, (intro keeps_rules keeps_board_phy; simp))
  apply (rule keeps_boardD, (intro keeps_rules keeps_board_io; simp))
  apply (rule wp_calibration_writes)
  apply (rule wp_analog_cal)
  apply (rule keeps_boardD, (intro keeps_rules keeps_board_io; simp))
  apply (rule keeps_boardD, (intro keeps_rules keeps_board_io; simp))
  apply (rule keeps_boardD, (intro keeps_rules keeps_board_phy keeps_board_mdio; simp))
  apply (rule wp_loopback_set_all)
  apply (fastforce simp: loopback_cleared_def)
  done

text \<open>U-Boot's loop over the ports reads the driver's data anew for each of them.\<close>

lemma wp_for_each_priv:
  assumes "\<And>p i. keeps priv (body p i)" and "wp (for_each is (body (priv s))) Q s"
  shows "wp (for_each is (\<lambda>i. State_Monad.bind (gets priv) (\<lambda>p. body p i))) Q s"
  using assms(2)
proof (induction "is" arbitrary: s)
  case (Cons i "is")
  have p: "priv (exec (body (priv s) i) s) = priv s" by (rule keeps_exec, rule assms(1))
  show ?case
    using Cons.IH [of "exec (body (priv s) i) s"] Cons.prems unfolding p
    by (simp add: wp_def)
qed simp

lemma wp_uboot_loopback_off:
  assumes "sw_base (ep_esw (priv s)) = IPQ4019_ESS_BASE"
  shows "wp (uboot_esw_port_loopback_set_all P False) (\<lambda>_ s'. \<exists>es. hist s' = es @ hist s \<and> loopback_cleared es) s"
proof -
  let ?body = "\<lambda>p i. rmw P (sw_base (ep_esw p) + ub_ESS_PORT_LOOKUP_CTRL i) (\<lambda>v. v AND NOT 0x200000)"
  have "uboot_esw_port_loopback_set_all P False = for_each [1..<6] (\<lambda>i. State_Monad.bind (gets priv) (\<lambda>p. ?body p i))"
    by (simp add: uboot_esw_port_loopback_set_all_def uboot_esw_port_loopback_set_def rmw_def Let_def cong: if_cong)
  moreover have "wp (for_each [1..<6] (\<lambda>i. State_Monad.bind (gets priv) (\<lambda>p. ?body p i)))
      (\<lambda>_ s'. \<exists>es. hist s' = es @ hist s \<and> loopback_cleared es) s"
  proof (rule wp_for_each_priv)
    show "keeps priv (?body p i)" for p i
      unfolding rmw_def by (simp add: keeps_def readl_def writel_def emit_def)
    show "wp (for_each [1..<6] (?body (priv s))) (\<lambda>_ s'. \<exists>es. hist s' = es @ hist s \<and> loopback_cleared es) s"
      by (rule wp_rmw_loop) (use assms in \<open>auto simp: loopback_cleared_def\<close>)
  qed
  ultimately show ?thesis by simp
qed

text \<open>
  C22: behind the same PHYs, U-Boot's self-test and the port's do the same. Step by
  step: preparing, recovering, starting traffic, the loopback reset and the
  calibration with its reset of the switch leave the PHYs in the same state; the
  link check agrees, and so does a wait for link with the same bounds. As a whole:
  however U-Boot's tests come out, in whichever of its up to twenty rounds, the two
  self-tests leave every register of every PHY the same, and both end by reading
  the lookup registers of ports 1 to 5 and writing them back with loopback off. The
  port's returns 0, and the writes it makes on the way, those to the MDIO controller
  apart, are exactly the analog calibration, the pulse on the switch's reset line,
  and the analog calibration again. (The PHYs answer and the MDIO controller is
  never busy for a full timeout; U-Boot's accessors do what its PHY layer documents.)
\<close>

theorem psgmii_matches_uboot:
  assumes "phy_layer U b" and "mdio_responsive P" and "mdio_answers P b" and "psgmii_rel b s t"
  shows "psgmii_rel b (exec (uboot_psgmii_st_phy_prepare U a) s) (exec (psgmii_st_phy_prepare P a) t) \<and>
    psgmii_rel b (exec (uboot_psgmii_st_phy_recover U a) s) (exec (psgmii_st_phy_recover P a) t) \<and>
    psgmii_rel b (exec (uboot_psgmii_st_phy_start_traffic U a) s) (exec (psgmii_st_phy_start_traffic P a) t) \<and>
    psgmii_rel b (exec (uboot_psgmii_st_phy_reset_loopback U a) s) (exec (psgmii_st_phy_reset_loopback P a) t) \<and>
    psgmii_rel b (exec (uboot_qca8075_ess_reset U P) s) (exec (qca8075_ess_reset P) t) \<and>
    result (uboot_psgmii_st_phy_link_is_up U a) s = (result (psgmii_st_phy_link_is_up P a) t \<noteq> 0) \<and>
    result (uboot_psgmii_st_phy_wait m n delay (uboot_psgmii_st_phy_link_is_up U)) s =
      (result (psgmii_st_phy_wait m n delay (psgmii_st_phy_link_is_up P)) t \<noteq> 0) \<and>
    (let s' = exec (uboot_psgmii_self_test U P) s; t' = exec (ipq4019_psgmii_self_test P) t
     in psgmii_rel b s' t' \<and> result (ipq4019_psgmii_self_test P) t = 0 \<and>
       (\<exists>es h. hist s' = es @ h \<and> loopback_cleared es) \<and>
       (\<exists>es h. hist t' = es @ h \<and> loopback_cleared es \<and>
         board_writes h = board_writes (hist t) @ analog_cal_writes @ ess_reset_writes @ analog_cal_writes))"
proof -
  have ps: "phy_simulation U b P"
    using assms(1-3) by (simp add: phy_simulation_def phy_simulation_axioms_def)
  note whole = phy_simulation.self_test_simulation [OF ps assms(4)]
    and steps = psgmii_steps_match [OF assms, of a m n delay]
  obtain u where u: "sw_base (ep_esw (priv u)) = IPQ4019_ESS_BASE"
    "exec (uboot_psgmii_self_test U P) s = exec (uboot_esw_port_loopback_set_all P False) u"
    using phy_simulation.before_loopback [OF ps assms(4)] by blast
  have ub: "\<exists>es h. hist (exec (uboot_psgmii_self_test U P) s) = es @ h \<and> loopback_cleared es"
    using wp_uboot_loopback_off [OF u(1), of P] unfolding u(2) wp_def by blast
  have port: "result (ipq4019_psgmii_self_test P) t = 0"
    "\<exists>es h. hist (exec (ipq4019_psgmii_self_test P) t) = es @ h \<and> loopback_cleared es \<and>
      board_writes h = board_writes (hist t) @ analog_cal_writes @ ess_reset_writes @ analog_cal_writes"
    using wp_port_self_test [of P t] unfolding wp_def by blast+
  show ?thesis unfolding Let_def by (intro conjI steps [THEN conjunct1] whole ub port) (use steps in blast)+
qed

theorem psgmii_matches_uboot_witness:
  "phys_of one_link (exec (uboot_psgmii_self_test (board_ops one_link) (phy_platform one_link)) ub_board) =
    phys_of one_link (exec (ipq4019_psgmii_self_test (phy_platform one_link)) boot) \<and>
   result (ipq4019_psgmii_self_test (phy_platform one_link)) boot = 0 \<and>
   (\<exists>es h. hist (exec (ipq4019_psgmii_self_test (phy_platform one_link)) boot) = es @ h \<and> loopback_cleared es \<and>
     board_writes h = analog_cal_writes @ ess_reset_writes @ analog_cal_writes)"
proof -
  have "psgmii_rel one_link ub_board boot"
    by (simp add: psgmii_rel_def wire_rel_def phys_of_def ub_board_def ub_ready_def boot_def)
  note m = psgmii_matches_uboot [OF phy_layer_board phy_platform_responsive phy_platform_answers this]
  have "board_writes (hist boot) = []" by (simp add: boot_def board_writes_def)
  then show ?thesis using m by (simp add: Let_def psgmii_rel_def wire_rel_def)
qed

end
