(* ===== verification/Uboot_Probe.thy ===== *)
theory Uboot_Probe
  imports Uboot_Psgmii
begin

text \<open>
  Probe and remove of reference/uboot-essedma.c: the device tree, the clock and
  the reset line, the PHYs of the ports, and the order in which the driver's
  parts are set up and given back.
\<close>

section \<open>U-Boot's driver model\<close>

text \<open>
  What U-Boot provides, with its names. A node of the device tree is a number; what
  a lookup in the tree returns depends on the tree alone. \<open>dm_ret\<close> is what a call
  of a clock or reset function returns after a history; a PHY or the MDIO device is
  set up by programs of U-Boot.
\<close>

record uboot_dm =
  PHY_INTERFACE_MODE_PSGMII :: int
  PHY_INTERFACE_MODE_RGMII :: int
  dev_read_addr_name :: "string \<Rightarrow> u32"
  dev_ofnode :: int
  ofnode_find_subnode :: "int \<Rightarrow> string \<Rightarrow> int"
  ofnode_valid :: "int \<Rightarrow> bool"
  ofnode_subnodes :: "int \<Rightarrow> int list"
  ofnode_is_enabled :: "int \<Rightarrow> bool"
  ofnode_parse_phandle :: "int \<Rightarrow> string \<Rightarrow> int \<times> int"
  ofnode_read_u32 :: "int \<Rightarrow> string \<Rightarrow> int \<times> u32"
  ofnode_read_phy_mode :: "int \<Rightarrow> int"
  dm_ret :: "event list \<Rightarrow> string \<Rightarrow> int"
  get_mdio_device :: "(ubd, int) state"
  dm_mdio_phy_connect :: "u32 \<Rightarrow> int \<Rightarrow> (ubd, u8 option) state"
  phy_config :: "u8 \<Rightarrow> (ubd, int) state"

definition ub_EINVAL :: int where [simp]: "ub_EINVAL = 22"
definition ub_ENODEV :: int where [simp]: "ub_ENODEV = 19"

definition dm_call :: "uboot_dm \<Rightarrow> string \<Rightarrow> (ubd, int) state" where
  "dm_call D f = do {
     r \<leftarrow> gets (\<lambda>s. dm_ret D (hist s) f);
     emit (Call f r);
     ret r }"

definition clk_get_by_name :: "uboot_dm \<Rightarrow> (ubd, int) state" where
  "clk_get_by_name D = dm_call D ''clk_get_by_name''"

definition reset_get_by_name :: "uboot_dm \<Rightarrow> (ubd, int) state" where
  "reset_get_by_name D = dm_call D ''reset_get_by_name''"

definition clk_enable :: "uboot_dm \<Rightarrow> (ubd, int) state" where
  "clk_enable D = dm_call D ''clk_enable''"

definition clk_disable :: "uboot_dm \<Rightarrow> (ubd, int) state" where
  "clk_disable D = dm_call D ''clk_disable''"

section \<open>The ports\<close>

abbreviation upd_esw :: "(ess_switch \<Rightarrow> ess_switch) \<Rightarrow> (ubd, unit) state" where
  "upd_esw f \<equiv> upd_priv (ep_esw_update f)"

text \<open>\<open>esw->phydev[num_phy] = phydev\<close>.\<close>

definition store_phydev :: "nat \<Rightarrow> u8 \<Rightarrow> (ubd, unit) state" where
  "store_phydev n d = do {
     p \<leftarrow> gets priv;
     if n < length (phydev (ep_esw p)) then upd_esw (phydev_update (\<lambda>ps. ps[n := d]))
     else undefined_behaviour }"

text \<open>
  The loop over the nodes of the ports: \<open>Inl\<close> is a return from the function,
  \<open>Inr\<close> the values of num_phy and ret after the loop.
\<close>

primrec of_phy_nodes :: "uboot_dm \<Rightarrow> int list \<Rightarrow> nat \<Rightarrow> int \<Rightarrow> (ubd, int + nat \<times> int) state" where
  "of_phy_nodes D [] n rc = ret (Inr (n, rc))"
| "of_phy_nodes D (node # nodes) n rc =
     (if \<not> ofnode_is_enabled D node then of_phy_nodes D nodes n rc
      else let (err, phy_node) = ofnode_parse_phandle D node ''phy-handle'' in
        if err \<noteq> 0 then ret (Inl (- ub_ENODEV))
        else let (rc, phy_addr) = ofnode_read_u32 D phy_node ''reg'' in
          if rc \<noteq> 0 then ret (Inl rc)
          else do {
            p \<leftarrow> gets priv;
            dev \<leftarrow> dm_mdio_phy_connect D phy_addr (port_wrapper_mode (ep_esw p));
            case dev of
              None \<Rightarrow> ret (Inl (- ub_ENODEV))
            | Some d \<Rightarrow> do {
                rc \<leftarrow> phy_config D d;
                store_phydev n d;
                of_phy_nodes D nodes (n + 1) rc } })"

definition essedma_of_phy :: "uboot_dm \<Rightarrow> (ubd, int) state" where
  "essedma_of_phy D = do {
     p \<leftarrow> gets priv;
     r \<leftarrow> of_phy_nodes D (ofnode_subnodes D (ports_node (ep_esw p))) 0 0;
     case r of
       Inl err \<Rightarrow> ret err
     | Inr (n, rc) \<Rightarrow> do {
         upd_esw (num_phy_update (\<lambda>_. int n));
         for_each [0..<n - 1] (\<lambda>i. upd_esw (phy_mask_update (\<lambda>m. m OR BIT i)));
         ret rc } }"

definition essedma_of_switch :: "uboot_dm \<Rightarrow> (ubd, int) state" where
  "essedma_of_switch D = do {
     let node = ofnode_find_subnode D (dev_ofnode D) ''ports'';
     upd_esw (ports_node_update (\<lambda>_. node));
     if \<not> ofnode_valid D node then do { printf ''Failed to find ports node'' []; ret (- ub_EINVAL) }
     else do {
       let mode = ofnode_read_phy_mode D node;
       if mode = - 1 then ret (- ub_EINVAL)
       else do {
         upd_esw (port_wrapper_mode_update (\<lambda>_. mode));
         essedma_of_phy D } } }"

section \<open>Probe and remove\<close>

text \<open>The switch on the mode of the port wrapper.\<close>

definition port_wrapper_setup :: "uboot_dm \<Rightarrow> (ubd, unit) state" where
  "port_wrapper_setup D = do {
     p \<leftarrow> gets priv;
     if port_wrapper_mode (ep_esw p) = PHY_INTERFACE_MODE_PSGMII D then do {
       writel ub_PSGMIIPHY_PLL_VCO_VAL (ep_psgmii_base p + ub_PSGMIIPHY_PLL_VCO_RELATED_CTRL);
       writel ub_PSGMIIPHY_VCO_VAL (ep_psgmii_base p + ub_PSGMIIPHY_VCO_CALIBRATION_CTRL_REGISTER_1);
       mdelay 10;
       writel ub_PSGMIIPHY_VCO_RST_VAL (ep_psgmii_base p + ub_PSGMIIPHY_VCO_CALIBRATION_CTRL_REGISTER_1) }
     else if port_wrapper_mode (ep_esw p) = PHY_INTERFACE_MODE_RGMII D then do {
       writel 0x1 ub_RGMII_TCSR_ESS_CFG;
       writel 0x400 (sw_base (ep_esw p) + ub_ESS_RGMII_CTRL) }
     else printf ''Unknown MII interface'' [] }"

text \<open>Probe after \<open>ess_reset\<close>, up to the label err: 0 or the error to clean up after.\<close>

definition probe_parts :: "phy_ops \<Rightarrow> uboot_dm \<Rightarrow> platform \<Rightarrow> uboot_cfg \<Rightarrow> (ubd, int) state" where
  "probe_parts U D P C = do {
     rc \<leftarrow> get_mdio_device D;
     if rc \<noteq> 0 then ret rc
     else do {
       rc \<leftarrow> essedma_of_switch D;
       if rc \<noteq> 0 then ret rc
       else do {
         port_wrapper_setup D;
         p \<leftarrow> gets priv;
         when_do (port_wrapper_mode (ep_esw p) = PHY_INTERFACE_MODE_PSGMII D) (uboot_psgmii_self_test U P);
         uboot_ess_switch_init P;
         edma_init P C } } }"

definition essedma_probe :: "phy_ops \<Rightarrow> uboot_dm \<Rightarrow> platform \<Rightarrow> uboot_cfg \<Rightarrow> (ubd, int) state" where
  "essedma_probe U D P C = do {
     let a = dev_read_addr_name D ''edma'';
     upd_priv (ep_base_update (\<lambda>_. a));
     if a = FDT_ADDR_T_NONE then ret (- ub_EINVAL)
     else do {
       let a = dev_read_addr_name D ''psgmii_phy'';
       upd_priv (ep_psgmii_base_update (\<lambda>_. a));
       if a = FDT_ADDR_T_NONE then ret (- ub_EINVAL)
       else do {
         let a = dev_read_addr_name D ''base'';
         upd_esw (sw_base_update (\<lambda>_. a));
         if a = FDT_ADDR_T_NONE then ret (- ub_EINVAL)
         else do {
           rc \<leftarrow> clk_get_by_name D;
           if rc \<noteq> 0 then ret rc
           else do {
             rc \<leftarrow> reset_get_by_name D;
             if rc \<noteq> 0 then ret rc
             else do {
               rc \<leftarrow> clk_enable D;
               if rc \<noteq> 0 then ret rc
               else do {
                 uboot_ess_reset U;
                 rc \<leftarrow> probe_parts U D P C;
                 if rc \<noteq> 0 then do {
                   _ \<leftarrow> reset_assert U;
                   _ \<leftarrow> clk_disable D;
                   ret rc }
                 else ret 0 } } } } } } }"

definition essedma_remove :: "phy_ops \<Rightarrow> uboot_dm \<Rightarrow> (ubd, int) state" where
  "essedma_remove U D = do {
     ipq40xx_edma_free_rings;
     _ \<leftarrow> clk_disable D;
     _ \<leftarrow> reset_assert U;
     ret 0 }"

end
