(* ===== verification/Uboot_Lifecycle.thy ===== *)
theory Uboot_Lifecycle
  imports Uboot_Probe
begin

text \<open>
  What U-Boot's probe takes and who gives it back: memory, clock and reset line
  over the whole life of the device, on every error path; and what probe learns
  from the device tree. What U-Boot itself promises is the locale
  \<open>driver_model\<close>, interpreted on its MDIO driver and a sample board.
\<close>

section \<open>Resources\<close>

text \<open>
  \<open>quiet e\<close>: neither the allocator nor the clock sees the event.
  \<open>calm m\<close>: m neither allocates nor frees memory, leaves the clock alone, and
  does not touch the two pointers that remove frees.
\<close>

fun quiet :: "event \<Rightarrow> bool" where
  "quiet (Memalign _ _ _) = False"
| "quiet (Free _) = False"
| "quiet (Call f _) = (f \<noteq> ''clk_enable'' \<and> f \<noteq> ''clk_disable'')"
| "quiet _ = True"

definition ring_memory :: "ubd \<Rightarrow> u32 \<times> u32" where
  "ring_memory s = (er_hw_desc (ep_tpd_ring (priv s)), er_hw_desc (ep_rfd_ring (priv s)))"

definition calm :: "(ubd, 'a) state \<Rightarrow> bool" where
  "calm m \<longleftrightarrow> (\<forall>s. \<exists>es. list_all quiet es \<and> hist (exec m s) = es @ hist s \<and> ring_memory (exec m s) = ring_memory s)"

named_theorems calm_rules \<open>programs that are calm\<close>

lemma calm_exec:
  assumes "calm m"
  obtains es where "list_all quiet es" and "hist (exec m s) = es @ hist s" and "ring_memory (exec m s) = ring_memory s"
  using assms unfolding calm_def by blast

lemma calm_within: 
  assumes "io_within quiet m"
  shows "calm m"
  unfolding calm_def
proof
  fix s
  obtain es cs where "list_all quiet es" "exec m s = s\<lparr>hist := es @ hist s, console := cs @ console s\<rparr>"
    using assms by (rule io_withinE)
  then show "\<exists>es. list_all quiet es \<and> hist (exec m s) = es @ hist s \<and> ring_memory (exec m s) = ring_memory s"
    by (auto simp: ring_memory_def)
qed

lemma calm_basic [calm_rules]:
  "calm (ret x)" "calm (gets g)" "quiet e \<Longrightarrow> calm (emit e)" "calm (printf fmt xs)"
  "calm (readl P a)" "calm (writel v a)" "calm (udelay n)" "calm (mdelay n)"
  by (intro calm_within io_within_rules; simp)+

lemma calm_modify [calm_rules]:
  "(\<And>s. hist (f s) = hist s) \<Longrightarrow> (\<And>s. ring_memory (f s) = ring_memory s) \<Longrightarrow> calm (modify f)"
  by (auto simp: calm_def)

lemma calm_bind [calm_rules]:
  assumes "calm m" and "\<And>x. calm (f x)"
  shows "calm (State_Monad.bind m f)"
  unfolding calm_def
proof
  fix s
  obtain es where "list_all quiet es" "hist (exec m s) = es @ hist s" "ring_memory (exec m s) = ring_memory s"
    using assms(1) by (rule calm_exec)
  moreover obtain es' where "list_all quiet es'" "hist (exec (f (result m s)) (exec m s)) = es' @ hist (exec m s)"
    "ring_memory (exec (f (result m s)) (exec m s)) = ring_memory (exec m s)"
    using assms(2) by (rule calm_exec)
  ultimately show "\<exists>es. list_all quiet es \<and> hist (exec (State_Monad.bind m f) s) = es @ hist s \<and>
      ring_memory (exec (State_Monad.bind m f) s) = ring_memory s"
    by (intro exI [of _ "es' @ es"]) simp
qed

lemma calm_if [calm_rules]: "calm m \<Longrightarrow> calm n \<Longrightarrow> calm (if b then m else n)"
  by simp

lemma calm_when_do [calm_rules]: "calm m \<Longrightarrow> calm (when_do b m)"
  by (simp add: when_do_def calm_rules)

lemma calm_let [calm_rules]: "(\<And>x. calm (f x)) \<Longrightarrow> calm (let x = e in f x)"
  by (simp add: Let_def)

lemma calm_case [calm_rules]:
  "(\<And>a b. calm (g a b)) \<Longrightarrow> calm (case p of (a, b) \<Rightarrow> g a b)"
  "calm n \<Longrightarrow> (\<And>x. calm (k x)) \<Longrightarrow> calm (case q of None \<Rightarrow> n | Some x \<Rightarrow> k x)"
  "(\<And>x. calm (l x)) \<Longrightarrow> (\<And>x. calm (r x)) \<Longrightarrow> calm (case t of Inl x \<Rightarrow> l x | Inr x \<Rightarrow> r x)"
  by (simp_all split: prod.split option.split sum.split)

lemma calm_for_each [calm_rules]: "(\<And>i. calm (body i)) \<Longrightarrow> calm (for_each is body)"
  by (induction "is") (simp_all add: calm_rules)

lemma calm_poll_loop [calm_rules]:
  assumes "\<And>v. calm (body v)" and "calm wait"
  shows "calm (poll_loop body ok wait n j v)"
  by (induction n arbitrary: j v) (simp_all add: assms calm_rules)

section \<open>The operations between probe and remove\<close>

lemma calm_access [calm_rules]:
  "calm (ub_store_tpd k d)" "calm (ub_store_rfd k r)" "calm (ub_load_rx_packet k)" "calm undefined_behaviour"
  "calm (flush_dcache_range a b)" "calm (invalidate_dcache_range a b)" "calm wmb" "calm (esw_phydev i)"
  "calm (store_phydev n x)"
  unfolding ub_store_tpd_def ub_store_rfd_def ub_load_rx_packet_def flush_dcache_range_def
    invalidate_dcache_range_def wmb_def undefined_behaviour_def esw_phydev_def store_phydev_def
  by (intro calm_rules; simp add: ring_memory_def)+

lemma calm_switch [calm_rules]:
  "calm (uboot_esw_port_loopback_set_all P b)" "calm (uboot_ess_switch_disable_lookup P)"
  "calm (uboot_ess_switch_enable_lookup P)" "calm (uboot_ess_switch_init P)"
  unfolding uboot_esw_port_loopback_set_all_def uboot_esw_port_loopback_set_def
    uboot_ess_switch_disable_lookup_def uboot_ess_switch_enable_lookup_def uboot_ess_switch_init_def
  by (intro calm_rules)+

lemma calm_engine [calm_rules]:
  "calm (ipq40xx_edma_start_rx_tx P)" "calm (ipq40xx_edma_stop_rx_tx P)" "calm (ipq40xx_edma_init_desc P C)"
  "calm (ipq40xx_edma_init_rfd_ring P)" "calm ipq40xx_edma_configure"
  unfolding ipq40xx_edma_start_rx_tx_def ipq40xx_edma_stop_rx_tx_def ipq40xx_edma_init_desc_def
    ipq40xx_edma_init_rfd_ring_def ipq40xx_edma_configure_def
  by (intro calm_rules; simp add: ring_memory_def)+

lemma calm_send_tpds [calm_rules]: "calm (ub_send_tpds P packet is len)"
  by (induction "is" arbitrary: len)
    (auto simp: ub_send_tpd_def ring_memory_def intro!: calm_rules)

lemma calm_eth_ops [calm_rules]:
  "calm (ipq40xx_eth_recv P C)" "calm ipq40xx_eth_free_pkt" "calm (ipq40xx_eth_start P)"
  "calm (ipq40xx_eth_send P C packet len)" "calm (ipq40xx_eth_stop P)" "calm ipq40xx_eth_write_hwaddr"
  unfolding ipq40xx_eth_recv_def ipq40xx_eth_free_pkt_def ipq40xx_eth_start_def ipq40xx_eth_send_def
    ipq40xx_eth_stop_def ipq40xx_eth_write_hwaddr_def
  by (intro calm_rules; simp add: ring_memory_def)+

text \<open>The operations of the table \<open>essedma_eth_ops\<close>, as U-Boot's network core calls them.\<close>

datatype eth_call = EthStart | EthSend u32 int | EthRecv | EthFreePkt | EthStop | EthWriteHwaddr

primrec essedma_eth_ops :: "platform \<Rightarrow> uboot_cfg \<Rightarrow> eth_call \<Rightarrow> (ubd, unit) state" where
  "essedma_eth_ops P C EthStart = do { _ \<leftarrow> ipq40xx_eth_start P; ret () }"
| "essedma_eth_ops P C (EthSend packet len) = do { _ \<leftarrow> ipq40xx_eth_send P C packet len; ret () }"
| "essedma_eth_ops P C EthRecv = do { _ \<leftarrow> ipq40xx_eth_recv P C; ret () }"
| "essedma_eth_ops P C EthFreePkt = do { _ \<leftarrow> ipq40xx_eth_free_pkt; ret () }"
| "essedma_eth_ops P C EthStop = ipq40xx_eth_stop P"
| "essedma_eth_ops P C EthWriteHwaddr = do { _ \<leftarrow> ipq40xx_eth_write_hwaddr; ret () }"

lemma calm_eth_call [calm_rules]: "calm (essedma_eth_ops P C c)"
  by (cases c) (simp_all add: calm_rules)

section \<open>Probe under the driver model's contract\<close>

text \<open>
  What the programs of U-Boot promise: the PHY layer, the MDIO device and the
  release of the reset line neither allocate nor touch the clock; asserting the
  reset line is seen as such.
\<close>

locale driver_model =
  fixes U :: phy_ops and D :: uboot_dm
  assumes phy_quiet: "io_within quiet (phy_read U d a r)" "io_within quiet (phy_write U d a r v)"
    "io_within quiet (phy_read_mmd U d a r)" "io_within quiet (phy_write_mmd U d a r v)"
    and deassert_quiet: "io_within quiet (reset_deassert U)"
    and device_quiet: "io_within quiet (get_mdio_device D)" "io_within quiet (dm_mdio_phy_connect D x m)"
      "io_within quiet (phy_config D d)"
    and assert_seen: "exec (reset_assert U) s = s\<lparr>hist := Call ''reset_assert'' 0 # hist s\<rparr>"
begin

lemma assert_quiet: "io_within quiet (reset_assert U)"
  by (rule io_withinI, rule exI [of _ "[Call ''reset_assert'' 0]"], rule exI [of _ "[]"])
    (simp add: assert_seen)

lemmas calm_device [calm_rules] =
  phy_quiet [THEN calm_within] deassert_quiet [THEN calm_within] device_quiet [THEN calm_within]
  assert_quiet [THEN calm_within]

lemma calm_for_each_phy: "(\<And>d. calm (body d)) \<Longrightarrow> calm (for_each_phy body)"
  unfolding for_each_phy_def by (intro calm_rules)

lemma calm_reset: "calm (uboot_ess_reset U)" "calm (uboot_qca8075_ess_reset U P)"
  unfolding uboot_ess_reset_def uboot_qca8075_ess_reset_def by (intro calm_rules)+

lemma calm_st_phy:
  "calm (uboot_psgmii_st_phy_power_down U d)" "calm (uboot_psgmii_st_phy_prepare U d)"
  "calm (uboot_psgmii_st_phy_recover U d)" "calm (uboot_psgmii_st_phy_start_traffic U d)"
  "calm (uboot_psgmii_st_phy_check_counters U d)" "calm (uboot_psgmii_st_phy_reset_loopback U d)"
  "calm (uboot_psgmii_st_phy_link_is_up U d)"
  unfolding uboot_psgmii_st_phy_power_down_def uboot_psgmii_st_phy_prepare_def
    uboot_psgmii_st_phy_recover_def uboot_psgmii_st_phy_start_traffic_def
    uboot_psgmii_st_phy_check_counters_def uboot_psgmii_st_phy_reset_loopback_def
    uboot_psgmii_st_phy_link_is_up_def
  by (intro calm_rules)+

lemma calm_st_phy_scan: "(\<And>d. calm (check d)) \<Longrightarrow> calm (uboot_st_phy_scan check ps msk)"
  by (induction ps arbitrary: msk) (auto intro!: calm_rules)

lemma calm_st_phy_wait: "(\<And>d. calm (check d)) \<Longrightarrow> calm (uboot_psgmii_st_phy_wait msk n ms check)"
  unfolding uboot_psgmii_st_phy_wait_def by (intro calm_rules calm_st_phy_scan)

lemma calm_st_waits: "calm (uboot_psgmii_st_phy_wait_link U msk)" "calm (uboot_psgmii_st_phy_wait_tx_complete U msk)"
  unfolding uboot_psgmii_st_phy_wait_link_def uboot_psgmii_st_phy_wait_tx_complete_def
  by (intro calm_st_phy_wait calm_st_phy)+

lemma calm_st_serial: "calm (uboot_st_serial_from U is r)"
  by (induction "is" arbitrary: r) (auto intro!: calm_rules calm_st_phy calm_st_waits simp: Let_def)

lemma calm_st_tests: "calm (uboot_psgmii_st_run_test_serial U)" "calm (uboot_psgmii_st_run_test_parallel U)"
  unfolding uboot_psgmii_st_run_test_serial_def uboot_psgmii_st_run_test_parallel_def
  by (intro calm_rules calm_st_serial calm_for_each_phy calm_st_phy calm_st_waits)+

lemma calm_st_rounds: "calm (uboot_st_rounds U P n r st)"
  by (induction n arbitrary: r st)
    (auto intro!: calm_rules calm_reset calm_st_tests simp: Let_def psgmii_self_test_repeat_def)

lemma calm_self_test: "calm (uboot_psgmii_self_test U P)"
  unfolding uboot_psgmii_self_test_def uboot_st_recover_all_def
  by (intro calm_rules calm_for_each_phy calm_st_phy calm_st_rounds)

lemma calm_of_phy_nodes: "calm (of_phy_nodes D nodes n rc)"
  by (induction nodes arbitrary: n rc)
    (auto intro!: calm_rules simp: Let_def case_prod_beta)

lemma calm_of_switch: "calm (essedma_of_switch D)"
  unfolding essedma_of_switch_def essedma_of_phy_def
  by (intro calm_rules calm_of_phy_nodes; simp add: ring_memory_def)

lemma calm_port_wrapper: "calm (port_wrapper_setup D)"
  unfolding port_wrapper_setup_def by (intro calm_rules)

end

section \<open>Balance\<close>

text \<open>The blocks a history allocated, and how often it enabled the clock more than it disabled it.\<close>

definition allocated :: "event list \<Rightarrow> u32 list" where
  "allocated es = filter (\<lambda>a. a \<noteq> 0) (map (\<lambda>(al, n, a). a) (allocs es))"

fun clk_refs :: "event list \<Rightarrow> int" where
  "clk_refs [] = 0"
| "clk_refs (Call f r # es) = clk_refs es + (if f = ''clk_enable'' \<and> r = 0 then 1 else 0) - (if f = ''clk_disable'' then 1 else 0)"
| "clk_refs (_ # es) = clk_refs es"

lemma clk_refs_append [simp]: "clk_refs (xs @ ys) = clk_refs xs + clk_refs ys"
  by (induction xs rule: clk_refs.induct) simp_all

lemma allocated_append [simp]: "allocated (xs @ ys) = allocated ys @ allocated xs"
  by (simp add: allocated_def)

lemma quiet_balance:
  assumes "list_all quiet es"
  shows "allocated es = []" and "freed es = []" and "clk_refs es = 0"
  using assms
proof (induction es)
  case (Cons e es)
  {
    case 1
    with Cons show ?case by (cases e) (auto simp: allocated_def)
  next
    case 2
    with Cons show ?case by (cases e) auto
  next
    case 3
    with Cons show ?case by (cases e) auto
  }
qed (simp_all add: allocated_def)

text \<open>
  \<open>balance m as fs k\<close> of a run from s: the blocks allocated and freed on the way
  and the references to the clock gained.
\<close>

definition balance :: "event list \<Rightarrow> ubd \<Rightarrow> u32 list \<Rightarrow> u32 list \<Rightarrow> int \<Rightarrow> bool" where
  "balance h s xs fs k \<longleftrightarrow> (\<exists>es. hist s = es @ h \<and> allocated es = xs \<and> freed es = fs \<and> clk_refs es = k)"

lemma balance_start: "balance (hist s) s [] [] 0"
  by (simp add: balance_def allocated_def)

lemma balance_wp:
  assumes "calm m" and "balance h s xs fs k"
    and "\<And>t. balance h t xs fs k \<Longrightarrow> ring_memory t = ring_memory s \<Longrightarrow> Q (result m s) t"
  shows "wp m Q s"
proof -
  obtain es where "list_all quiet es" "hist (exec m s) = es @ hist s" "ring_memory (exec m s) = ring_memory s"
    using assms(1) by (rule calm_exec)
  moreover obtain es' where "hist s = es' @ h" "allocated es' = xs" "freed es' = fs" "clk_refs es' = k"
    using assms(2) unfolding balance_def by blast
  ultimately have "balance h (exec m s) xs fs k"
    unfolding balance_def by (intro exI [of _ "es @ es'"]) (simp add: quiet_balance)
  then show ?thesis using assms(3) \<open>ring_memory (exec m s) = ring_memory s\<close> by (simp add: wp_def)
qed

lemma balance_event:
  assumes "balance h s xs fs k"
  shows "hist t = Memalign al n a # hist s \<Longrightarrow> balance h t (xs @ (if a = 0 then [] else [a])) fs k"
    and "hist t = Free a # hist s \<Longrightarrow> balance h t xs (fs @ [a]) k"
    and "hist t = Call f r # hist s \<Longrightarrow>
      balance h t xs fs (k + (if f = ''clk_enable'' \<and> r = 0 then 1 else 0) - (if f = ''clk_disable'' then 1 else 0))"
proof -
  obtain es where es: "hist s = es @ h" "allocated es = xs" "freed es = fs" "clk_refs es = k"
    using assms unfolding balance_def by blast
  show "hist t = Memalign al n a # hist s \<Longrightarrow> balance h t (xs @ (if a = 0 then [] else [a])) fs k"
    using es unfolding balance_def by (intro exI [of _ "Memalign al n a # es"]) (auto simp: allocated_def)
  show "hist t = Free a # hist s \<Longrightarrow> balance h t xs (fs @ [a]) k"
    using es unfolding balance_def by (intro exI [of _ "Free a # es"]) (auto simp: allocated_def)
  show "hist t = Call f r # hist s \<Longrightarrow>
      balance h t xs fs (k + (if f = ''clk_enable'' \<and> r = 0 then 1 else 0) - (if f = ''clk_disable'' then 1 else 0))"
    using es unfolding balance_def by (intro exI [of _ "Call f r # es"]) (auto simp: allocated_def)
qed

text \<open>Allocating the rings: both or, in the end, none.\<close>

lemma wp_alloc_ring:
  assumes "\<And>al n a t. a \<noteq> 0 \<Longrightarrow> hist t = Memalign al n a # hist s \<Longrightarrow> er_hw_desc (ring_at rp (priv t)) = a \<Longrightarrow>
      \<forall>rp'. rp' \<noteq> rp \<longrightarrow> ring_at rp' (priv t) = ring_at rp' (priv s) \<Longrightarrow> Q 0 t"
    and "\<And>al n t. hist t = Memalign al n 0 # hist s \<Longrightarrow>
      \<forall>rp'. rp' \<noteq> rp \<longrightarrow> ring_at rp' (priv t) = ring_at rp' (priv s) \<Longrightarrow> Q (- ENOMEM) t"
  shows "wp (ipq40xx_edma_alloc_ring P C rp desc_size) Q s"
proof -
  have all: "(\<forall>rp. F rp) = (F TpdRing \<and> F RfdRing)" for F
    by (metis ring_ptr.exhaust)
  show ?thesis
    unfolding ipq40xx_edma_alloc_ring_def
    by (cases rp; simp add: wp_xmemalign Let_def del: ENOMEM_def; intro conjI impI; rule assms)
      (simp_all add: all)
qed

lemma alloc_balance:
  assumes s: "balance h s xs fs k"
    and ok: "\<And>t a b. a \<noteq> 0 \<Longrightarrow> b \<noteq> 0 \<Longrightarrow> ring_memory t = (a, b) \<Longrightarrow> balance h t (xs @ [a, b]) fs k \<Longrightarrow> Q 0 t"
    and fail: "\<And>t ys. balance h t (xs @ ys) (fs @ ys) k \<Longrightarrow> Q (- ENOMEM) t"
  shows "wp (ipq40xx_edma_alloc_tx_rx_rings P C) Q s"
  unfolding ipq40xx_edma_alloc_tx_rx_rings_def wp_bind
proof (rule wp_alloc_ring, goal_cases)
  case (1 al n a t)
  then have t: "balance h t (xs @ [a]) fs k" "er_hw_desc (ep_tpd_ring (priv t)) = a"
    using balance_event(1) [OF s 1(2)] by simp_all
  have "wp (ipq40xx_edma_alloc_ring P C RfdRing sizeof_rfd)
      (\<lambda>rc. wp (if rc \<noteq> 0 then do { ipq40xx_edma_free_ring TpdRing; ret rc } else ret 0) Q) t"
  proof (rule wp_alloc_ring, goal_cases)
    case (1 al n b u)
    then have "ring_memory u = (a, b)" using t(2) by (simp add: ring_memory_def) (metis ring_at.simps(1) ring_ptr.distinct(1))
    moreover have "balance h u (xs @ [a, b]) fs k" using balance_event(1) [OF t(1) 1(2)] 1(1) by simp
    ultimately show ?case using ok \<open>a \<noteq> 0\<close> 1(1) by simp
  next
    case (2 al n u)
    have "er_hw_desc (ep_tpd_ring (priv u)) = a" using t(2) 2(2) by (metis ring_at.simps(1) ring_ptr.distinct(1))
    moreover have "balance h u (xs @ [a]) fs k" using balance_event(1) [OF t(1) 2(1)] by simp
    ultimately show ?case
      by (simp add: ipq40xx_edma_free_ring_def) (rule fail [of _ "[a]", simplified], simp add: balance_event(2))
  qed
  then show ?case by simp
next
  case (2 al n t)
  then show ?case using balance_event(1) [OF s 2(1)] fail [of t "[]"] by simp
qed

lemma balance_step:
  assumes "balance h s xs fs k" and "calm m"
    and "\<And>r t. balance h t xs fs k \<Longrightarrow> ring_memory t = ring_memory s \<Longrightarrow> wp (f r) Q t"
  shows "wp (State_Monad.bind m f) Q s"
  unfolding wp_bind by (rule balance_wp [OF assms(2,1)]) (rule assms(3))

lemma edma_init_balance:
  assumes "balance h s [] [] k"
    and ok: "\<And>t a b. a \<noteq> 0 \<Longrightarrow> b \<noteq> 0 \<Longrightarrow> ring_memory t = (a, b) \<Longrightarrow> balance h t [a, b] [] k \<Longrightarrow> Q 0 t"
    and fail: "\<And>t ys. balance h t ys ys k \<Longrightarrow> Q (- ENOMEM) t"
  shows "wp (edma_init P C) Q s"
  unfolding edma_init_def
proof (rule balance_step [OF assms(1)], goal_cases)
  case (2 r1 t1)
  show ?case
  proof (rule balance_step [OF 2(1)], goal_cases)
    case (2 r2 t2)
    show ?case
      unfolding wp_bind [of "ipq40xx_edma_alloc_tx_rx_rings P C"]
    proof (rule alloc_balance [OF 2(1)], goal_cases)
      case (1 u a b)
      have "wp (do { ipq40xx_edma_stop_rx_tx P; ipq40xx_edma_configure; ipq40xx_edma_init_desc P C;
          _ \<leftarrow> uboot_ess_switch_disable_lookup P; ret 0 }) Q u"
        by (rule balance_wp [OF _ 1(4)], intro calm_rules) (use 1 ok in simp)
      then show ?case by simp
    next
      case (2 u ys)
      then show ?case using fail by simp
    qed
  qed (intro calm_rules; simp add: ring_memory_def)
qed (intro calm_rules; simp add: ring_memory_def)

fun is_call :: "event \<Rightarrow> bool" where
  "is_call (Call _ _) = True"
| "is_call _ = False"

text \<open>What holds after probe, with the result rc.\<close>

definition probe_post :: "ubd \<Rightarrow> int \<Rightarrow> ubd \<Rightarrow> bool" where
  "probe_post s rc t \<longleftrightarrow>
    (if rc = 0 then \<exists>a b. a \<noteq> 0 \<and> b \<noteq> 0 \<and> ring_memory t = (a, b) \<and> balance (hist s) t [a, b] [] 1
     else (\<exists>ys. balance (hist s) t ys ys 0) \<and>
       ((\<exists>es. list_all is_call es \<and> hist t = es @ hist s) \<or>
        (\<exists>r rest. hist t = Call ''clk_disable'' r # Call ''reset_assert'' 0 # rest)))"

context driver_model
begin

lemma probe_parts_balance:
  assumes "balance h s [] [] k"
    and ok: "\<And>t a b. a \<noteq> 0 \<Longrightarrow> b \<noteq> 0 \<Longrightarrow> ring_memory t = (a, b) \<Longrightarrow> balance h t [a, b] [] k \<Longrightarrow> Q 0 t"
    and fail: "\<And>rc t ys. rc \<noteq> 0 \<Longrightarrow> balance h t ys ys k \<Longrightarrow> Q rc t"
  shows "wp (probe_parts U D P C) Q s"
  unfolding probe_parts_def
proof (rule balance_step [OF assms(1)], goal_cases)
  case (2 rc t1)
  show ?case
  proof (cases "rc = 0")
    case True
    have "wp (do { rc \<leftarrow> essedma_of_switch D; if rc \<noteq> 0 then ret rc
       else do {
         port_wrapper_setup D;
         p \<leftarrow> gets priv;
         when_do (port_wrapper_mode (ep_esw p) = PHY_INTERFACE_MODE_PSGMII D) (uboot_psgmii_self_test U P);
         uboot_ess_switch_init P;
         edma_init P C } }) Q t1"
    proof (rule balance_step [OF 2(1) calm_of_switch])
      fix rc' t2
      assume t2: "balance h t2 [] [] k"
      have "wp (do { port_wrapper_setup D;
         p \<leftarrow> gets priv;
         when_do (port_wrapper_mode (ep_esw p) = PHY_INTERFACE_MODE_PSGMII D) (uboot_psgmii_self_test U P);
         uboot_ess_switch_init P;
         edma_init P C }) Q t2"
        by (rule balance_step [OF t2 calm_port_wrapper], rule balance_step, assumption, intro calm_rules,
          rule balance_step, assumption, intro calm_rules calm_self_test,
          rule balance_step, assumption, intro calm_rules, erule edma_init_balance)
          (simp_all add: ok fail)
      then show "wp (if rc' \<noteq> 0 then ret rc' else do { port_wrapper_setup D;
         p \<leftarrow> gets priv;
         when_do (port_wrapper_mode (ep_esw p) = PHY_INTERFACE_MODE_PSGMII D) (uboot_psgmii_self_test U P);
         uboot_ess_switch_init P;
         edma_init P C }) Q t2"
        using fail [OF _ t2] by simp
    qed
    with True show ?thesis by simp
  next
    case False
    then show ?thesis using fail 2 by simp
  qed
qed (intro calm_rules)

text \<open>Probe from the reset on, with the clock running.\<close>

lemma probe_tail_balance:
  assumes "balance h s [] [] 1"
    and ok: "\<And>t a b. a \<noteq> 0 \<Longrightarrow> b \<noteq> 0 \<Longrightarrow> ring_memory t = (a, b) \<Longrightarrow> balance h t [a, b] [] 1 \<Longrightarrow> Q 0 t"
    and fail: "\<And>rc t ys r rest. rc \<noteq> 0 \<Longrightarrow> balance h t ys ys 0 \<Longrightarrow>
      hist t = Call ''clk_disable'' r # Call ''reset_assert'' 0 # rest \<Longrightarrow> Q rc t"
  shows "wp (do { uboot_ess_reset U; rc \<leftarrow> probe_parts U D P C;
      if rc \<noteq> 0 then do { _ \<leftarrow> reset_assert U; _ \<leftarrow> clk_disable D; ret rc } else ret 0 }) Q s"
proof (rule balance_step [OF assms(1) calm_reset(1)])
  fix r t1
  assume t1: "balance h t1 [] [] 1"
  show "wp (do { rc \<leftarrow> probe_parts U D P C;
      if rc \<noteq> 0 then do { _ \<leftarrow> reset_assert U; _ \<leftarrow> clk_disable D; ret rc } else ret 0 }) Q t1"
    unfolding wp_bind [of "probe_parts U D P C"]
  proof (rule probe_parts_balance [OF t1], goal_cases)
    case (1 u a b)
    then show ?case by (simp add: ok)
  next
    case (2 rc u ys)
    let ?u = "exec (reset_assert U) u" let ?r = "dm_ret D (hist ?u) ''clk_disable''"
    let ?v = "?u\<lparr>hist := Call ''clk_disable'' ?r # hist ?u\<rparr>"
    have "balance h ?u ys ys 1"
      using balance_event(3) [OF 2(2), of ?u "''reset_assert''" 0] by (simp add: assert_seen)
    from balance_event(3) [OF this, of ?v "''clk_disable''" ?r] have "balance h ?v ys ys 0" by simp
    moreover have "hist ?v = Call ''clk_disable'' ?r # Call ''reset_assert'' 0 # hist u" by (simp add: assert_seen)
    ultimately have "Q rc ?v" using fail 2(1) by blast
    with 2(1) show ?case by (simp add: clk_disable_def dm_call_def) (simp add: wp_def emit_def)
  qed
qed

lemma probe_balance: "wp (essedma_probe U D P C) (probe_post s) s"
proof -
  have early: "probe_post s rc t" if "rc \<noteq> 0" "hist t = es @ hist s" "list_all is_call es" "clk_refs es = 0" for rc t es
  proof -
    have "allocated es = [] \<and> freed es = []" using that(3)
    proof (induction es)
      case (Cons e es)
      then show ?case by (cases e) (auto simp: allocated_def)
    qed (simp add: allocated_def)
    then have "balance (hist s) t [] [] 0" using that unfolding balance_def by blast
    then show ?thesis using that by (auto simp: probe_post_def)
  qed
  have late: "wp (do { uboot_ess_reset U; rc \<leftarrow> probe_parts U D P C;
      if rc \<noteq> 0 then do { _ \<leftarrow> reset_assert U; _ \<leftarrow> clk_disable D; ret rc } else ret 0 }) (probe_post s) t"
    if "hist t = Call ''clk_enable'' 0 # Call ''reset_get_by_name'' 0 # Call ''clk_get_by_name'' 0 # hist s" for t
  proof -
    have "balance (hist s) t [] [] 1"
      unfolding balance_def using that
      by (intro exI [of _ "[Call ''clk_enable'' 0, Call ''reset_get_by_name'' 0, Call ''clk_get_by_name'' 0]"])
        (simp add: allocated_def)
    then show ?thesis by (rule probe_tail_balance) (auto simp: probe_post_def)
  qed
  have call: "wp (do { rc \<leftarrow> dm_call D f; if rc \<noteq> 0 then ret rc else g }) (probe_post s) t"
    if "hist t = es @ hist s" "list_all is_call es" "clk_refs es = 0" "f \<noteq> ''clk_disable''"
      "\<And>t'. hist t' = Call f 0 # es @ hist s \<Longrightarrow> wp g (probe_post s) t'" for f g t es
  proof -
    let ?r = "dm_ret D (hist t) f" and ?t = "\<lambda>r. t\<lparr>hist := Call f r # hist t\<rparr>"
    have "probe_post s ?r (?t ?r)" if "?r \<noteq> 0"
      by (rule early [OF that, of _ "Call f ?r # es"]) (use that \<open>hist t = _\<close> \<open>list_all is_call es\<close> \<open>clk_refs es = 0\<close>
        \<open>f \<noteq> _\<close> in simp_all)
    moreover have "wp g (probe_post s) (?t 0)" by (rule that(5)) (simp add: that(1))
    ultimately show ?thesis by (cases "?r = 0") (simp_all add: dm_call_def)
  qed
  have calls: "wp (do { rc \<leftarrow> clk_get_by_name D; if rc \<noteq> 0 then ret rc
      else do { rc \<leftarrow> reset_get_by_name D; if rc \<noteq> 0 then ret rc
      else do { rc \<leftarrow> clk_enable D; if rc \<noteq> 0 then ret rc
      else do { uboot_ess_reset U; rc \<leftarrow> probe_parts U D P C;
        if rc \<noteq> 0 then do { _ \<leftarrow> reset_assert U; _ \<leftarrow> clk_disable D; ret rc } else ret 0 } } } }) (probe_post s) t"
    if "hist t = hist s" for t
    unfolding clk_get_by_name_def reset_get_by_name_def clk_enable_def
  proof (rule call [of _ "[]"], goal_cases)
    case (5 t1)
    show ?case
    proof (rule call [of _ "[Call ''clk_get_by_name'' 0]"], goal_cases)
      case (5 t2)
      show ?case
        by (rule call [of _ "[Call ''reset_get_by_name'' 0, Call ''clk_get_by_name'' 0]"], (simp add: 5; fail)+)
          (rule late, simp)
    qed (simp_all add: 5)
  qed (simp_all add: that)
  show ?thesis
    unfolding essedma_probe_def Let_def by (simp add: calls [unfolded wp_bind [of "clk_get_by_name D"]] early [of _ _ "[]"])
qed

end

text \<open>Between probe and remove the network core may call the driver's operations in any order.\<close>

definition uboot_lifecycle :: "phy_ops \<Rightarrow> uboot_dm \<Rightarrow> platform \<Rightarrow> uboot_cfg \<Rightarrow> eth_call list \<Rightarrow> (ubd, int) state" where
  "uboot_lifecycle U D P C calls = do {
     rc \<leftarrow> essedma_probe U D P C;
     if rc \<noteq> 0 then ret rc
     else do {
       for_each calls (essedma_eth_ops P C);
       essedma_remove U D } }"

context driver_model
begin

lemma remove_balance:
  assumes "balance h s [a, b] [] 1" and "ring_memory s = (a, b)"
  shows "wp (essedma_remove U D) (\<lambda>rc t. rc = 0 \<and> balance h t [a, b] [a, b] 0 \<and>
    (\<exists>r rest. hist t = Call ''reset_assert'' 0 # Call ''clk_disable'' r # rest)) s"
proof -
  let ?u = "s\<lparr>hist := Free b # Free a # hist s\<rparr>"
  let ?r = "dm_ret D (hist ?u) ''clk_disable''"
  let ?v = "?u\<lparr>hist := Call ''clk_disable'' ?r # hist ?u\<rparr>"
  have "balance h (s\<lparr>hist := Free a # hist s\<rparr>) [a, b] [a] 1"
    using balance_event(2) [OF assms(1)] by simp
  then have "balance h ?u [a, b] [a, b] 1" using balance_event(2) [of h _ _ _ _ ?u b] by fastforce
  then have "balance h ?v [a, b] [a, b] 0"
    using balance_event(3) [of h _ _ _ _ ?v "''clk_disable''" ?r] by fastforce
  then have "balance h (exec (reset_assert U) ?v) [a, b] [a, b] 0"
    using balance_event(3) [of h ?v _ _ _ "exec (reset_assert U) ?v" "''reset_assert''" 0] by (simp add: assert_seen)
  then show ?thesis
    using assms(2)
    by (simp add: essedma_remove_def ipq40xx_edma_free_rings_def ipq40xx_edma_free_ring_def ring_memory_def
        clk_disable_def dm_call_def) (simp add: wp_def assert_seen)
qed

lemma lifecycle_balance:
  "wp (uboot_lifecycle U D P C calls) (\<lambda>rc t. \<exists>xs. balance (hist s) t xs xs 0 \<and>
    (if rc = 0 then length xs = 2 \<and> (\<exists>r rest. hist t = Call ''reset_assert'' 0 # Call ''clk_disable'' r # rest)
     else (\<exists>es. list_all is_call es \<and> hist t = es @ hist s) \<or>
       (\<exists>r rest. hist t = Call ''clk_disable'' r # Call ''reset_assert'' 0 # rest))) s"
  unfolding uboot_lifecycle_def wp_bind [of "essedma_probe U D P C"]
proof (rule wp_mono [OF probe_balance], goal_cases)
  case (1 rc t)
  show ?case
  proof (cases "rc = 0")
    case True
    with 1 obtain a b where ab: "ring_memory t = (a, b)" "balance (hist s) t [a, b] [] 1"
      by (auto simp: probe_post_def)
    have "wp (do { for_each calls (essedma_eth_ops P C); essedma_remove U D })
      (\<lambda>rc t. rc = 0 \<and> balance (hist s) t [a, b] [a, b] 0 \<and>
        (\<exists>r rest. hist t = Call ''reset_assert'' 0 # Call ''clk_disable'' r # rest)) t"
      by (rule balance_step [OF ab(2)], intro calm_rules, rule remove_balance) (simp_all add: ab)
    then have "wp (do { for_each calls (essedma_eth_ops P C); essedma_remove U D })
      (\<lambda>rc t. \<exists>xs. balance (hist s) t xs xs 0 \<and>
        (if rc = 0 then length xs = 2 \<and> (\<exists>r rest. hist t = Call ''reset_assert'' 0 # Call ''clk_disable'' r # rest)
         else (\<exists>es. list_all is_call es \<and> hist t = es @ hist s) \<or>
           (\<exists>r rest. hist t = Call ''clk_disable'' r # Call ''reset_assert'' 0 # rest))) t"
      by (rule wp_mono) (intro exI [of _ "[a, b]"], simp)
    with True show ?thesis by simp
  next
    case False
    with 1 show ?thesis by (auto simp: probe_post_def)
  qed
qed

end

text \<open>
  C26: what U-Boot's probe takes is given back. If probe fails, every block of
  memory it allocated has been freed, the clock is off again if it was switched on,
  and either the hardware has not been touched or the driver ends by asserting its
  reset and then stopping its clock. If it succeeds, then after any calls of
  the driver's operations remove frees the two rings, both, once, stops the clock
  and asserts the reset.
\<close>

theorem uboot_lifecycle_balanced:
  assumes "driver_model U D"
  shows "let rc = result (uboot_lifecycle U D P C calls) s; s' = exec (uboot_lifecycle U D P C calls) s
    in \<exists>es. hist s' = es @ hist s \<and> freed es = allocated es \<and> clk_refs es = 0 \<and>
      (if rc = 0 then length (freed es) = 2 \<and> (\<exists>r rest. hist s' = Call ''reset_assert'' 0 # Call ''clk_disable'' r # rest)
       else list_all is_call es \<or> (\<exists>r rest. hist s' = Call ''clk_disable'' r # Call ''reset_assert'' 0 # rest))"
  using driver_model.lifecycle_balance [OF assms, of P C calls s]
  unfolding wp_def balance_def Let_def by fastforce

section \<open>A board\<close>

text \<open>
  U-Boot's MDIO driver over the polling macro, on a device tree with the six
  ports of the switch: node 1 holds the nodes 10 to 15, whose PHYs are the nodes
  20 to 25 with the addresses 0 to 5. Connecting to a PHY reads its identifier,
  setting it up restarts its autonegotiation. The clock and the reset controller work.
\<close>

definition probe_ops :: "(u8 \<Rightarrow> phy_regs) \<Rightarrow> phy_ops" where
  "probe_ops b = (board_ops b)\<lparr>reset_assert := do { emit (Call ''reset_assert'' 0); ret 0 }\<rparr>"

definition board_dm :: "(u8 \<Rightarrow> phy_regs) \<Rightarrow> uboot_dm" where
  "board_dm b = \<lparr>PHY_INTERFACE_MODE_PSGMII = 1, PHY_INTERFACE_MODE_RGMII = 2,
     dev_read_addr_name = (\<lambda>n. if n = ''edma'' then 0xc080000 else if n = ''psgmii_phy'' then 0x98000 else 0xc000000),
     dev_ofnode = 0, ofnode_find_subnode = (\<lambda>_ _. 1), ofnode_valid = (\<lambda>n. 0 < n),
     ofnode_subnodes = (\<lambda>n. if n = 1 then [10..15] else []), ofnode_is_enabled = (\<lambda>_. True),
     ofnode_parse_phandle = (\<lambda>n _. (0, n + 10)), ofnode_read_u32 = (\<lambda>n _. (0, of_int (n - 20))),
     ofnode_read_phy_mode = (\<lambda>_. 1), dm_ret = (\<lambda>_ _. 0),
     get_mdio_device = do {
       (rc, mp) \<leftarrow> uboot_mdio_probe (phy_platform b) IPQ4019_MDIO_BASE \<lparr>mp_mdio_base = 0\<rparr>;
       ret (sint rc) },
     dm_mdio_phy_connect = (\<lambda>a _. do {
       _ \<leftarrow> uboot_mdio_read (sample_poll (phy_platform b)) (phy_platform b) \<lparr>mp_mdio_base = IPQ4019_MDIO_BASE\<rparr> (ucast a) MDIO_DEVAD_NONE 2;
       ret (Some (ucast a)) }),
     phy_config = (\<lambda>d. do {
       _ \<leftarrow> uboot_mdio_write (sample_poll (phy_platform b)) \<lparr>mp_mdio_base = IPQ4019_MDIO_BASE\<rparr> (ucast d) MDIO_DEVAD_NONE ub_MII_BMCR 0x9040;
       ret 0 })\<rparr>"

lemma quiet_poll_reads: "io_within quiet (poll_reads P a ok sleep n)"
  by (induction n) (auto intro!: io_within_rules)

lemma quiet_mdio:
  "io_within quiet (uboot_mdio_read (sample_poll P) P mp a d r)"
  "io_within quiet (uboot_mdio_write (sample_poll P) mp a d r v)"
  "io_within quiet (uboot_mdio_probe P x mp)"
  unfolding uboot_mdio_read_def uboot_mdio_write_def uboot_mdio_probe_def uboot_mdio_wait_busy_def
    sample_poll_def Let_def
  by (intro io_within_rules quiet_poll_reads; simp)+

interpretation board_model: driver_model "probe_ops b" "board_dm b" for b
  by unfold_locales
    (auto simp: probe_ops_def board_ops_def mdio_phy_ops_def board_dm_def Let_def emit_def
      intro!: io_within_rules quiet_mdio)

theorem uboot_lifecycle_balanced_witness:
  "let s' = exec (uboot_lifecycle (probe_ops one_link) (board_dm one_link) silent sample_cfg [EthStart, EthRecv, EthStop]) ub_ready
   in freed (hist s') = allocated (hist s') \<and> clk_refs (hist s') = 0"
  using uboot_lifecycle_balanced [OF board_model.driver_model_axioms, of one_link silent sample_cfg "[EthStart, EthRecv, EthStop]" ub_ready]
  by (auto simp: Let_def)

section \<open>The ports found\<close>

text \<open>
  The enabled ports among the nodes, each with the address its PHY node gives;
  \<open>ports_complete\<close>: each of them has a PHY node with an address.
\<close>

definition port_addresses :: "uboot_dm \<Rightarrow> int list \<Rightarrow> u8 list" where
  "port_addresses D nodes =
     map (\<lambda>node. ucast (snd (ofnode_read_u32 D (snd (ofnode_parse_phandle D node ''phy-handle'')) ''reg'')))
       (filter (ofnode_is_enabled D) nodes)"

definition ports_complete :: "uboot_dm \<Rightarrow> int list \<Rightarrow> bool" where
  "ports_complete D nodes \<longleftrightarrow> list_all (\<lambda>node. ofnode_is_enabled D node \<longrightarrow>
     fst (ofnode_parse_phandle D node ''phy-handle'') = 0 \<and>
     fst (ofnode_read_u32 D (snd (ofnode_parse_phandle D node ''phy-handle'')) ''reg'') = 0) nodes"

text \<open>
  \<open>phys_found D mode ps k rc h\<close>: of the PHYs ps the first k were found, and rc and
  the history h are what that leads to. If a PHY was missing, the search for it was
  the last thing done; otherwise the setup of the last PHY was, and its result is rc.
  (An address a in the tree has 32 bits, that of a PHY is the low byte.)
\<close>

definition phys_found :: "uboot_dm \<Rightarrow> int \<Rightarrow> u8 list \<Rightarrow> nat \<Rightarrow> int \<Rightarrow> event list \<Rightarrow> bool" where
  "phys_found D mode ps k rc h \<longleftrightarrow>
     (\<forall>i<k. \<exists>a u. ucast a = ps ! i \<and> result (dm_mdio_phy_connect D a mode) u = Some (ps ! i)) \<and>
     (if k < length ps then rc = - ub_ENODEV \<and> (\<exists>a u. ucast a = ps ! k \<and>
        result (dm_mdio_phy_connect D a mode) u = None \<and> h = hist (exec (dm_mdio_phy_connect D a mode) u))
      else k = length ps \<and> (ps \<noteq> [] \<longrightarrow>
        (\<exists>u. rc = result (phy_config D (last ps)) u \<and> h = hist (exec (phy_config D (last ps)) u))))"

lemma phys_found_Cons:
  assumes "phys_found D mode ps k rc h" and "ps = [] \<Longrightarrow> phys_found D mode [d] 1 rc h"
    and "ucast a = d" and "result (dm_mdio_phy_connect D a mode) u = Some d"
  shows "phys_found D mode (d # ps) (Suc k) rc h"
proof -
  have "\<exists>a u. ucast a = (d # ps) ! i \<and> result (dm_mdio_phy_connect D a mode) u = Some ((d # ps) ! i)" if "i < Suc k" for i
    using assms(1,3,4) that by (cases i) (auto simp: phys_found_def)
  then show ?thesis
    using assms(1,2) by (auto simp: phys_found_def split: if_splits)
qed

text \<open>
  What the code relies on: connecting and setting up a PHY go through the MDIO bus
  and leave the driver's own data alone, and a PHY device is its address.
\<close>

definition phy_search :: "uboot_dm \<Rightarrow> bool" where
  "phy_search D \<longleftrightarrow> (\<forall>a m. io_within (\<lambda>_. True) (dm_mdio_phy_connect D a m)) \<and>
     (\<forall>d. io_within (\<lambda>_. True) (phy_config D d)) \<and>
     (\<forall>a m s d. result (dm_mdio_phy_connect D a m) s = Some d \<longrightarrow> d = ucast a)"

lemma phy_searchD:
  assumes "phy_search D"
  shows "io_within (\<lambda>_. True) (dm_mdio_phy_connect D a m)" and "io_within (\<lambda>_. True) (phy_config D d)"
    and "result (dm_mdio_phy_connect D a m) s = Some d \<Longrightarrow> d = ucast a"
  using assms unfolding phy_search_def by simp_all

lemma wp_of_phy_nodes:
  assumes "phy_search D" and "ports_complete D nodes"
    and "n + length (port_addresses D nodes) \<le> length (phydev (ep_esw (priv s)))"
  shows "wp (of_phy_nodes D nodes n rc) (\<lambda>r t. let ps = port_addresses D nodes; old = phydev (ep_esw (priv s)) in
      \<exists>k es cs rc'. k \<le> length ps \<and> phys_found D (port_wrapper_mode (ep_esw (priv s))) ps k rc' (hist t) \<and>
        r = (if k < length ps then Inl rc' else Inr (n + k, rc')) \<and> (ps = [] \<longrightarrow> rc' = rc \<and> es = []) \<and>
        t = s\<lparr>hist := es @ hist s, console := cs @ console s,
          priv := ep_esw_update (phydev_update (\<lambda>_. take n old @ take k ps @ drop (n + k) old)) (priv s)\<rparr>) s"
  using assms(2,3)
proof (induction nodes arbitrary: n rc s)
  case Nil
  show ?case
    by (simp add: port_addresses_def phys_found_def, rule exI [of _ "[]"], simp)
next
  case (Cons node nodes)
  let ?a = "snd (ofnode_read_u32 D (snd (ofnode_parse_phandle D node ''phy-handle'')) ''reg'')"
  let ?d = "ucast ?a :: u8" and ?old = "phydev (ep_esw (priv s))" and ?mode = "port_wrapper_mode (ep_esw (priv s))"
  show ?case
  proof (cases "ofnode_is_enabled D node")
    case False
    then show ?thesis using Cons by (simp add: port_addresses_def ports_complete_def)
  next
    case True
    then have here: "fst (ofnode_parse_phandle D node ''phy-handle'') = 0"
        "fst (ofnode_read_u32 D (snd (ofnode_parse_phandle D node ''phy-handle'')) ''reg'') = 0"
      and more: "ports_complete D nodes" and ps: "port_addresses D (node # nodes) = ?d # port_addresses D nodes"
      using Cons.prems(1) by (simp_all add: ports_complete_def port_addresses_def)
    have n: "n < length ?old" using Cons.prems(2) unfolding ps by simp
    have same: "s\<lparr>hist := h, console := c, priv := ep_esw_update (phydev_update (\<lambda>_. ?old)) (priv s)\<rparr> =
      s\<lparr>hist := h, console := c\<rparr>" for h c
      by (cases s; cases "priv s"; cases "ep_esw (priv s)") simp
    let ?C = "dm_mdio_phy_connect D ?a ?mode"
    obtain es cs where C: "exec ?C s = s\<lparr>hist := es @ hist s, console := cs @ console s\<rparr>"
      by (rule io_withinE [OF phy_searchD(1) [OF assms(1)], of ?a ?mode s])
    show ?thesis
    proof (cases "result ?C s")
      case None
      have "phys_found D ?mode (?d # port_addresses D nodes) 0 (- ub_ENODEV) (hist (exec ?C s))"
        using None by (auto simp: phys_found_def)
      then show ?thesis
        using True here None C n
        by (auto simp: wp_def ps Let_def case_prod_beta same intro!: exI [of _ 0] exI [of _ es] exI [of _ cs])
    next
      case (Some d)
      then have d: "result ?C s = Some ?d" using phy_searchD(3) [OF assms(1) Some] by simp
      let ?K = "phy_config D ?d" and ?s = "exec ?C s"
      obtain es' cs' where K: "exec ?K ?s = ?s\<lparr>hist := es' @ hist ?s, console := cs' @ console ?s\<rparr>"
        by (rule io_withinE [OF phy_searchD(2) [OF assms(1)], of ?d ?s])
      let ?t = "(exec ?K ?s)\<lparr>priv := ep_esw_update (phydev_update (\<lambda>ps. ps[n := ?d])) (priv s)\<rparr>"
      have "n + 1 + length (port_addresses D nodes) \<le> length (phydev (ep_esw (priv ?t)))"
        using Cons.prems(2) unfolding ps by simp
      note IH = Cons.IH [OF more this, of "result ?K ?s", unfolded wp_def Let_def]
      let ?run = "of_phy_nodes D nodes (n + 1) (result ?K ?s)" and ?ps = "port_addresses D nodes"
      obtain k es'' cs'' rc' where k: "k \<le> length ?ps" "phys_found D ?mode ?ps k rc' (hist (exec ?run ?t))"
        "result ?run ?t = (if k < length ?ps then Inl rc' else Inr (n + 1 + k, rc'))" "?ps = [] \<longrightarrow> rc' = result ?K ?s \<and> es'' = []"
        "exec ?run ?t = ?t\<lparr>hist := es'' @ hist ?t, console := cs'' @ console ?t,
          priv := ep_esw_update (phydev_update (\<lambda>_. take (n + 1) (?old[n := ?d]) @ take k ?ps @ drop (n + 1 + k) (?old[n := ?d]))) (priv ?t)\<rparr>"
        using IH by (elim exE conjE, intro that) (assumption | simp add: K)+
      have run: "run_state (of_phy_nodes D (node # nodes) n rc) s = run_state ?run ?t"
        using True here d n C K by (simp add: run_state_conv Let_def case_prod_beta store_phydev_def)
      have "phys_found D ?mode [?d] 1 rc' (hist (exec ?run ?t))" if "?ps = []"
        using that k(4,5) d by (auto simp: phys_found_def K)
      then have found: "phys_found D ?mode (?d # ?ps) (Suc k) rc' (hist (exec ?run ?t))"
        by (rule phys_found_Cons [OF k(2) _ refl d])
      have "exec ?run ?t = s\<lparr>hist := (es'' @ es' @ es) @ hist s, console := (cs'' @ cs' @ cs) @ console s,
          priv := ep_esw_update (phydev_update (\<lambda>_. take n ?old @ take (Suc k) (?d # ?ps) @ drop (n + Suc k) ?old)) (priv s)\<rparr>"
        unfolding k(5) unfolding K unfolding C using n by (simp add: take_Suc_conv_app_nth o_def)
      then show ?thesis
        unfolding wp_def result_def exec_def run ps Let_def
        using k(1,3) found [unfolded exec_def]
        by (intro exI [of _ "Suc k"] exI [of _ "es'' @ es' @ es"] exI [of _ "cs'' @ cs' @ cs"] exI [of _ rc'])
          (simp add: result_def exec_def)
    qed
  qed
qed

lemma wp_mask_bits:
  "wp (for_each [0..<n] (\<lambda>i. upd_esw (phy_mask_update (\<lambda>m. m OR BIT i))))
    (\<lambda>_ t. t = s\<lparr>priv := ep_esw_update (phy_mask_update (\<lambda>m. m OR mask n)) (priv s)\<rparr>) s"
proof (rule wp_for_upto [where I = "\<lambda>i t. t = s\<lparr>priv := ep_esw_update (phy_mask_update (\<lambda>m. m OR mask i)) (priv s)\<rparr>"])
  fix i t
  have "m OR mask i OR BIT i = m OR mask (Suc i)" for m :: u32
    by (rule bit_word_eqI) (auto simp: bit_simps BIT_def less_Suc_eq)
  then show "t = s\<lparr>priv := ep_esw_update (phy_mask_update (\<lambda>m. m OR mask i)) (priv s)\<rparr> \<Longrightarrow>
      wp (upd_esw (phy_mask_update (\<lambda>m. m OR BIT i)))
       (\<lambda>_ t. t = s\<lparr>priv := ep_esw_update (phy_mask_update (\<lambda>m. m OR mask (Suc i))) (priv s)\<rparr>) t"
    by (simp add: o_def or.assoc)
qed simp_all

text \<open>
  C27: from a device tree whose enabled ports all have a PHY with an address, of
  which there are no more than U-Boot's array holds, its driver learns the mode of
  the port wrapper and, in the order of the tree, the PHYs of the ports, and all but
  the last enter the mask that the self-test works on. What it returns then is what
  the setup of the last PHY, the last thing it does, returns: an error of another one
  is lost. When a PHY is not found it stops there with -ENODEV, having learnt only
  the PHYs before it. (PHYs are found and set up over the MDIO bus, which leaves
  the driver's data alone, and either may fail; a PHY device is its address.)
\<close>

theorem of_switch_ports:
  assumes "phy_search D"
    and "node = ofnode_find_subnode D (dev_ofnode D) ''ports''" and "ofnode_valid D node"
    and "mode = ofnode_read_phy_mode D node" and "mode \<noteq> - 1"
    and "ports_complete D (ofnode_subnodes D node)" and "ps = port_addresses D (ofnode_subnodes D node)"
    and "length ps \<le> length (phydev (ep_esw (priv s)))"
  shows "let rc = result (essedma_of_switch D) s; s' = exec (essedma_of_switch D) s; esw = ep_esw (priv s);
      found = esw\<lparr>ports_node := node, port_wrapper_mode := mode\<rparr>
    in \<exists>k es cs. k \<le> length ps \<and> phys_found D mode ps k rc (hist s') \<and> (ps = [] \<longrightarrow> rc = 0) \<and>
      s' = s\<lparr>hist := es @ hist s, console := cs @ console s, priv := (priv s)\<lparr>ep_esw :=
        (if k < length ps then found\<lparr>phydev := take k ps @ drop k (phydev esw)\<rparr>
         else found\<lparr>phydev := ps @ drop k (phydev esw), num_phy := int k, phy_mask := phy_mask esw OR mask (k - 1)\<rparr>)\<rparr>\<rparr>"
proof -
  let ?s = "s\<lparr>priv := ep_esw_update (\<lambda>e. e\<lparr>ports_node := node, port_wrapper_mode := mode\<rparr>) (priv s)\<rparr>"
  let ?esw = "ep_esw (priv s)" and ?nodes = "of_phy_nodes D (ofnode_subnodes D node) 0 0"
  have len: "0 + length (port_addresses D (ofnode_subnodes D node)) \<le> length (phydev (ep_esw (priv ?s)))"
    using assms(7,8) by simp
  obtain k es cs rc where k: "k \<le> length ps" "phys_found D mode ps k rc (es @ hist s)"
    "result ?nodes ?s = (if k < length ps then Inl rc else Inr (k, rc))" "ps = [] \<longrightarrow> rc = 0"
    "exec ?nodes ?s = ?s\<lparr>hist := es @ hist s, console := cs @ console s,
      priv := ep_esw_update (phydev_update (\<lambda>_. take k ps @ drop k (phydev ?esw))) (priv ?s)\<rparr>"
    using wp_of_phy_nodes [OF assms(1,6) len, of 0] unfolding assms(7) [symmetric] wp_def Let_def
    by (elim exE conjE, intro that) (assumption | simp)+
  have mask: "exec (for_each [0..<k - 1] (\<lambda>i. upd_esw (phy_mask_update (\<lambda>m. m OR BIT i)))) t =
      t\<lparr>priv := ep_esw_update (phy_mask_update (\<lambda>m. m OR mask (k - 1))) (priv t)\<rparr>" for t :: ubd
    using wp_mask_bits [of "k - 1" t] by (simp add: wp_def)
  have run: "run_state (essedma_of_switch D) s = run_state (essedma_of_phy D) ?s"
    using assms(2-5) by (simp add: essedma_of_switch_def run_state_conv Let_def o_def)
  show ?thesis
  proof (cases "k < length ps")
    case True
    then show ?thesis
      unfolding result_def exec_def run Let_def
      using k by (intro exI [of _ k] exI [of _ es] exI [of _ cs])
        (simp add: essedma_of_phy_def run_state_conv o_def)
  next
    case False
    then have n: "k = length ps" using k(1) by simp
    from False show ?thesis
      unfolding result_def exec_def run Let_def
      using k by (intro exI [of _ k] exI [of _ es] exI [of _ cs])
        (simp add: essedma_of_phy_def run_state_conv mask [unfolded n, simplified] o_def)
  qed
qed

text \<open>
  The six ports, once with a third PHY whose setup fails, which nobody notices, and
  once without a fourth PHY.
\<close>

definition third_phy_fails :: uboot_dm where
  "third_phy_fails = (board_dm one_link)\<lparr>phy_config := \<lambda>d. do {
     rc \<leftarrow> phy_config (board_dm one_link) d; ret (if d = 2 then - 5 else rc) }\<rparr>"

definition fourth_phy_missing :: uboot_dm where
  "fourth_phy_missing = (board_dm one_link)\<lparr>dm_mdio_phy_connect := \<lambda>a m. do {
     d \<leftarrow> dm_mdio_phy_connect (board_dm one_link) a m; ret (if d = Some 3 then None else d) }\<rparr>"

lemma board_phy_search: "phy_search third_phy_fails" "phy_search fourth_phy_missing"
  unfolding phy_search_def third_phy_fails_def fourth_phy_missing_def board_dm_def
  by (auto simp: split: if_splits intro!: io_within_rules io_within_mono [OF quiet_mdio(1)] io_within_mono [OF quiet_mdio(2)])

theorem of_switch_ports_witness:
  "let esw = ep_esw (priv (exec (essedma_of_switch third_phy_fails) ub_ready));
       esw' = ep_esw (priv (exec (essedma_of_switch fourth_phy_missing) ub_ready))
   in result (essedma_of_switch third_phy_fails) ub_ready = 0 \<and> phydev esw = [0, 1, 2, 3, 4, 5] \<and> num_phy esw = 6 \<and>
     result (essedma_of_switch fourth_phy_missing) ub_ready = - 19 \<and> take 3 (phydev esw') = [0, 1, 2]"
proof -
  have six: "[10..15] = [10, 11, 12, 13, 14, 15 :: int]" by (simp add: upto.simps)
  have D: "ofnode_find_subnode D n x = 1" "ofnode_valid D 1" "ofnode_read_phy_mode D 1 = 1"
    "ports_complete D (ofnode_subnodes D 1)" "port_addresses D (ofnode_subnodes D 1) = [0, 1, 2, 3, 4, 5]"
    if "D = third_phy_fails \<or> D = fourth_phy_missing" for D n x
    using that by (auto simp: third_phy_fails_def fourth_phy_missing_def ports_complete_def port_addresses_def board_dm_def six)
  note ports = of_switch_ports [where node = 1 and mode = 1 and s = ub_ready, OF _ D(1) [symmetric] D(2) D(3) [symmetric] _ D(4) D(5) [symmetric]]
  have c3: "result (dm_mdio_phy_connect third_phy_fails a m) u = Some (ucast a)"
    and c4: "result (dm_mdio_phy_connect fourth_phy_missing a m) u = (if ucast a = (3 :: u8) then None else Some (ucast a))"
    and f3: "result (phy_config third_phy_fails 5) u = 0" for a m u
    by (simp_all add: third_phy_fails_def fourth_phy_missing_def board_dm_def)
  have six_phys: "k = 0 \<or> k = 1 \<or> k = 2 \<or> k = 3 \<or> k = 4 \<or> k = 5" if "k < 6" for k :: nat using that by linarith
  have fails: "k = 6 \<and> rc = 0" if "phys_found third_phy_fails 1 [0, 1, 2, 3, 4, 5] k rc h" "k \<le> 6" for k rc h
    using that by (auto simp: phys_found_def c3 f3 split: if_splits)
  have missing: "k = 3 \<and> rc = - 19" if "phys_found fourth_phy_missing 1 [0, 1, 2, 3, 4, 5] k rc h" "k \<le> 6" for k rc h
  proof -
    have "k < 6" using that by (auto simp: phys_found_def c4 dest!: spec [of _ 3] split: if_splits)
    then have "rc = - 19" "[0, 1, 2, 3, 4, 5] ! k = (3 :: u8)"
      using that(1) by (auto simp: phys_found_def c4 split: if_splits)
    then show ?thesis using six_phys [OF \<open>k < 6\<close>] by auto
  qed
  have "result (essedma_of_switch third_phy_fails) ub_ready = 0 \<and>
      phydev (ep_esw (priv (exec (essedma_of_switch third_phy_fails) ub_ready))) = [0, 1, 2, 3, 4, 5] \<and>
      num_phy (ep_esw (priv (exec (essedma_of_switch third_phy_fails) ub_ready))) = 6"
    using ports [OF board_phy_search(1)] fails by (fastforce simp: Let_def ub_ready_def)
  moreover have "result (essedma_of_switch fourth_phy_missing) ub_ready = - 19 \<and>
      take 3 (phydev (ep_esw (priv (exec (essedma_of_switch fourth_phy_missing) ub_ready)))) = [0, 1, 2]"
    using ports [OF board_phy_search(2)] missing by (fastforce simp: Let_def ub_ready_def)
  ultimately show ?thesis by (simp add: Let_def)
qed

end
