(* ===== verification/Linux_Mdio.thy ===== *)
theory Linux_Mdio
  imports Uboot_Mdio
begin

text \<open>
  tmp/mdio-ipq4019.c, a copy of the Linux driver for the same MDIO controller:
  clause-22 and clause-45 accesses, the choice of the bus clock, probe and remove.
  The kernel's polling macro and its other functions (\<open>linux_kernel\<close>) are
  parameters; C's int is a 32-bit word.
\<close>

section \<open>Constants\<close>

definition lx_MDIO_MODE_REG :: u32 where [simp]: "lx_MDIO_MODE_REG = 0x40"
definition lx_MDIO_MODE_C45 :: u32 where [simp]: "lx_MDIO_MODE_C45 = BIT 8"
definition lx_MDIO_MODE_DIV_MASK :: u32 where [simp]: "lx_MDIO_MODE_DIV_MASK = GENMASK 7 0"
definition lx_MDIO_MODE_DIV :: "u32 \<Rightarrow> u32" where [simp]:
  "lx_MDIO_MODE_DIV x = FIELD_PREP lx_MDIO_MODE_DIV_MASK (x - 1)"
definition lx_MDIO_MODE_DIV_256 :: u32 where [simp]: "lx_MDIO_MODE_DIV_256 = 0xff"
definition lx_MDIO_ADDR_REG :: u32 where [simp]: "lx_MDIO_ADDR_REG = 0x44"
definition lx_MDIO_DATA_WRITE_REG :: u32 where [simp]: "lx_MDIO_DATA_WRITE_REG = 0x48"
definition lx_MDIO_DATA_READ_REG :: u32 where [simp]: "lx_MDIO_DATA_READ_REG = 0x4c"
definition lx_MDIO_CMD_REG :: u32 where [simp]: "lx_MDIO_CMD_REG = 0x50"
definition lx_MDIO_CMD_ACCESS_BUSY :: u32 where [simp]: "lx_MDIO_CMD_ACCESS_BUSY = BIT 16"
definition lx_MDIO_CMD_ACCESS_START :: u32 where [simp]: "lx_MDIO_CMD_ACCESS_START = BIT 8"
definition lx_MDIO_CMD_ACCESS_CODE_READ :: u32 where [simp]: "lx_MDIO_CMD_ACCESS_CODE_READ = 0"
definition lx_MDIO_CMD_ACCESS_CODE_WRITE :: u32 where [simp]: "lx_MDIO_CMD_ACCESS_CODE_WRITE = 1"
definition MDIO_CMD_ACCESS_CODE_C45_ADDR :: u32 where [simp]: "MDIO_CMD_ACCESS_CODE_C45_ADDR = 0"
definition MDIO_CMD_ACCESS_CODE_C45_WRITE :: u32 where [simp]: "MDIO_CMD_ACCESS_CODE_C45_WRITE = 1"
definition MDIO_CMD_ACCESS_CODE_C45_READ :: u32 where [simp]: "MDIO_CMD_ACCESS_CODE_C45_READ = 2"
definition lx_IPQ4019_MDIO_TIMEOUT :: nat where [simp]: "lx_IPQ4019_MDIO_TIMEOUT = 10000"
definition lx_IPQ4019_MDIO_SLEEP :: nat where [simp]: "lx_IPQ4019_MDIO_SLEEP = 10"
definition IPQ_MDIO_CLK_RATE :: u32 where [simp]: "IPQ_MDIO_CLK_RATE = 100000000"
definition IPQ_PHY_SET_DELAY_US :: nat where [simp]: "IPQ_PHY_SET_DELAY_US = 100000"

section \<open>Accesses\<close>

text \<open>
  The bus's private data: the optional second register block and clock are
  options. C's unsigned int and unsigned long both have 32 bits on this SoC.
\<close>

record ipq4019_mdio_data =
  membase :: u32
  eth_ldo_rdy :: "u32 option"
  mdio_clk :: bool
  mdc_rate :: u32

definition linux_mdio_wait_busy :: "'z poll_macro \<Rightarrow> ipq4019_mdio_data \<Rightarrow> ('z io_scheme, i32) state" where
  "linux_mdio_wait_busy poll d =
     poll (membase d + lx_MDIO_CMD_REG) (\<lambda>busy. busy AND lx_MDIO_CMD_ACCESS_BUSY = 0)
       lx_IPQ4019_MDIO_SLEEP lx_IPQ4019_MDIO_TIMEOUT"

definition ipq4019_mdio_read_c45 ::
  "'z poll_macro \<Rightarrow> platform \<Rightarrow> ipq4019_mdio_data \<Rightarrow> i32 \<Rightarrow> i32 \<Rightarrow> i32 \<Rightarrow> ('z io_scheme, i32) state" where
  "ipq4019_mdio_read_c45 poll P d mii_id mmd reg = do {
     rc \<leftarrow> linux_mdio_wait_busy poll d;
     if rc \<noteq> 0 then ret (- ETIMEDOUT)
     else do {
       data \<leftarrow> readl P (membase d + lx_MDIO_MODE_REG);
       let data = data OR lx_MDIO_MODE_C45;
       writel data (membase d + lx_MDIO_MODE_REG);
       writel (push_bit 8 mii_id OR mmd) (membase d + lx_MDIO_ADDR_REG);
       writel reg (membase d + lx_MDIO_DATA_WRITE_REG);
       writel (lx_MDIO_CMD_ACCESS_START OR MDIO_CMD_ACCESS_CODE_C45_ADDR) (membase d + lx_MDIO_CMD_REG);
       rc \<leftarrow> linux_mdio_wait_busy poll d;
       if rc \<noteq> 0 then ret (- ETIMEDOUT)
       else do {
         writel (lx_MDIO_CMD_ACCESS_START OR MDIO_CMD_ACCESS_CODE_C45_READ) (membase d + lx_MDIO_CMD_REG);
         rc \<leftarrow> linux_mdio_wait_busy poll d;
         if rc \<noteq> 0 then ret (- ETIMEDOUT) else readl P (membase d + lx_MDIO_DATA_READ_REG) } } }"

definition ipq4019_mdio_read_c22 ::
  "'z poll_macro \<Rightarrow> platform \<Rightarrow> ipq4019_mdio_data \<Rightarrow> i32 \<Rightarrow> i32 \<Rightarrow> ('z io_scheme, i32) state" where
  "ipq4019_mdio_read_c22 poll P d mii_id regnum = do {
     rc \<leftarrow> linux_mdio_wait_busy poll d;
     if rc \<noteq> 0 then ret (- ETIMEDOUT)
     else do {
       data \<leftarrow> readl P (membase d + lx_MDIO_MODE_REG);
       let data = data AND NOT lx_MDIO_MODE_C45;
       writel data (membase d + lx_MDIO_MODE_REG);
       writel (push_bit 8 mii_id OR regnum) (membase d + lx_MDIO_ADDR_REG);
       writel (lx_MDIO_CMD_ACCESS_START OR lx_MDIO_CMD_ACCESS_CODE_READ) (membase d + lx_MDIO_CMD_REG);
       rc \<leftarrow> linux_mdio_wait_busy poll d;
       if rc \<noteq> 0 then ret (- ETIMEDOUT) else readl P (membase d + lx_MDIO_DATA_READ_REG) } }"

definition ipq4019_mdio_write_c45 ::
  "'z poll_macro \<Rightarrow> platform \<Rightarrow> ipq4019_mdio_data \<Rightarrow> i32 \<Rightarrow> i32 \<Rightarrow> i32 \<Rightarrow> u16 \<Rightarrow> ('z io_scheme, i32) state" where
  "ipq4019_mdio_write_c45 poll P d mii_id mmd reg value = do {
     rc \<leftarrow> linux_mdio_wait_busy poll d;
     if rc \<noteq> 0 then ret (- ETIMEDOUT)
     else do {
       data \<leftarrow> readl P (membase d + lx_MDIO_MODE_REG);
       let data = data OR lx_MDIO_MODE_C45;
       writel data (membase d + lx_MDIO_MODE_REG);
       writel (push_bit 8 mii_id OR mmd) (membase d + lx_MDIO_ADDR_REG);
       writel reg (membase d + lx_MDIO_DATA_WRITE_REG);
       writel (lx_MDIO_CMD_ACCESS_START OR MDIO_CMD_ACCESS_CODE_C45_ADDR) (membase d + lx_MDIO_CMD_REG);
       rc \<leftarrow> linux_mdio_wait_busy poll d;
       if rc \<noteq> 0 then ret (- ETIMEDOUT)
       else do {
         writel (ucast value) (membase d + lx_MDIO_DATA_WRITE_REG);
         writel (lx_MDIO_CMD_ACCESS_START OR MDIO_CMD_ACCESS_CODE_C45_WRITE) (membase d + lx_MDIO_CMD_REG);
         rc \<leftarrow> linux_mdio_wait_busy poll d;
         if rc \<noteq> 0 then ret (- ETIMEDOUT) else ret 0 } } }"

definition ipq4019_mdio_write_c22 ::
  "'z poll_macro \<Rightarrow> platform \<Rightarrow> ipq4019_mdio_data \<Rightarrow> i32 \<Rightarrow> i32 \<Rightarrow> u16 \<Rightarrow> ('z io_scheme, i32) state" where
  "ipq4019_mdio_write_c22 poll P d mii_id regnum value = do {
     rc \<leftarrow> linux_mdio_wait_busy poll d;
     if rc \<noteq> 0 then ret (- ETIMEDOUT)
     else do {
       data \<leftarrow> readl P (membase d + lx_MDIO_MODE_REG);
       let data = data AND NOT lx_MDIO_MODE_C45;
       writel data (membase d + lx_MDIO_MODE_REG);
       writel (push_bit 8 mii_id OR regnum) (membase d + lx_MDIO_ADDR_REG);
       writel (ucast value) (membase d + lx_MDIO_DATA_WRITE_REG);
       writel (lx_MDIO_CMD_ACCESS_START OR lx_MDIO_CMD_ACCESS_CODE_WRITE) (membase d + lx_MDIO_CMD_REG);
       rc \<leftarrow> linux_mdio_wait_busy poll d;
       if rc \<noteq> 0 then ret (- ETIMEDOUT) else ret 0 } }"

section \<open>The bus clock\<close>

definition DIV_ROUND_UP :: "u32 \<Rightarrow> u32 \<Rightarrow> u32" where
  "DIV_ROUND_UP n d = (n + d - 1) div d"

text \<open>The divisors the loops go through: 8, doubled while at most 256, and back.\<close>

definition mdc_divs :: "u32 list" where
  "mdc_divs = [8, 16, 32, 64, 128, 256]"

definition ahb_rate :: "u32 \<Rightarrow> ipq4019_mdio_data \<Rightarrow> u32" where
  "ahb_rate rate d = (if mdio_clk d then rate else IPQ_MDIO_CLK_RATE)"

primrec set_div_from :: "platform \<Rightarrow> u32 \<Rightarrow> ipq4019_mdio_data \<Rightarrow> u32 list \<Rightarrow> ('z io_scheme, i32) state" where
  "set_div_from P ahb d [] = ret (- EINVAL)"
| "set_div_from P ahb d (dv # ds) =
     (if mdc_rate d = DIV_ROUND_UP ahb dv then do {
        val \<leftarrow> readl P (membase d + lx_MDIO_MODE_REG);
        let val = val AND NOT lx_MDIO_MODE_DIV_MASK;
        let val = val OR lx_MDIO_MODE_DIV dv;
        writel val (membase d + lx_MDIO_MODE_REG);
        ret 0 }
      else set_div_from P ahb d ds)"

text \<open>\<open>rate\<close> is what clk_get_rate says.\<close>

definition ipq4019_mdio_set_div :: "platform \<Rightarrow> u32 \<Rightarrow> ipq4019_mdio_data \<Rightarrow> ('z io_scheme, i32) state" where
  "ipq4019_mdio_set_div P rate d = set_div_from P (ahb_rate rate d) d mdc_divs"

text \<open>The clock functions, which belong to the kernel, are arguments.\<close>

definition ipq_mdio_reset ::
  "platform \<Rightarrow> ('z io_scheme, i32) state \<Rightarrow> ('z io_scheme, i32) state \<Rightarrow> u32 \<Rightarrow> ipq4019_mdio_data \<Rightarrow> ('z io_scheme, i32) state" where
  "ipq_mdio_reset P clk_set_rate clk_prepare_enable rate d = do {
     (case eth_ldo_rdy d of
        None \<Rightarrow> ret ()
      | Some a \<Rightarrow> do {
          val \<leftarrow> readl P a;
          writel (val OR BIT 0) a;
          udelay IPQ_PHY_SET_DELAY_US });
     rc \<leftarrow> clk_set_rate;
     if rc \<noteq> 0 then ret rc
     else do {
       rc \<leftarrow> clk_prepare_enable;
       if rc \<noteq> 0 then ret rc
       else do { mdelay 10; ipq4019_mdio_set_div P rate d } } }"

primrec select_from :: "u32 \<Rightarrow> u32 list \<Rightarrow> ipq4019_mdio_data \<Rightarrow> ipq4019_mdio_data" where
  "select_from ahb [] d = d"
| "select_from ahb (dv # ds) d =
     (if 2500000 < DIV_ROUND_UP ahb dv then d else select_from ahb ds (d\<lparr>mdc_rate := DIV_ROUND_UP ahb dv\<rparr>))"

text \<open>\<open>dt\<close> is the property clock-frequency of the device tree, if present.\<close>

definition ipq4019_mdio_select_mdc_rate ::
  "platform \<Rightarrow> u32 option \<Rightarrow> u32 \<Rightarrow> ipq4019_mdio_data \<Rightarrow> ('z io_scheme, ipq4019_mdio_data) state" where
  "ipq4019_mdio_select_mdc_rate P dt rate d = (case dt of
     Some r \<Rightarrow> ret (d\<lparr>mdc_rate := r\<rparr>)
   | None \<Rightarrow> do {
       val \<leftarrow> readl P (membase d + lx_MDIO_MODE_REG);
       let dv = FIELD_GET lx_MDIO_MODE_DIV_MASK val;
       if dv \<noteq> lx_MDIO_MODE_DIV_256
       then ret (d\<lparr>mdc_rate := DIV_ROUND_UP (ahb_rate rate d) (dv + 1)\<rparr>)
       else ret (select_from (ahb_rate rate d) (rev mdc_divs) d) })"

text \<open>The two steps of probe that set the clock.\<close>

definition linux_mdc_setup ::
  "platform \<Rightarrow> u32 option \<Rightarrow> u32 \<Rightarrow> ipq4019_mdio_data \<Rightarrow> ('z io_scheme, i32 \<times> ipq4019_mdio_data) state" where
  "linux_mdc_setup P dt rate d = do {
     d \<leftarrow> ipq4019_mdio_select_mdc_rate P dt rate d;
     rc \<leftarrow> ipq4019_mdio_set_div P rate d;
     ret (rc, d) }"

section \<open>Probe\<close>

text \<open>The operations of a bus, with its private data in them.\<close>

record 'z mii_bus =
  mb_read :: "i32 \<Rightarrow> i32 \<Rightarrow> ('z io_scheme, i32) state"
  mb_write :: "i32 \<Rightarrow> i32 \<Rightarrow> u16 \<Rightarrow> ('z io_scheme, i32) state"
  mb_read_c45 :: "i32 \<Rightarrow> i32 \<Rightarrow> i32 \<Rightarrow> ('z io_scheme, i32) state"
  mb_write_c45 :: "i32 \<Rightarrow> i32 \<Rightarrow> i32 \<Rightarrow> u16 \<Rightarrow> ('z io_scheme, i32) state"
  mb_reset :: "('z io_scheme, i32) state"

text \<open>
  What the kernel returns for this device, errors as \<open>Inl\<close>: whether a bus can be
  allocated, the two register blocks, whether there is a clock, the property
  clock-frequency, and its functions.
\<close>

record 'z linux_kernel =
  devm_mdiobus_alloc :: bool
  devm_platform_ioremap :: "i32 + u32"
  devm_clk_get_optional :: "i32 + bool"
  of_clock_frequency :: "u32 option"
  clk_get_rate :: u32
  resource_1 :: "(i32 + u32) option"
  clk_set_rate :: "('z io_scheme, i32) state"
  clk_prepare_enable :: "('z io_scheme, i32) state"
  of_mdiobus_register :: "'z mii_bus \<Rightarrow> ('z io_scheme, i32) state"
  mdiobus_unregister :: "'z mii_bus \<Rightarrow> ('z io_scheme, unit) state"

definition lx_ENOMEM :: i32 where [simp]: "lx_ENOMEM = 12"

definition ipq4019_mdio_bus :: "'z poll_macro \<Rightarrow> platform \<Rightarrow> 'z linux_kernel \<Rightarrow> ipq4019_mdio_data \<Rightarrow> 'z mii_bus" where
  "ipq4019_mdio_bus poll P K d =
    \<lparr>mb_read = ipq4019_mdio_read_c22 poll P d, mb_write = ipq4019_mdio_write_c22 poll P d,
     mb_read_c45 = ipq4019_mdio_read_c45 poll P d, mb_write_c45 = ipq4019_mdio_write_c45 poll P d,
     mb_reset = ipq_mdio_reset P (clk_set_rate K) (clk_prepare_enable K) (clk_get_rate K) d\<rparr>"

text \<open>The result: the return value and the bus stored with the device, if any.\<close>

definition linux_mdio_probe ::
  "'z poll_macro \<Rightarrow> platform \<Rightarrow> 'z linux_kernel \<Rightarrow> ('z io_scheme, i32 \<times> 'z mii_bus option) state" where
  "linux_mdio_probe poll P K =
    (if \<not> devm_mdiobus_alloc K then ret (- lx_ENOMEM, None)
     else case devm_platform_ioremap K of
       Inl err \<Rightarrow> ret (err, None)
     | Inr b \<Rightarrow> (case devm_clk_get_optional K of
         Inl err \<Rightarrow> ret (err, None)
       | Inr clk \<Rightarrow> do {
           (rc, d) \<leftarrow> linux_mdc_setup P (of_clock_frequency K) (clk_get_rate K)
             \<lparr>membase = b, eth_ldo_rdy = None, mdio_clk = clk, mdc_rate = 0\<rparr>;
           if rc \<noteq> 0 then ret (rc, None)
           else case (case resource_1 K of None \<Rightarrow> Inr d | Some r \<Rightarrow> map_sum id (\<lambda>a. d\<lparr>eth_ldo_rdy := Some a\<rparr>) r) of
             Inl err \<Rightarrow> ret (err, None)
           | Inr d \<Rightarrow> do {
               rc \<leftarrow> of_mdiobus_register K (ipq4019_mdio_bus poll P K d);
               if rc \<noteq> 0 then do { printf ''Cannot register MDIO bus!'' []; ret (rc, None) }
               else ret (0, Some (ipq4019_mdio_bus poll P K d)) } }))"

definition linux_mdio_remove :: "'z linux_kernel \<Rightarrow> 'z mii_bus \<Rightarrow> ('z io_scheme, unit) state" where
  "linux_mdio_remove K bus = mdiobus_unregister K bus"

section \<open>The divisor chosen\<close>

lemma div_field [simp]: "GENMASK 7 0 = (0xff :: u32)" "field_shift 0xff = 0"
  "FIELD_GET 0xff v = v AND 0xff" "FIELD_PREP 0xff v = v AND 0xff"
  by (simp_all add: GENMASK_def mask_eq_exp_minus_1 FIELD_GET_def FIELD_PREP_def field_shift_def upt_conv_Cons)

lemma select_from_keeps [simp]:
  "mdio_clk (select_from ahb ds d) = mdio_clk d" "membase (select_from ahb ds d) = membase d"
  "ahb_rate rate (select_from ahb ds d) = ahb_rate rate d" "ahb_rate rate (d\<lparr>mdc_rate := r\<rparr>) = ahb_rate rate d"
  by (induction ds arbitrary: d) (simp_all add: ahb_rate_def)

text \<open>Setting the divisor of a rate: the first one that gives it.\<close>

lemma wp_set_div:
  assumes "find (\<lambda>dv. mdc_rate d = DIV_ROUND_UP (ahb_rate rate d) dv) mdc_divs = None \<Longrightarrow> Q (- EINVAL) s"
    and "\<And>dv v. find (\<lambda>dv. mdc_rate d = DIV_ROUND_UP (ahb_rate rate d) dv) mdc_divs = Some dv \<Longrightarrow>
      v = bus_read P (hist s) (membase d + 0x40) \<Longrightarrow>
      Q 0 (s\<lparr>hist := Wr (membase d + 0x40) ((v AND NOT 0xff) OR ((dv - 1) AND 0xff)) #
        Rd (membase d + 0x40) v # hist s\<rparr>)"
  shows "wp (ipq4019_mdio_set_div P rate d) Q s"
proof -
  have "wp (set_div_from P (ahb_rate rate d) d ds) Q s"
    if "find (\<lambda>dv. mdc_rate d = DIV_ROUND_UP (ahb_rate rate d) dv) ds =
      find (\<lambda>dv. mdc_rate d = DIV_ROUND_UP (ahb_rate rate d) dv) mdc_divs" for ds
    using that
  proof (induction ds)
    case Nil
    then show ?case using assms(1) by simp
  next
    case (Cons dv ds)
    then show ?case using assms(2) [of dv] by (cases "mdc_rate d = DIV_ROUND_UP (ahb_rate rate d) dv") (simp_all add: wp_readl Let_def)
  qed
  then show ?thesis by (simp add: ipq4019_mdio_set_div_def)
qed

text \<open>Rounding up in numbers: nothing wraps for a clock far below 4 GHz.\<close>

definition round_up :: "nat \<Rightarrow> nat \<Rightarrow> nat" where
  "round_up n d = (n + d - 1) div d"

lemma unat_round_up:
  assumes "unat n + unat d < 2 ^ 32" and "0 < d"
  shows "unat (DIV_ROUND_UP n d) = round_up (unat n) (unat d)"
proof -
  have sum: "unat (n + d) = unat n + unat d" using assms(1) unat_add_lem [of n d] by simp
  have "0 < unat d" using assms(2) by (simp add: word_less_nat_alt)
  then have "n + d \<noteq> 0" using sum by (metis add_is_0 less_irrefl unat_0)
  from unat_minus_one [OF this] have "unat (n + d - 1) = unat n + unat d - 1" unfolding sum .
  then show ?thesis by (simp only: DIV_ROUND_UP_def round_up_def unat_div)
qed

lemma mdc_rounding:
  assumes "n \<le> 640000000" and "dv \<in> set mdc_divs"
  shows "unat (DIV_ROUND_UP n dv) = round_up (unat n) (unat dv)"
proof -
  have n: "unat n \<le> 640000000" using assms(1) by (simp add: word_le_nat_alt)
  have "unat dv \<le> 256" "0 < dv" using assms(2) by (auto simp: mdc_divs_def)
  then show ?thesis using n by (intro unat_round_up) simp_all
qed

text \<open>The slowest bus the loop of select leads to, for a clock of at most 640 MHz.\<close>

definition chosen_div :: "u32 \<Rightarrow> u32" where
  "chosen_div ahb = (case find (\<lambda>dv. DIV_ROUND_UP ahb dv \<le> 2500000) mdc_divs of Some dv \<Rightarrow> dv | None \<Rightarrow> 0)"

lemma div_order:
  assumes "n \<le> 640000000"
  shows "DIV_ROUND_UP n 256 \<le> DIV_ROUND_UP n 128" "DIV_ROUND_UP n 128 \<le> DIV_ROUND_UP n 64"
    "DIV_ROUND_UP n 64 \<le> DIV_ROUND_UP n 32" "DIV_ROUND_UP n 32 \<le> DIV_ROUND_UP n 16" "DIV_ROUND_UP n 16 \<le> DIV_ROUND_UP n 8"
    "DIV_ROUND_UP n 256 \<le> 2500000"
proof -
  have u: "unat n \<le> 640000000" using assms by (simp add: word_le_nat_alt)
  show "DIV_ROUND_UP n 256 \<le> DIV_ROUND_UP n 128" "DIV_ROUND_UP n 128 \<le> DIV_ROUND_UP n 64"
    "DIV_ROUND_UP n 64 \<le> DIV_ROUND_UP n 32" "DIV_ROUND_UP n 32 \<le> DIV_ROUND_UP n 16" "DIV_ROUND_UP n 16 \<le> DIV_ROUND_UP n 8"
    "DIV_ROUND_UP n 256 \<le> 2500000"
    using u by (simp_all add: word_le_nat_alt mdc_rounding [OF assms] mdc_divs_def) (simp_all add: round_up_def)
qed

text \<open>The first divisor whose rate is at most 2.5 MHz, in order.\<close>

lemma chosen_cases:
  assumes "ahb \<le> 640000000"
  obtains i where "i < 6" and "chosen_div ahb = mdc_divs ! i" and "\<forall>j < 6. DIV_ROUND_UP ahb (mdc_divs ! j) \<le> 2500000 \<longleftrightarrow> i \<le> j"
proof -
  let ?ok = "\<lambda>i. DIV_ROUND_UP ahb (mdc_divs ! i) \<le> 2500000"
  have step: "?ok i \<Longrightarrow> ?ok (Suc i)" if i: "i < 5" for i
  proof -
    consider "i = 0" | "i = 1" | "i = 2" | "i = 3" | "i = 4" using i by linarith
    then show "?ok i \<Longrightarrow> ?ok (Suc i)" by cases (simp_all add: mdc_divs_def order_trans [OF div_order(1) [OF assms]]
      order_trans [OF div_order(2) [OF assms]] order_trans [OF div_order(3) [OF assms]] order_trans [OF div_order(4) [OF assms]]
      order_trans [OF div_order(5) [OF assms]])
  qed
  define i where "i = (LEAST i. ?ok i)"
  have five: "?ok 5" using div_order(6) [OF assms] by (simp add: mdc_divs_def)
  then have i: "?ok i" "i \<le> 5" unfolding i_def by (rule LeastI, rule Least_le)
  have up: "?ok j" if "i \<le> j" "j \<le> 5" for j
    using that by (induction rule: dec_induct) (use i(1) step in auto)
  have below: "\<not> ?ok j" if "j < i" for j using that unfolding i_def by (rule not_less_Least)
  have "find (\<lambda>dv. DIV_ROUND_UP ahb dv \<le> 2500000) mdc_divs = Some (mdc_divs ! i)"
    unfolding find_Some_iff using i below by (intro exI [of _ i]) (simp add: mdc_divs_def)
  then have "chosen_div ahb = mdc_divs ! i" by (simp add: chosen_div_def)
  moreover have "?ok j = (i \<le> j)" if "j < 6" for j using up [of j] below [of j] that by (cases "i \<le> j") simp_all
  ultimately show thesis using i(2) by (intro that [of i]) simp_all
qed

lemma select_chosen:
  assumes "ahb \<le> 640000000"
  shows "mdc_rate (select_from ahb (rev mdc_divs) d) = DIV_ROUND_UP ahb (chosen_div ahb)"
    and "find (\<lambda>dv. DIV_ROUND_UP ahb (chosen_div ahb) = DIV_ROUND_UP ahb dv) mdc_divs = Some (chosen_div ahb)"
    and "chosen_div ahb \<in> set mdc_divs" and "DIV_ROUND_UP ahb (chosen_div ahb) \<le> 2500000"
    and "\<forall>dv \<in> set mdc_divs. dv < chosen_div ahb \<longrightarrow> 2500000 < DIV_ROUND_UP ahb dv"
proof -
  obtain i where i: "i < 6" "chosen_div ahb = mdc_divs ! i"
    and ok: "\<forall>j < 6. DIV_ROUND_UP ahb (mdc_divs ! j) \<le> 2500000 \<longleftrightarrow> i \<le> j"
    using chosen_cases [OF assms] by blast
  have len: "length mdc_divs = 6" by (simp add: mdc_divs_def)
  have all: "\<forall>j < 6. P j" if "P 0" "P 1" "P 2" "P 3" "P 4" "P 5" for P :: "nat \<Rightarrow> bool"
    using that by (auto simp: less_Suc_eq numeral_eq_Suc)
  have rates: "(2500000 < DIV_ROUND_UP ahb 8) = (0 < i)" "(2500000 < DIV_ROUND_UP ahb 16) = (1 < i)"
    "(2500000 < DIV_ROUND_UP ahb 32) = (2 < i)" "(2500000 < DIV_ROUND_UP ahb 64) = (3 < i)"
    "(2500000 < DIV_ROUND_UP ahb 128) = (4 < i)" "(2500000 < DIV_ROUND_UP ahb 256) = (5 < i)"
    using spec [OF ok, of 0] spec [OF ok, of 1] spec [OF ok, of 2] spec [OF ok, of 3] spec [OF ok, of 4] spec [OF ok, of 5]
    by (simp_all only: mdc_divs_def not_le [symmetric]) simp_all
  show "DIV_ROUND_UP ahb (chosen_div ahb) \<le> 2500000" "chosen_div ahb \<in> set mdc_divs" using i ok len by simp_all
  show "find (\<lambda>dv. DIV_ROUND_UP ahb (chosen_div ahb) = DIV_ROUND_UP ahb dv) mdc_divs = Some (chosen_div ahb)"
  proof -
    have "DIV_ROUND_UP ahb (mdc_divs ! i) \<noteq> DIV_ROUND_UP ahb (mdc_divs ! j)" if "j < i" for j
      using that spec [OF ok, of i] spec [OF ok, of j] i(1) by (metis le_refl less_trans not_le)
    then show ?thesis unfolding find_Some_iff i(2) using i(1) len by (intro exI [of _ i]) simp
  qed
  consider "i = 0" | "i = 1" | "i = 2" | "i = 3" | "i = 4" | "i = 5" using i(1) by linarith
  then have "mdc_rate (select_from ahb (rev mdc_divs) d) = DIV_ROUND_UP ahb (chosen_div ahb) \<and>
      (\<forall>dv \<in> set mdc_divs. dv < chosen_div ahb \<longrightarrow> 2500000 < DIV_ROUND_UP ahb dv)"
    unfolding i(2) by cases (simp_all add: mdc_divs_def rates)
  then show "mdc_rate (select_from ahb (rev mdc_divs) d) = DIV_ROUND_UP ahb (chosen_div ahb)"
    "\<forall>dv \<in> set mdc_divs. dv < chosen_div ahb \<longrightarrow> 2500000 < DIV_ROUND_UP ahb dv" by simp_all
qed

text \<open>
  On a controller with the reset divisor, no frequency in the device tree and a
  clock of at most 640 MHz, probe finds the fastest supported bus clock of at most
  2.5 MHz, sets its divisor and nothing else of the mode register, and succeeds.
  Without a clock of its own (100 MHz) that is the divisor the port programs.
\<close>

theorem linux_mdc_default:
  assumes "bus_read P (hist w) (membase d + 0x40) AND 0xff = 0xff" and "ahb_rate rate d \<le> 640000000"
  shows "let r = result (linux_mdc_setup P None rate d) w; w' = exec (linux_mdc_setup P None rate d) w;
      ahb = ahb_rate rate d
    in fst r = 0 \<and> (\<exists>dv \<in> set mdc_divs. \<exists>v. mdc_rate (snd r) = DIV_ROUND_UP ahb dv \<and>
      DIV_ROUND_UP ahb dv \<le> 2500000 \<and> (\<forall>dv' \<in> set mdc_divs. dv' < dv \<longrightarrow> 2500000 < DIV_ROUND_UP ahb dv') \<and>
      reads (hist w') = reads (hist w) @ [(membase d + 0x40, bus_read P (hist w) (membase d + 0x40)), (membase d + 0x40, v)] \<and>
      writes (hist w') = writes (hist w) @ [(membase d + 0x40, (v AND NOT 0xff) OR (dv - 1))] \<and>
      (\<not> mdio_clk d \<longrightarrow> dv - 1 = MDIO_MODE_DIV_64))"
proof -
  let ?ahb = "ahb_rate rate d" let ?dv = "chosen_div (ahb_rate rate d)"
  note c = select_chosen [OF assms(2)]
  have byte: "(?dv - 1) AND 0xff = ?dv - 1" using c(3) by (auto simp: mdc_divs_def)
  have port: "?dv - 1 = MDIO_MODE_DIV_64" if "\<not> mdio_clk d"
    using that by (simp add: ahb_rate_def chosen_div_def mdc_divs_def DIV_ROUND_UP_def)
  have "wp (linux_mdc_setup P None rate d) (\<lambda>r w'. fst r = 0 \<and> mdc_rate (snd r) = DIV_ROUND_UP ?ahb ?dv \<and>
      (\<exists>v. reads (hist w') = reads (hist w) @ [(membase d + 0x40, bus_read P (hist w) (membase d + 0x40)), (membase d + 0x40, v)] \<and>
        writes (hist w') = writes (hist w) @ [(membase d + 0x40, (v AND NOT 0xff) OR (?dv - 1))])) w"
    unfolding linux_mdc_setup_def ipq4019_mdio_select_mdc_rate_def
    by (simp add: wp_readl assms(1) Let_def, rule wp_set_div) (use byte in \<open>auto simp: c(1,2)\<close>)
  then show ?thesis using c(3,4,5) port unfolding wp_def Let_def by blast
qed

definition linux_sample :: ipq4019_mdio_data where
  "linux_sample = \<lparr>membase = IPQ4019_MDIO_BASE, eth_ldo_rdy = None, mdio_clk = False, mdc_rate = 0\<rparr>"

theorem linux_mdc_default_witness:
  "let r = result (linux_mdc_setup (silent\<lparr>bus_read := \<lambda>_ _. 0xff\<rparr>) None 0 linux_sample) boot_io in
    fst r = 0 \<and> mdc_rate (snd r) = 1562500"
proof -
  have "dv = 64" if "dv \<in> set mdc_divs" "dv - 1 = 0x3f" for dv
    using that by (auto simp: mdc_divs_def)
  then show ?thesis
    using linux_mdc_default [of "silent\<lparr>bus_read := \<lambda>_ _. 0xff\<rparr>" boot_io linux_sample 0]
    by (fastforce simp: Let_def linux_sample_def ahb_rate_def DIV_ROUND_UP_def)
qed

text \<open>The rates of a 100 MHz clock are all different.\<close>

lemma round_up_bounds:
  assumes "0 < n" and "0 < k"
  shows "n \<le> round_up n k * k" and "round_up n k * k < n + k"
proof -
  have "(n + k - 1) div k * k + (n + k - 1) mod k = n + k - 1" by simp
  moreover have "(n + k - 1) mod k < k" using assms(2) by simp
  ultimately show "n \<le> round_up n k * k" "round_up n k * k < n + k"
    using assms unfolding round_up_def by linarith+
qed

lemma rate_less:
  assumes "0 < k" and "k < dv" and "dv \<le> 256"
  shows "round_up 100000000 k \<noteq> round_up 100000000 dv"
proof
  let ?n = "100000000 :: nat" let ?q = "round_up 100000000 k"
  assume same: "?q = round_up ?n dv"
  have k: "?n \<le> ?q * k" and dv: "?q * dv < ?n + dv"
    using round_up_bounds [of ?n k] round_up_bounds [of ?n dv] assms unfolding same by simp_all
  have "?q * (k + 1) \<le> ?q * dv" using assms(2) by (intro mult_le_mono2) simp
  then have "?q < dv" using k dv by (simp add: algebra_simps)
  then have "?q * k \<le> 256 * 256" using assms by (intro mult_le_mono) simp_all
  then show False using k by simp
qed

lemma fixed_rate_inj:
  assumes "0 < k" and "k \<le> 256" and "0 < dv" and "dv \<le> 256"
  shows "DIV_ROUND_UP IPQ_MDIO_CLK_RATE k = DIV_ROUND_UP IPQ_MDIO_CLK_RATE dv \<longleftrightarrow> k = dv"
proof -
  have n: "unat k \<le> 256" "0 < unat k" "unat dv \<le> 256" "0 < unat dv"
    using assms by (simp_all add: word_le_nat_alt word_less_nat_alt)
  then have "unat (DIV_ROUND_UP IPQ_MDIO_CLK_RATE x) = round_up 100000000 (unat x)" if "x = k \<or> x = dv" for x
    using that assms by (subst unat_round_up) auto
  then show ?thesis
    using n rate_less [of "unat k" "unat dv"] rate_less [of "unat dv" "unat k"]
    by (cases "unat k" "unat dv" rule: linorder_cases) (auto simp: word_unat_eq_iff simp del: IPQ_MDIO_CLK_RATE_def)
qed

text \<open>
  The divisor a controller with the fixed clock is set to: dt is the property
  clock-frequency, if present, and f the field that the mode register holds.
\<close>

definition mdc_wanted :: "u32 option \<Rightarrow> u32 \<Rightarrow> u32 option" where
  "mdc_wanted dt f = (case dt of
     Some r \<Rightarrow> find (\<lambda>dv. DIV_ROUND_UP IPQ_MDIO_CLK_RATE dv = r) mdc_divs
   | None \<Rightarrow> if f = 0xff then Some 64 else find (\<lambda>dv. dv = f + 1) mdc_divs)"

lemma mdc_rate_chosen:
  assumes "f = v AND 0xff" and "f \<noteq> 0xff"
  shows "find (\<lambda>dv. DIV_ROUND_UP IPQ_MDIO_CLK_RATE (f + 1) = DIV_ROUND_UP IPQ_MDIO_CLK_RATE dv) mdc_divs = mdc_wanted None f"
proof -
  have m: "(0xff :: u32) = mask 8" by (simp add: mask_eq_exp_minus_1)
  have small: "unat f < 256"
    unfolding assms(1) m take_bit_eq_mask [symmetric] unsigned_take_bit_eq by (simp add: take_bit_eq_mod)
  then have "unat (f + 1) = unat f + 1" by (simp add: unat_word_ariths)
  then have f: "0 < f + 1" "f + 1 \<le> 256" using small by (simp_all add: word_less_nat_alt word_le_nat_alt)
  have "(DIV_ROUND_UP IPQ_MDIO_CLK_RATE (f + 1) = DIV_ROUND_UP IPQ_MDIO_CLK_RATE dv) = (dv = f + 1)"
    if "dv \<in> set mdc_divs" for dv
    using that by (subst fixed_rate_inj [OF f]) (auto simp: mdc_divs_def)
  then have "find (\<lambda>dv. DIV_ROUND_UP IPQ_MDIO_CLK_RATE (f + 1) = DIV_ROUND_UP IPQ_MDIO_CLK_RATE dv) mdc_divs =
      find (\<lambda>dv. dv = f + 1) mdc_divs"
    by (intro find_cong) (simp_all del: IPQ_MDIO_CLK_RATE_def)
  then show ?thesis using assms(2) by (simp add: mdc_wanted_def del: IPQ_MDIO_CLK_RATE_def)
qed

lemma wp_mdc_fixed:
  assumes "\<not> mdio_clk d" and "f = bus_read P (hist s) (membase d + 0x40) AND 0xff"
    and set: "\<And>dv v e t. mdc_wanted dt f = Some dv \<Longrightarrow> membase e = membase d \<Longrightarrow>
      writes (hist t) = writes (hist s) @ [(membase d + 0x40, (v AND NOT 0xff) OR (dv - 1))] \<Longrightarrow> Q (0, e) t"
    and fail: "\<And>e t. mdc_wanted dt f = None \<Longrightarrow> writes (hist t) = writes (hist s) \<Longrightarrow> Q (- EINVAL, e) t"
  shows "wp (linux_mdc_setup P dt rate d) Q s"
proof -
  have ahb: "ahb_rate rate d = IPQ_MDIO_CLK_RATE" using assms(1) by (simp add: ahb_rate_def)
  have byte: "(dv - 1) AND 0xff = dv - 1" if "find p mdc_divs = Some dv" for p dv
    using that by (auto simp: mdc_divs_def split: if_splits)
  have put: "wp (ipq4019_mdio_set_div P rate e) (\<lambda>rc. Q (rc, e)) t"
    if e: "membase e = membase d" "ahb_rate rate e = IPQ_MDIO_CLK_RATE" "writes (hist t) = writes (hist s)"
      "find (\<lambda>dv. mdc_rate e = DIV_ROUND_UP IPQ_MDIO_CLK_RATE dv) mdc_divs = mdc_wanted dt f" for e t
  proof (rule wp_set_div, goal_cases)
    case 1
    then show ?case using e by (intro fail) (simp_all del: IPQ_MDIO_CLK_RATE_def)
  next
    case (2 dv v)
    then have "(dv - 1) AND 0xff = dv - 1" by (intro byte)
    then show ?case using 2 e by (intro set) (simp_all del: IPQ_MDIO_CLK_RATE_def)
  qed
  show ?thesis
  proof (cases dt)
    case (Some r)
    then show ?thesis
      unfolding linux_mdc_setup_def ipq4019_mdio_select_mdc_rate_def
      using ahb by (simp del: IPQ_MDIO_CLK_RATE_def) (rule put, auto simp: mdc_wanted_def eq_commute simp del: IPQ_MDIO_CLK_RATE_def)
  next
    case None
    show ?thesis
    proof (cases "f = 0xff")
      case True
      have le: "IPQ_MDIO_CLK_RATE \<le> 640000000" by simp
      have c: "chosen_div IPQ_MDIO_CLK_RATE = 64" by (simp add: chosen_div_def mdc_divs_def DIV_ROUND_UP_def)
      have "wp (ipq4019_mdio_set_div P rate (select_from IPQ_MDIO_CLK_RATE (rev mdc_divs) d))
          (\<lambda>rc. Q (rc, select_from IPQ_MDIO_CLK_RATE (rev mdc_divs) d)) (s\<lparr>hist := Rd (membase d + 0x40) v # hist s\<rparr>)" for v
        by (rule put) (use ahb c select_chosen(1,2) [OF le] None True in \<open>simp_all add: mdc_wanted_def del: IPQ_MDIO_CLK_RATE_def\<close>)
      then show ?thesis
        unfolding linux_mdc_setup_def ipq4019_mdio_select_mdc_rate_def
        using ahb None True assms(2) by (simp add: wp_readl Let_def del: IPQ_MDIO_CLK_RATE_def)
    next
      case False
      have "wp (ipq4019_mdio_set_div P rate (d\<lparr>mdc_rate := DIV_ROUND_UP IPQ_MDIO_CLK_RATE (f + 1)\<rparr>))
          (\<lambda>rc. Q (rc, d\<lparr>mdc_rate := DIV_ROUND_UP IPQ_MDIO_CLK_RATE (f + 1)\<rparr>)) (s\<lparr>hist := Rd (membase d + 0x40) v # hist s\<rparr>)" for v
        by (rule put) (use ahb mdc_rate_chosen [OF assms(2) False] None in \<open>simp_all del: IPQ_MDIO_CLK_RATE_def\<close>)
      then show ?thesis
        unfolding linux_mdc_setup_def ipq4019_mdio_select_mdc_rate_def
        using ahb None False assms(2) by (simp add: wp_readl Let_def del: IPQ_MDIO_CLK_RATE_def)
    qed
  qed
qed

text \<open>
  C29: on a controller with the fixed 100 MHz clock and one register block, a divisor
  that a boot loader has left is kept only if the device tree gives no clock-frequency
  and the divisor is one of the six supported ones: then probe writes it back. A
  left divisor of 256 is replaced by 64. Where the device tree does give a
  clock-frequency, that alone decides: if it is the rate of a supported divisor, this
  one is written over whatever was left. Having written the divisor, and nothing
  else, probe registers the bus, whose result is probe's. In every other case it
  fails with -EINVAL, has written nothing and offers no bus.
\<close>

theorem linux_mdc_kept:
  assumes "devm_mdiobus_alloc K" and "devm_platform_ioremap K = Inr b" and "devm_clk_get_optional K = Inr False"
    and "resource_1 K = None" and "f = bus_read P (hist w) (b + 0x40) AND 0xff"
  shows "let (rc, bus) = result (linux_mdio_probe poll P K) w; w' = exec (linux_mdio_probe poll P K) w
    in case mdc_wanted (of_clock_frequency K) f of
       Some dv \<Rightarrow> \<exists>v d t. writes (hist t) = writes (hist w) @ [(b + 0x40, (v AND NOT 0xff) OR (dv - 1))] \<and> membase d = b \<and>
         rc = result (of_mdiobus_register K (ipq4019_mdio_bus poll P K d)) t \<and>
         hist w' = hist (exec (of_mdiobus_register K (ipq4019_mdio_bus poll P K d)) t) \<and>
         (rc = 0 \<longleftrightarrow> bus \<noteq> None)
     | None \<Rightarrow> rc = - EINVAL \<and> bus = None \<and> writes (hist w') = writes (hist w)"
proof -
  let ?R = "\<lambda>d. of_mdiobus_register K (ipq4019_mdio_bus poll P K d)"
  have "wp (linux_mdio_probe poll P K) (\<lambda>(rc, bus) w'. case mdc_wanted (of_clock_frequency K) f of
       Some dv \<Rightarrow> \<exists>v d t. writes (hist t) = writes (hist w) @ [(b + 0x40, (v AND NOT 0xff) OR (dv - 1))] \<and> membase d = b \<and>
         rc = result (?R d) t \<and> hist w' = hist (exec (?R d) t) \<and> (rc = 0 \<longleftrightarrow> bus \<noteq> None)
     | None \<Rightarrow> rc = - EINVAL \<and> bus = None \<and> writes (hist w') = writes (hist w)) w"
    unfolding linux_mdio_probe_def using assms
    by (simp del: One_nat_def, intro wp_mdc_fixed [where f = f]) (auto simp: wp_def printf_def)
  then show ?thesis by (simp add: wp_def Let_def case_prod_beta)
qed

definition linux_sample_kernel :: "unit linux_kernel" where
  "linux_sample_kernel = \<lparr>devm_mdiobus_alloc = True, devm_platform_ioremap = Inr IPQ4019_MDIO_BASE,
     devm_clk_get_optional = Inr False, of_clock_frequency = None, clk_get_rate = 0, resource_1 = None,
     clk_set_rate = ret 0, clk_prepare_enable = ret 0, of_mdiobus_register = (\<lambda>bus. ret 0),
     mdiobus_unregister = (\<lambda>_. ret ())\<rparr>"

text \<open>
  A boot loader's divisor of 25 makes probe fail, one of 32 is written back, and one of
  25 is overwritten when the device tree asks for 3.125 MHz.
\<close>

theorem linux_mdc_kept_witness:
  "let probe = (\<lambda>f dt. linux_mdio_probe (sample_poll silent) (silent\<lparr>bus_read := \<lambda>_ _. f\<rparr>)
         (linux_sample_kernel\<lparr>of_clock_frequency := dt\<rparr>)) in
   fst (result (probe 0x18 None) boot_io) = - EINVAL \<and> writes (hist (exec (probe 0x18 None) boot_io)) = [] \<and>
   (\<exists>x. writes (hist (exec (probe 0x1f None) boot_io)) = [(0x90040, x)] \<and> x AND 0xff = 0x1f) \<and>
   (\<exists>x. writes (hist (exec (probe 0x18 (Some 3125000)) boot_io)) = [(0x90040, x)] \<and> x AND 0xff = 0x1f)"
proof -
  let ?K = "\<lambda>dt. linux_sample_kernel\<lparr>of_clock_frequency := dt\<rparr>"
  have wanted: "mdc_wanted None 0x18 = None" "mdc_wanted None 0x1f = Some 32" "mdc_wanted (Some 3125000) 0x18 = Some 32"
    by (simp_all add: mdc_wanted_def mdc_divs_def DIV_ROUND_UP_def)
  have low: "((v AND NOT 0xff) OR 0x1f) AND 0xff = (0x1f :: u32)" for v
    by (simp add: bit.conj_disj_distrib2 and.assoc)
  have kept: "let (rc, bus) = result (linux_mdio_probe (sample_poll silent) (silent\<lparr>bus_read := \<lambda>_ _. f\<rparr>) (?K dt)) boot_io;
      w' = exec (linux_mdio_probe (sample_poll silent) (silent\<lparr>bus_read := \<lambda>_ _. f\<rparr>) (?K dt)) boot_io
    in case mdc_wanted dt f of
       Some dv \<Rightarrow> \<exists>v. writes (hist w') = [(0x90040, (v AND NOT 0xff) OR (dv - 1))]
     | None \<Rightarrow> rc = - EINVAL \<and> writes (hist w') = []" if "f AND 0xff = f" for dt f
    using linux_mdc_kept [of "?K dt" IPQ4019_MDIO_BASE f "silent\<lparr>bus_read := \<lambda>_ _. f\<rparr>" boot_io "sample_poll silent"] that
    by (auto simp: Let_def case_prod_beta linux_sample_kernel_def boot_io_def split: option.splits)
  show ?thesis
    using kept [of "0x18" None] kept [of "0x1f" None] kept [of "0x18" "Some 3125000"] low
    by (auto simp: Let_def wanted case_prod_beta)
qed

section \<open>Clauses\<close>

text \<open>
  \<open>in_clause b c es h\<close>: every command among the events es, which follow the
  history h, is given while the mode register last written has clause 45 selected
  (c) or not.
\<close>

fun in_clause :: "u32 \<Rightarrow> bool \<Rightarrow> event list \<Rightarrow> event list \<Rightarrow> bool" where
  "in_clause b c [] h = True"
| "in_clause b c (Wr a v # es) h \<longleftrightarrow> in_clause b c es h \<and>
     (a = b + 0x50 \<longrightarrow> (\<exists>m. last_write (es @ h) (b + 0x40) = Some m \<and> bit m 8 = c))"
| "in_clause b c (e # es) h = in_clause b c es h"

text \<open>While an access runs: the commands so far, and whether the mode is set.\<close>

definition clause_run :: "u32 \<Rightarrow> bool \<Rightarrow> bool \<Rightarrow> event list \<Rightarrow> 'z io_scheme \<Rightarrow> bool" where
  "clause_run b c is_set h t \<longleftrightarrow> (\<exists>es. hist t = es @ h \<and> in_clause b c es h \<and>
     (is_set \<longrightarrow> (\<exists>m. last_write (hist t) (b + 0x40) = Some m \<and> bit m 8 = c)))"

lemma in_clause_quiet:
  assumes "writes es = []"
  shows "in_clause b c (es @ fs) h = in_clause b c fs h" "last_write (es @ h) a = last_write h a"
  using assms
proof (induction es)
  case (Cons e es)
  {
    case 1
    with Cons show ?case by (cases e) auto
  next
    case 2
    with Cons show ?case by (cases e) auto
  }
qed simp_all

lemma clause_start: "clause_run b c False (hist s) s"
  by (simp add: clause_run_def)

lemma clause_weaken: "clause_run b c g h t \<Longrightarrow> clause_run b c False h t"
  by (auto simp: clause_run_def)

lemma clause_quiet:
  assumes "clause_run b c g h t" and "writes es = []"
  shows "clause_run b c g h (t\<lparr>hist := es @ hist t\<rparr>)"
proof -
  obtain fs where "hist t = fs @ h" "in_clause b c fs h" using assms(1) by (auto simp: clause_run_def)
  then show ?thesis
    using assms unfolding clause_run_def
    by (intro exI [of _ "es @ fs"]) (simp add: in_clause_quiet)
qed

lemma clause_read: "clause_run b c g h t \<Longrightarrow> clause_run b c g h (t\<lparr>hist := Rd a v # hist t\<rparr>)"
  using clause_quiet [of b c g h t "[Rd a v]"] by simp

lemma clause_mode:
  assumes "clause_run b c g h t" and "bit v 8 = c"
  shows "clause_run b c True h (t\<lparr>hist := Wr (b + 0x40) v # hist t\<rparr>)"
  using assms unfolding clause_run_def by (fastforce intro: exI [of _ "Wr (b + 0x40) v # _"])

lemma clause_write:
  assumes "clause_run b c True h t" and "a \<noteq> b + 0x40"
  shows "clause_run b c True h (t\<lparr>hist := Wr a v # hist t\<rparr>)"
  using assms unfolding clause_run_def by (fastforce intro: exI [of _ "Wr a v # _"])

text \<open>One step of an access each.\<close>

lemma clause_wp:
  assumes "clause_run b c g h t"
  shows "wp (ret x) (\<lambda>_. clause_run b c False h) t"
    and "wp (readl P a) (\<lambda>_. clause_run b c False h) t"
    and "(\<And>v t'. clause_run b c g h t' \<Longrightarrow> wp (f v) Q t') \<Longrightarrow> wp (State_Monad.bind (readl P a) f) Q t"
    and "a = b + 0x40 \<Longrightarrow> bit v 8 = c \<Longrightarrow> (\<And>t'. clause_run b c True h t' \<Longrightarrow> wp (k ()) Q t') \<Longrightarrow>
      wp (State_Monad.bind (writel v a) k) Q t"
  using clause_weaken [OF assms] clause_weaken [OF clause_read [OF assms]] clause_read [OF assms]
    clause_mode [OF assms, of v]
  by (simp_all add: wp_readl)

lemma clause_wp_write:
  assumes "clause_run b c True h t" and "a \<noteq> b + 0x40" and "\<And>t'. clause_run b c True h t' \<Longrightarrow> wp (k ()) Q t'"
  shows "wp (State_Monad.bind (writel v a) k) Q t"
  using clause_write [OF assms(1,2)] assms(3) by simp

lemma wp_ifI: "wp m Q t \<Longrightarrow> wp n Q t \<Longrightarrow> wp (if p then m else n) Q t"
  by simp

context poll_macro
begin

lemma wp_linux_wait:
  assumes "clause_run b c g h t" and "\<And>rc t'. clause_run b c g h t' \<Longrightarrow> wp (f rc) Q t'"
  shows "wp (State_Monad.bind (linux_mdio_wait_busy poll d) f) Q t"
  unfolding linux_mdio_wait_busy_def wp_bind
  by (rule wp_poll) (use assms(2) clause_quiet [OF assms(1), of "Rd _ _ # _"] in simp)

lemma mode_bits: "bit (v AND NOT lx_MDIO_MODE_C45) 8 = False" "bit (v OR lx_MDIO_MODE_C45) 8 = True"
  by (simp_all add: bit_simps)

lemma wp_linux_ops:
  fixes d :: ipq4019_mdio_data
  defines "b \<equiv> membase d"
  shows "wp (ipq4019_mdio_read_c22 poll P d mii reg) (\<lambda>_. clause_run b False False (hist s)) s"
    and "wp (ipq4019_mdio_write_c22 poll P d mii reg val) (\<lambda>_. clause_run b False False (hist s)) s"
    and "wp (ipq4019_mdio_read_c45 poll P d mii mmd reg) (\<lambda>_. clause_run b True False (hist s)) s"
    and "wp (ipq4019_mdio_write_c45 poll P d mii mmd reg val) (\<lambda>_. clause_run b True False (hist s)) s"
  unfolding b_def ipq4019_mdio_read_c22_def ipq4019_mdio_write_c22_def ipq4019_mdio_read_c45_def
    ipq4019_mdio_write_c45_def Let_def
  by (rule wp_linux_wait [OF clause_start],
    (rule wp_ifI | erule clause_wp(1) | erule wp_linux_wait | erule clause_wp(3) |
      (erule clause_wp(4), simp, rule mode_bits) | (erule clause_wp_write, simp) | erule clause_wp(2))+)+

end

text \<open>
  C28: the four accesses of the Linux driver never give a command in the wrong
  clause: before each command of an access the mode register has been written with
  clause 45 selected for a clause-45 access and not selected for a clause-22
  access, whatever clause the access before used and wherever it timed out.
\<close>

theorem linux_clause_safe:
  assumes "poll_macro poll P"
  shows "(\<exists>es. hist (exec (ipq4019_mdio_read_c22 poll P d mii reg) w) = es @ hist w \<and> in_clause (membase d) False es (hist w)) \<and>
    (\<exists>es. hist (exec (ipq4019_mdio_write_c22 poll P d mii reg val) w) = es @ hist w \<and> in_clause (membase d) False es (hist w)) \<and>
    (\<exists>es. hist (exec (ipq4019_mdio_read_c45 poll P d mii mmd reg) w) = es @ hist w \<and> in_clause (membase d) True es (hist w)) \<and>
    (\<exists>es. hist (exec (ipq4019_mdio_write_c45 poll P d mii mmd reg val) w) = es @ hist w \<and> in_clause (membase d) True es (hist w))"
  using poll_macro.wp_linux_ops [OF assms, where d = d and s = w] by (simp add: wp_def clause_run_def)

theorem linux_clause_safe_witness:
  "\<exists>es. hist (exec (ipq4019_mdio_read_c45 (sample_poll silent) silent linux_sample 1 7 0x20) boot_io) = es \<and>
    in_clause (membase linux_sample) True es []"
  using linux_clause_safe [OF sample_poll.poll_macro_axioms, where w = boot_io and d = linux_sample and P = silent]
  by (simp add: boot_io_def)

end
