(* ===== verification/Gmac_Dev.thy ===== *)
theory Gmac_Dev
  imports Platform
begin

text \<open>
  reference/depthcharge-ipq806x.c, the driver of depthcharge for the GMAC of an
  older SoC, whose place in the network stack ipq4019.c takes: its environment,
  its state and the access to its descriptors through the cache. The headers it
  includes are not in the repository; what they define is the parameter
  \<open>ipq806x_hdr\<close> of every function.
\<close>

section \<open>The environment\<close>

type_synonym u64 = "64 word"

text \<open>
  \<open>hdr\<close> gives the value of a constant, or the offset of a register in its block, by
  its name; \<open>hdr1\<close> and \<open>hdr2\<close> are the macros with one and two arguments.
  \<open>desc_mem\<close> is what memory holds of a descriptor (of the receive ring or not, by
  its index) when the CPU fetches it, \<open>timer_us\<close> the time in microseconds.
\<close>

record ipq806x_hdr =
  hdr :: "string \<Rightarrow> u32"
  hdr1 :: "string \<Rightarrow> u32 \<Rightarrow> u32"
  hdr2 :: "string \<Rightarrow> u32 \<Rightarrow> u32 \<Rightarrow> u32"
  gm_NO_OF_TX_DESC :: nat
  gm_NO_OF_RX_DESC :: nat
  sizeof_gmac_desc :: nat
  sizeof_NetDevice :: nat
  sizeof_IpqEthDev :: nat
  MAX_WAIT :: nat
  NETDEV_TX_BUSY :: int
  desc_mem :: "event list \<Rightarrow> bool \<Rightarrow> nat \<Rightarrow> gmac_desc"
  timer_us :: "event list \<Rightarrow> u64"
  xzalloc_ptr :: "event list \<Rightarrow> nat \<Rightarrow> u32"
  sha1 :: "u8 list \<Rightarrow> u8 list"
  board_wan_port_number :: u32

definition PCS_QSGMII_MAC_STAT :: u32 where [simp]: "PCS_QSGMII_MAC_STAT = 0x74"
definition MAX_FRAME_SIZE :: nat where [simp]: "MAX_FRAME_SIZE = 1536"

definition DESC_FLUSH_SIZE :: "platform \<Rightarrow> ipq806x_hdr \<Rightarrow> nat" where
  "DESC_FLUSH_SIZE P H =
     (sizeof_gmac_desc H + line_bytes P - 1) div line_bytes P * line_bytes P"

text \<open>Register updates of libpayload.\<close>

definition setbits_le32 :: "platform \<Rightarrow> u32 \<Rightarrow> u32 \<Rightarrow> ('z io_scheme, unit) state" where
  "setbits_le32 P a bits = do { v \<leftarrow> readl P a; writel (v OR bits) a }"

definition clrbits_le32 :: "platform \<Rightarrow> u32 \<Rightarrow> u32 \<Rightarrow> ('z io_scheme, unit) state" where
  "clrbits_le32 P a bits = do { v \<leftarrow> readl P a; writel (v AND NOT bits) a }"

definition clrsetbits_le32 :: "platform \<Rightarrow> u32 \<Rightarrow> u32 \<Rightarrow> u32 \<Rightarrow> ('z io_scheme, unit) state" where
  "clrsetbits_le32 P a clr bits = do { v \<leftarrow> readl P a; writel ((v AND NOT clr) OR bits) a }"

text \<open>Zeroed memory; the event is an allocation without alignment.\<close>

definition xzalloc :: "ipq806x_hdr \<Rightarrow> nat \<Rightarrow> ('z io_scheme, u32) state" where
  "xzalloc H n = do {
     p \<leftarrow> gets (\<lambda>s. xzalloc_ptr H (hist s) n);
     emit (Memalign 0 n p);
     ret p }"

section \<open>State\<close>

text \<open>
  The fields of IpqEthDev that the driver uses. \<open>desc_tx\<close> and \<open>desc_rx\<close> are
  arrays of pointers.
\<close>

record IpqEthDev =
  ge_mac_addr :: "u8 list"
  mac_unit :: u32
  mac_regs_p :: u32
  dma_regs_p :: u32
  interface :: u32
  mdio_addr :: u32
  desc_tx :: "u32 list"
  desc_rx :: "u32 list"
  next_tx :: nat
  next_rx :: nat
  speed :: u32
  duplex :: u32
  mac_ps :: u32
  ge_started :: bool

record ipq_gmac_board_cfg =
  gc_base :: u32
  gc_unit :: u32
  gc_phy :: u32
  gc_mdio_addr :: u32
  mac_conn_to_phy :: bool
  is_macsec :: bool
  switch_reset_gpio :: u32

text \<open>
  \<open>tx_lines\<close> and \<open>rx_lines\<close> are the descriptors' cache lines: the CPU's copy
  of a descriptor, or None while it is not in the cache. Lines leave the cache
  by the driver's own maintenance only. \<open>s17_init_done\<close> and \<open>gm_initted\<close> are the
  variables declared static inside functions.
\<close>

record gmac = io +
  gm :: IpqEthDev
  tx_lines :: "gmac_desc option list"
  rx_lines :: "gmac_desc option list"
  gm_rx_packets :: "u32 list"
  gmac_cfg :: ipq_gmac_board_cfg
  s17_init_done :: bool
  gm_initted :: bool

abbreviation upd_gm :: "(IpqEthDev \<Rightarrow> IpqEthDev) \<Rightarrow> (gmac, unit) state" where
  "upd_gm f \<equiv> modify (\<lambda>s. s\<lparr>gm := f (gm s)\<rparr>)"

definition zero_IpqEthDev :: "ipq806x_hdr \<Rightarrow> IpqEthDev" where
  "zero_IpqEthDev H = \<lparr>ge_mac_addr = replicate 6 0, mac_unit = 0, mac_regs_p = 0, dma_regs_p = 0, interface = 0,
     mdio_addr = 0, desc_tx = replicate (gm_NO_OF_TX_DESC H) 0, desc_rx = replicate (gm_NO_OF_RX_DESC H) 0,
     next_tx = 0, next_rx = 0, speed = 0, duplex = 0, mac_ps = 0, ge_started = False\<rparr>"

definition zero_gmac_desc :: gmac_desc where
  "zero_gmac_desc = \<lparr>gd_status = 0, gd_length = 0, gd_buffer1 = 0, gd_data1 = 0, gd_extstatus = 0,
     gd_reserved1 = 0, gd_timestamplow = 0, gd_timestamphigh = 0\<rparr>"

section \<open>Descriptors through the cache\<close>

definition lines_of :: "bool \<Rightarrow> gmac \<Rightarrow> gmac_desc option list" where
  "lines_of rx s = (if rx then rx_lines s else tx_lines s)"

definition upd_lines :: "bool \<Rightarrow> (gmac_desc option list \<Rightarrow> gmac_desc option list) \<Rightarrow> (gmac, unit) state" where
  "upd_lines rx f = modify (\<lambda>s. if rx then s\<lparr>rx_lines := f (rx_lines s)\<rparr> else s\<lparr>tx_lines := f (tx_lines s)\<rparr>)"

text \<open>A load takes the CPU's copy, fetching it first if need be; a store changes the copy.\<close>

definition load_desc :: "ipq806x_hdr \<Rightarrow> bool \<Rightarrow> nat \<Rightarrow> (gmac, gmac_desc) state" where
  "load_desc H rx i = do {
     ls \<leftarrow> gets (lines_of rx);
     h \<leftarrow> gets hist;
     if i < length ls then
       (case ls ! i of
          Some d \<Rightarrow> ret d
        | None \<Rightarrow> do { upd_lines rx (\<lambda>ls. ls[i := Some (desc_mem H h rx i)]); ret (desc_mem H h rx i) })
     else do { undefined_behaviour; ret zero_gmac_desc } }"

definition store_desc :: "bool \<Rightarrow> nat \<Rightarrow> gmac_desc \<Rightarrow> (gmac, unit) state" where
  "store_desc rx i d = do {
     ls \<leftarrow> gets (lines_of rx);
     if i < length ls then do { upd_lines rx (\<lambda>ls. ls[i := Some d]); emit (StGmac rx i d) }
     else undefined_behaviour }"

definition desc_ptr :: "bool \<Rightarrow> nat \<Rightarrow> (gmac, u32) state" where
  "desc_ptr rx i = do {
     p \<leftarrow> gets gm;
     let ps = (if rx then desc_rx p else desc_tx p);
     if i < length ps then ret (ps ! i) else do { undefined_behaviour; ret 0 } }"

text \<open>Cache maintenance of one descriptor; its lines are its own.\<close>

definition clean_desc :: "platform \<Rightarrow> ipq806x_hdr \<Rightarrow> bool \<Rightarrow> nat \<Rightarrow> (gmac, unit) state" where
  "clean_desc P H rx i = do {
     a \<leftarrow> desc_ptr rx i;
     dcache_clean_invalidate_by_mva a (DESC_FLUSH_SIZE P H);
     upd_lines rx (\<lambda>ls. ls[i := None]) }"

definition inval_desc :: "platform \<Rightarrow> ipq806x_hdr \<Rightarrow> bool \<Rightarrow> nat \<Rightarrow> (gmac, unit) state" where
  "inval_desc P H rx i = do {
     a \<leftarrow> desc_ptr rx i;
     dcache_invalidate_by_mva a (DESC_FLUSH_SIZE P H);
     upd_lines rx (\<lambda>ls. ls[i := None]) }"

definition ipq_gmac_give_to_dma :: "ipq806x_hdr \<Rightarrow> gmac_desc \<Rightarrow> gmac_desc" where
  "ipq_gmac_give_to_dma H fr = fr\<lparr>gd_status := gd_status fr OR hdr H ''DescOwnByDma''\<rparr>"

definition ipq_gmac_owned_by_dma :: "ipq806x_hdr \<Rightarrow> gmac_desc \<Rightarrow> u32" where
  "ipq_gmac_owned_by_dma H fr = gd_status fr AND hdr H ''DescOwnByDma''"

definition ipq_gmac_is_desc_empty :: "ipq806x_hdr \<Rightarrow> gmac_desc \<Rightarrow> bool" where
  "ipq_gmac_is_desc_empty H fr \<longleftrightarrow> gd_length fr AND hdr H ''DescSize1Mask'' = 0"

section \<open>Access to descriptors\<close>

lemma wp_desc_ptr:
  assumes "i < length (if rx then desc_rx (gm s) else desc_tx (gm s))"
    and "Q ((if rx then desc_rx (gm s) else desc_tx (gm s)) ! i) s"
  shows "wp (desc_ptr rx i) Q s"
  using assms by (simp add: desc_ptr_def Let_def)

lemma wp_load_rx_miss:
  assumes "i < length (rx_lines s)" and "rx_lines s ! i = None"
    and "Q (desc_mem H (hist s) True i) (s\<lparr>rx_lines := (rx_lines s)[i := Some (desc_mem H (hist s) True i)]\<rparr>)"
  shows "wp (load_desc H True i) Q s"
  using assms by (simp add: load_desc_def lines_of_def upd_lines_def)

lemma wp_store_rx:
  assumes "i < length (rx_lines s)"
    and "Q () (s\<lparr>rx_lines := (rx_lines s)[i := Some d], hist := StGmac True i d # hist s\<rparr>)"
  shows "wp (store_desc True i d) Q s"
  using assms by (simp add: store_desc_def lines_of_def upd_lines_def)

lemma wp_clean_rx:
  assumes "i < length (desc_rx (gm s))"
    and "Q () (s\<lparr>hist := Clean (desc_rx (gm s) ! i) (DESC_FLUSH_SIZE P H) # hist s, rx_lines := (rx_lines s)[i := None]\<rparr>)"
  shows "wp (clean_desc P H True i) Q s"
  using assms by (simp add: clean_desc_def wp_desc_ptr upd_lines_def desc_ptr_def)

lemma wp_load_tx_miss:
  assumes "i < length (tx_lines s)" and "tx_lines s ! i = None"
    and "Q (desc_mem H (hist s) False i) (s\<lparr>tx_lines := (tx_lines s)[i := Some (desc_mem H (hist s) False i)]\<rparr>)"
  shows "wp (load_desc H False i) Q s"
  using assms by (simp add: load_desc_def lines_of_def upd_lines_def)

lemma wp_load_tx_hit:
  assumes "i < length (tx_lines s)" and "tx_lines s ! i = Some d" and "Q d s"
  shows "wp (load_desc H False i) Q s"
  using assms by (simp add: load_desc_def lines_of_def upd_lines_def)

lemma wp_store_tx:
  assumes "i < length (tx_lines s)"
    and "Q () (s\<lparr>tx_lines := (tx_lines s)[i := Some d], hist := StGmac False i d # hist s\<rparr>)"
  shows "wp (store_desc False i d) Q s"
  using assms by (simp add: store_desc_def lines_of_def upd_lines_def)

lemma wp_clean_tx:
  assumes "i < length (desc_tx (gm s))"
    and "Q () (s\<lparr>hist := Clean (desc_tx (gm s) ! i) (DESC_FLUSH_SIZE P H) # hist s, tx_lines := (tx_lines s)[i := None]\<rparr>)"
  shows "wp (clean_desc P H False i) Q s"
  using assms by (simp add: clean_desc_def wp_desc_ptr upd_lines_def desc_ptr_def)

lemma wp_inval_tx:
  assumes "i < length (desc_tx (gm s))"
    and "Q () (s\<lparr>hist := Inval (desc_tx (gm s) ! i) (DESC_FLUSH_SIZE P H) # hist s, tx_lines := (tx_lines s)[i := None]\<rparr>)"
  shows "wp (inval_desc P H False i) Q s"
  using assms by (simp add: inval_desc_def wp_desc_ptr upd_lines_def desc_ptr_def)

text \<open>The driver's last store to a descriptor, if any.\<close>

fun last_gmac :: "event list \<Rightarrow> bool \<Rightarrow> nat \<Rightarrow> gmac_desc option" where
  "last_gmac [] rx i = None"
| "last_gmac (StGmac r k d # es) rx i = (if r = rx \<and> k = i then Some d else last_gmac es rx i)"
| "last_gmac (_ # es) rx i = last_gmac es rx i"

section \<open>MDIO\<close>

text \<open>
  The result is the return value and what is stored at \<open>*data\<close>, which is passed
  in; the busy loops count \<open>cycles\<close> down from the timeout in milliseconds.
\<close>

definition mdio_cycles :: "ipq806x_hdr \<Rightarrow> nat" where
  "mdio_cycles H = unat (hdr H ''MII_MDIO_TIMEOUT'' * 1000 div 1000)"

definition ipq_mdio_read :: "platform \<Rightarrow> ipq806x_hdr \<Rightarrow> u32 \<Rightarrow> u32 \<Rightarrow> u16 \<Rightarrow> (gmac, u32 \<times> u16) state" where
  "ipq_mdio_read P H phy_addr reg_offset data = do {
     let reg_base = hdr H ''NSS_GMAC0_BASE'';
     let miiaddr = (push_bit (unat (hdr H ''MIIADDRSHIFT'')) phy_addr AND hdr H ''MII_ADDRMSK'') OR
       (push_bit (unat (hdr H ''MIIREGSHIFT'')) reg_offset AND hdr H ''MII_REGMSK'');
     let miiaddr = miiaddr OR (hdr H ''MII_BUSY'' OR hdr H ''MII_CLKRANGE_250_300M'');
     writel miiaddr (reg_base + hdr H ''MII_ADDR_REG_ADDR'');
     udelay 10;
     (i, v) \<leftarrow> poll_loop (\<lambda>_. readl P (reg_base + hdr H ''MII_ADDR_REG_ADDR'')) (\<lambda>v. v AND hdr H ''MII_BUSY'' = 0)
       (udelay 1000) (mdio_cycles H) 0 0;
     if i < mdio_cycles H then do {
       v \<leftarrow> readl P (reg_base + hdr H ''MII_DATA_REG_ADDR'');
       ret (0, ucast v) }
     else do { printf ''%s:%d timeout!'' [Str ''ipq_mdio_read'', Num 730]; ret (- 1, data) } }"

definition ipq_mdio_write :: "platform \<Rightarrow> ipq806x_hdr \<Rightarrow> u32 \<Rightarrow> u32 \<Rightarrow> u16 \<Rightarrow> (gmac, u32) state" where
  "ipq_mdio_write P H phy_addr reg_offset data = do {
     let reg_base = hdr H ''NSS_GMAC0_BASE'';
     writel (ucast data) (reg_base + hdr H ''MII_DATA_REG_ADDR'');
     let miiaddr = (push_bit (unat (hdr H ''MIIADDRSHIFT'')) phy_addr AND hdr H ''MII_ADDRMSK'') OR
       (push_bit (unat (hdr H ''MIIREGSHIFT'')) reg_offset AND hdr H ''MII_REGMSK'') OR hdr H ''MII_WRITE'';
     let miiaddr = miiaddr OR (hdr H ''MII_BUSY'' OR hdr H ''MII_CLKRANGE_250_300M'');
     writel miiaddr (reg_base + hdr H ''MII_ADDR_REG_ADDR'');
     udelay 10;
     (i, v) \<leftarrow> poll_loop (\<lambda>_. readl P (reg_base + hdr H ''MII_ADDR_REG_ADDR'')) (\<lambda>v. v AND hdr H ''MII_BUSY'' = 0)
       (udelay 1000) (mdio_cycles H) 0 0;
     ret (if i < mdio_cycles H then 0 else - 1) }"

end
