(* ===== verification/Gmac_Io.thy ===== *)
theory Gmac_Io
  imports Gmac_Dev
begin

text \<open>
  The rings, the start of the device, transmit and receive of
  reference/depthcharge-ipq806x.c. Two of its loops have no bound, the wait for
  the MAC's reset and the loop of the receive operation: what may not return has
  a result of type option, None for a run that does not end.
\<close>

section \<open>Rings\<close>

definition ipq_gmac_alloc_fifo :: "platform \<Rightarrow> ipq806x_hdr \<Rightarrow> nat \<Rightarrow> bool \<Rightarrow> (gmac, int) state" where
  "ipq_gmac_alloc_fifo P H ndesc rx = do {
     p \<leftarrow> xmemalign P (line_bytes P) (ndesc * DESC_FLUSH_SIZE P H);
     if p = 0 then do { printf ''Cant allocate desc  fifos'' []; ret (- 1) }
     else do {
       let fifo = map (\<lambda>i. p + of_nat (i * DESC_FLUSH_SIZE P H)) [0..<ndesc];
       upd_gm (if rx then desc_rx_update (\<lambda>_. fifo) else desc_tx_update (\<lambda>_. fifo));
       upd_lines rx (\<lambda>_. replicate ndesc None);
       ret 0 } }"

definition ipq_gmac_rx_desc_of :: "ipq806x_hdr \<Rightarrow> nat \<Rightarrow> u32 \<Rightarrow> u32 \<Rightarrow> gmac_desc" where
  "ipq_gmac_rx_desc_of H i buf chain = zero_gmac_desc\<lparr>
     gd_length := (push_bit (unat (hdr H ''DescSize1Shift'')) (hdr H ''ETH_MAX_FRAME_LEN'') AND hdr H ''DescSize1Mask'') OR
       (if i = gm_NO_OF_RX_DESC H - 1 then hdr H ''RxDescEndOfRing'' else 0) OR hdr H ''RxDescChain'',
     gd_buffer1 := buf, gd_data1 := chain, gd_status := hdr H ''DescOwnByDma''\<rparr>"

text \<open>The loop of the receive setup over the rest of the ring; a NULL ends it.\<close>

primrec rx_desc_setup_from :: "platform \<Rightarrow> ipq806x_hdr \<Rightarrow> nat list \<Rightarrow> (gmac, bool) state" where
  "rx_desc_setup_from P H [] = ret True"
| "rx_desc_setup_from P H (i # is) = do {
     p \<leftarrow> xmemalign P (line_bytes P) MAX_FRAME_SIZE;
     if p = 0 then ret False
     else do {
       modify (\<lambda>s. s\<lparr>gm_rx_packets := (gm_rx_packets s)[i := p]\<rparr>);
       d \<leftarrow> load_desc H True i;
       chain \<leftarrow> desc_ptr True ((i + 1) mod gm_NO_OF_RX_DESC H);
       store_desc True i (d\<lparr>
         gd_length := gd_length d OR
           (push_bit (unat (hdr H ''DescSize1Shift'')) (hdr H ''ETH_MAX_FRAME_LEN'') AND hdr H ''DescSize1Mask''),
         gd_buffer1 := p, gd_data1 := chain, gd_extstatus := 0, gd_reserved1 := 0, gd_timestamplow := 0,
         gd_timestamphigh := 0, gd_status := hdr H ''DescOwnByDma''\<rparr>);
       clean_desc P H True i;
       rx_desc_setup_from P H is } }"

definition ipq_gmac_rx_desc_setup :: "platform \<Rightarrow> ipq806x_hdr \<Rightarrow> (gmac, int) state" where
  "ipq_gmac_rx_desc_setup P H = do {
     p \<leftarrow> gets gm;
     ok \<leftarrow> rx_desc_setup_from P H [0..<gm_NO_OF_RX_DESC H];
     if \<not> ok then ret (- 1)
     else do {
       first \<leftarrow> desc_ptr True 0;
       writel first (dma_regs_p p + hdr H ''rxdesclistaddr'');
       ret 0 } }"

definition ipq_gmac_tx_rx_desc_ring :: "platform \<Rightarrow> ipq806x_hdr \<Rightarrow> (gmac, int) state" where
  "ipq_gmac_tx_rx_desc_ring P H = do {
     rc \<leftarrow> ipq_gmac_alloc_fifo P H (gm_NO_OF_TX_DESC H) False;
     if rc \<noteq> 0 then ret (- 1)
     else do {
       for_each [0..<gm_NO_OF_TX_DESC H] (\<lambda>i. do {
         chain \<leftarrow> desc_ptr False ((i + 1) mod gm_NO_OF_TX_DESC H);
         store_desc False i (zero_gmac_desc\<lparr>
           gd_status := (if i = gm_NO_OF_TX_DESC H - 1 then hdr H ''TxDescEndOfRing'' else 0) OR hdr H ''TxDescChain'',
           gd_data1 := chain\<rparr>);
         clean_desc P H False i });
       rc \<leftarrow> ipq_gmac_alloc_fifo P H (gm_NO_OF_RX_DESC H) True;
       if rc \<noteq> 0 then ret (- 1)
       else do {
         for_each [0..<gm_NO_OF_RX_DESC H] (\<lambda>i. do {
           chain \<leftarrow> desc_ptr True ((i + 1) mod gm_NO_OF_RX_DESC H);
           store_desc True i (zero_gmac_desc\<lparr>
             gd_length := (if i = gm_NO_OF_RX_DESC H - 1 then hdr H ''RxDescEndOfRing'' else 0) OR hdr H ''RxDescChain'',
             gd_data1 := chain\<rparr>);
           clean_desc P H True i });
         upd_gm (next_tx_update (\<lambda>_. 0));
         upd_gm (next_rx_update (\<lambda>_. 0));
         ret 0 } } }"

section \<open>The MAC\<close>

definition config_auto_neg :: "platform \<Rightarrow> ipq806x_hdr \<Rightarrow> (gmac, unit) state" where
  "config_auto_neg P H = do {
     p \<leftarrow> gets gm;
     _ \<leftarrow> ipq_mdio_write P H (mdio_addr p) (hdr H ''PHY_CONTROL_REG'') (ucast (hdr H ''AUTO_NEG_ENABLE''));
     ret () }"

definition ipq_eth_wr_macaddr :: "ipq806x_hdr \<Rightarrow> (gmac, int) state" where
  "ipq_eth_wr_macaddr H = do {
     p \<leftarrow> gets gm;
     let m = (\<lambda>i. ucast (ge_mac_addr p ! i) :: u32);
     let macid_lo = m 0 + push_bit 8 (m 1) + push_bit 16 (m 2) + push_bit 24 (m 3);
     let macid_hi = m 4 + push_bit 8 (m 5);
     writel macid_hi (mac_regs_p p + hdr H ''macaddr0hi'');
     writel macid_lo (mac_regs_p p + hdr H ''macaddr0lo'');
     ret 0 }"

text \<open>The loop of the reset: 10 us, a read, until the bit is clear.\<close>

definition mac_reset_turn :: "platform \<Rightarrow> ipq806x_hdr \<Rightarrow> u32 \<Rightarrow> (gmac, u32) state" where
  "mac_reset_turn P H a = do { udelay 10; readl P a }"

partial_function (option) mac_reset_wait :: "platform \<Rightarrow> ipq806x_hdr \<Rightarrow> u32 \<Rightarrow> gmac \<Rightarrow> gmac option" where
  "mac_reset_wait P H a s =
    (if result (mac_reset_turn P H a) s AND hdr H ''DMAMAC_SRST'' = 0 then Some (exec (mac_reset_turn P H a) s)
     else mac_reset_wait P H a (exec (mac_reset_turn P H a) s))"

definition ipq_mac_reset :: "platform \<Rightarrow> ipq806x_hdr \<Rightarrow> gmac \<Rightarrow> gmac option" where
  "ipq_mac_reset P H s =
    (let a = dma_regs_p (gm s) + hdr H ''busmode''
     in mac_reset_wait P H a (exec (writel (hdr H ''DMAMAC_SRST'') a) s))"

definition ipq_eth_mac_cfg :: "ipq806x_hdr \<Rightarrow> (gmac, unit) state" where
  "ipq_eth_mac_cfg H = do {
     p \<leftarrow> gets gm;
     let cfg = (if hdr H ''GMAC_UNIT1'' < mac_unit p then mac_ps p OR hdr H ''FULL_DUPLEX_ENABLE''
       else hdr H ''GMII_PORT_SELECT'' OR hdr H ''FULL_DUPLEX_ENABLE'');
     let cfg = cfg OR (hdr H ''FRAME_BURST_ENABLE'' OR hdr H ''TX_ENABLE'' OR hdr H ''RX_ENABLE'');
     writel cfg (mac_regs_p p + hdr H ''conf'') }"

definition ipq_eth_dma_cfg :: "ipq806x_hdr \<Rightarrow> (gmac, unit) state" where
  "ipq_eth_dma_cfg H = do {
     p \<leftarrow> gets gm;
     let op_mode = hdr H ''DmaStoreAndForward'' OR hdr H ''DmaRxThreshCtrl128'' OR hdr H ''DmaTxSecondFrame'';
     let bus_mode = hdr H ''DmaFixedBurstEnable'' OR hdr H ''DmaBurstLength16'' OR hdr H ''DmaDescriptorSkip0'' OR
       hdr H ''DmaDescriptor8Words'' OR hdr H ''DmaArbitPr'';
     writel bus_mode (dma_regs_p p + hdr H ''busmode'');
     writel op_mode (dma_regs_p p + hdr H ''opmode'') }"

definition ipq_eth_flw_cntl_cfg :: "platform \<Rightarrow> ipq806x_hdr \<Rightarrow> (gmac, unit) state" where
  "ipq_eth_flw_cntl_cfg P H = do {
     p \<leftarrow> gets gm;
     let dma_flw = hdr H ''DmaRxFlowCtrlAct3K'' OR hdr H ''DmaRxFlowCtrlDeact4K'' OR hdr H ''DmaEnHwFlowCtrl'';
     let mac_flw = hdr H ''GmacRxFlowControl'' OR hdr H ''GmacTxFlowControl'' OR 0xffff0000;
     setbits_le32 P (dma_regs_p p + hdr H ''opmode'') dma_flw;
     setbits_le32 P (mac_regs_p p + hdr H ''flowcontrol'') mac_flw }"

text \<open>\<open>ipq_eth_start\<close> behind the reset.\<close>

definition eth_start_tail :: "platform \<Rightarrow> ipq806x_hdr \<Rightarrow> (gmac, int) state" where
  "eth_start_tail P H = do {
     p \<leftarrow> gets gm;
     when_do (mac_unit p = hdr H ''GMAC_UNIT2'' \<or> mac_unit p = hdr H ''GMAC_UNIT3'') (config_auto_neg P H);
     _ \<leftarrow> ipq_eth_wr_macaddr H;
     ipq_eth_dma_cfg H;
     ipq_eth_mac_cfg H;
     ipq_eth_flw_cntl_cfg P H;
     data \<leftarrow> readl P (dma_regs_p p + hdr H ''status'');
     writel data (dma_regs_p p + hdr H ''status'');
     rc \<leftarrow> ipq_gmac_rx_desc_setup P H;
     if rc \<noteq> 0 then ret (- 1)
     else do {
       first \<leftarrow> desc_ptr False 0;
       writel first (dma_regs_p p + hdr H ''txdesclistaddr'');
       setbits_le32 P (dma_regs_p p + hdr H ''opmode'') (hdr H ''RXSTART'');
       setbits_le32 P (dma_regs_p p + hdr H ''opmode'') (hdr H ''TXSTART'');
       upd_gm (ge_started_update (\<lambda>_. True));
       ret 0 } }"

definition ipq_eth_start :: "platform \<Rightarrow> ipq806x_hdr \<Rightarrow> gmac \<Rightarrow> (int \<times> gmac) option" where
  "ipq_eth_start P H s =
     Option.bind (ipq_mac_reset P H (exec (do { upd_gm (next_rx_update (\<lambda>_. 0)); upd_gm (next_tx_update (\<lambda>_. 0)) }) s))
       (\<lambda>s. Some (run_state (eth_start_tail P H) s))"

text \<open>The result is the return value and what is stored at \<open>*ready\<close>, if anything.\<close>

definition check_link_tail :: "platform \<Rightarrow> ipq806x_hdr \<Rightarrow> (gmac, int \<times> bool option) state" where
  "check_link_tail P H = do {
     p \<leftarrow> gets gm;
     (rc, phy_status) \<leftarrow> ipq_mdio_read P H (mdio_addr p) (hdr H ''PHY_SPECIFIC_STATUS_REG'') 0;
     if rc \<noteq> 0 then ret (1, None)
     else ret (0, Some (ucast phy_status AND hdr H ''Mii_phy_status_link_up'' \<noteq> 0)) }"

definition ipq_phy_check_link :: "platform \<Rightarrow> ipq806x_hdr \<Rightarrow> gmac \<Rightarrow> ((int \<times> bool option) \<times> gmac) option" where
  "ipq_phy_check_link P H s =
     Option.bind (if ge_started (gm s) then Some s
         else Option.bind (ipq_eth_start P H s) (\<lambda>(rc, s). Some (exec (udelay 1000) s)))
       (\<lambda>s. Some (run_state (check_link_tail P H) s))"

section \<open>Transmit\<close>

text \<open>The wait for the hardware: the number of polls that failed and the last value.\<close>

definition gmac_tx_wait :: "platform \<Rightarrow> ipq806x_hdr \<Rightarrow> nat \<Rightarrow> (gmac, nat \<times> u32) state" where
  "gmac_tx_wait P H k =
     poll_loop (\<lambda>_. do { udelay 10; inval_desc P H False k; d \<leftarrow> load_desc H False k; ret (ipq_gmac_owned_by_dma H d) })
       (\<lambda>own. own = 0) (ret ()) (MAX_WAIT H) 0 0"

definition ipq_eth_send :: "platform \<Rightarrow> ipq806x_hdr \<Rightarrow> u32 \<Rightarrow> u16 \<Rightarrow> (gmac, int) state" where
  "ipq_eth_send P H packet len = do {
     p \<leftarrow> gets gm;
     let k = next_tx p;
     inval_desc P H False k;
     d \<leftarrow> load_desc H False k;
     if ipq_gmac_owned_by_dma H d \<noteq> 0 then do {
       a \<leftarrow> desc_ptr False k;
       printf ''BUG: Tx descriptor is owned by DMA %p'' [Num a];
       ret (NETDEV_TX_BUSY H) }
     else do {
       let d = d\<lparr>gd_length := gd_length d OR
         (push_bit (unat (hdr H ''DescSize1Shift'')) (ucast len) AND hdr H ''DescSize1Mask'')\<rparr>;
       let d = d\<lparr>gd_status := gd_status d OR
         (hdr H ''DescTxFirst'' OR hdr H ''DescTxLast'' OR hdr H ''DescTxIntEnable''), gd_buffer1 := phys P packet\<rparr>;
       store_desc False k (ipq_gmac_give_to_dma H d);
       clean_desc P H False k;
       d \<leftarrow> load_desc H False k;
       dcache_clean_invalidate_by_mva (gd_buffer1 d) (unat len);
       writel (hdr H ''POLL_DATA'') (dma_regs_p p + hdr H ''txpolldemand'');
       (i, own) \<leftarrow> gmac_tx_wait P H k;
       when_do (i = MAX_WAIT H) (printf ''Tx Timed out'' []);
       d \<leftarrow> load_desc H False k;
       let next = (k + 1) mod gm_NO_OF_TX_DESC H;
       upd_gm (next_tx_update (\<lambda>_. next));
       chain \<leftarrow> desc_ptr False next;
       store_desc False k (d\<lparr>
         gd_status := (if k = gm_NO_OF_RX_DESC H - 1 then hdr H ''TxDescEndOfRing'' else 0) OR hdr H ''TxDescChain'',
         gd_length := 0, gd_buffer1 := 0, gd_data1 := chain\<rparr>);
       clean_desc P H False k;
       ret 0 } }"

section \<open>Receive\<close>

definition gm_load_rx_packet :: "nat \<Rightarrow> (gmac, u32) state" where
  "gm_load_rx_packet k = do {
     ps \<leftarrow> gets gm_rx_packets;
     if k < length ps then ret (ps ! k) else do { undefined_behaviour; ret 0 } }"

text \<open>
  \<open>memcpy\<close> from a receive buffer: the bytes it copies, which must be in the
  buffer.
\<close>

definition copy_from_packet :: "platform \<Rightarrow> u32 \<Rightarrow> nat \<Rightarrow> (gmac, u8 list) state" where
  "copy_from_packet P src n = do {
     when_do (MAX_FRAME_SIZE < n) undefined_behaviour;
     h \<leftarrow> gets hist;
     ret (map (\<lambda>i. mem_load P h (src + of_nat i)) [0..<n]) }"

definition frame_length :: "ipq806x_hdr \<Rightarrow> u32 \<Rightarrow> u16" where
  "frame_length H status =
     ucast (drop_bit (unat (hdr H ''DescFrameLengthShift'')) (status AND hdr H ''DescFrameLengthMask''))"

text \<open>
  One turn of the receive loop, with \<open>*len\<close> and the bytes stored so far: whether
  the loop goes on, and both afterwards.
\<close>

definition recv_turn ::
  "platform \<Rightarrow> ipq806x_hdr \<Rightarrow> int \<Rightarrow> u16 \<Rightarrow> u8 list \<Rightarrow> (gmac, bool \<times> u16 \<times> u8 list) state" where
  "recv_turn P H maxlen len data = do {
     p \<leftarrow> gets gm;
     let k = next_rx p;
     d \<leftarrow> load_desc H True k;
     let n = frame_length H (gd_status d);
     if ipq_gmac_owned_by_dma H d \<noteq> 0 \<or> maxlen < int (unat len) + int (unat n) then ret (False, len, data)
     else do {
       buf \<leftarrow> gm_load_rx_packet k;
       dcache_invalidate_by_mva buf (unat n);
       (len, data) \<leftarrow> (if int (unat len) + int (unat n) \<le> maxlen \<and> n \<noteq> 0 then do {
           bytes \<leftarrow> copy_from_packet P buf (unat n);
           ret (len + n, data @ bytes) }
         else do {
           (if n = 0 then printf ''received zero length frame.'' []
            else printf ''%s:%d received frame too long (%d)'' [Str ''ipq_eth_recv'', Num 463, Num (ucast n)]);
           ret (len, data) });
       let next = (k + 1) mod gm_NO_OF_RX_DESC H;
       upd_gm (next_rx_update (\<lambda>_. next));
       chain \<leftarrow> desc_ptr True next;
       store_desc True k (ipq_gmac_rx_desc_of H k buf chain);
       clean_desc P H True k;
       writel (hdr H ''POLL_DATA'') (dma_regs_p p + hdr H ''rxpolldemand'');
       ret (True, len, data) } }"

partial_function (option) recv_loop ::
  "platform \<Rightarrow> ipq806x_hdr \<Rightarrow> int \<Rightarrow> u16 \<Rightarrow> u8 list \<Rightarrow> gmac \<Rightarrow> ((u16 \<times> u8 list) \<times> gmac) option" where
  "recv_loop P H maxlen len data s =
    (case result (recv_turn P H maxlen len data) s of (go, len', data') \<Rightarrow>
       if go then recv_loop P H maxlen len' data' (exec (recv_turn P H maxlen len data) s)
       else Some ((len', data'), exec (recv_turn P H maxlen len data) s))"

text \<open>The result is the return value, \<open>*len\<close> and the bytes stored at \<open>buf\<close>.\<close>

definition recv_head :: "platform \<Rightarrow> ipq806x_hdr \<Rightarrow> (gmac, unit) state" where
  "recv_head P H = do {
     first \<leftarrow> desc_ptr True 0;
     dcache_invalidate_by_mva first (gm_NO_OF_RX_DESC H * DESC_FLUSH_SIZE P H);
     upd_lines True (map (\<lambda>_. None)) }"

definition ipq_eth_recv :: "platform \<Rightarrow> ipq806x_hdr \<Rightarrow> int \<Rightarrow> gmac \<Rightarrow> ((int \<times> u16 \<times> u8 list) \<times> gmac) option" where
  "ipq_eth_recv P H maxlen s =
     Option.bind (recv_loop P H maxlen 0 [] (exec (recv_head P H) s)) (\<lambda>((len, data), s). Some ((0, len, data), s))"

section \<open>A small device\<close>

text \<open>
  A device with two descriptors, and the register and field values the examples need: offset 8
  for the poll demand register, the owner in bit 31 and the frame length in bits
  16 to 29 of the status word.
\<close>

definition two_ring :: "string \<Rightarrow> u32" where
  "two_ring c = (if c = ''DescOwnByDma'' then 0x80000000 else if c = ''DescFrameLengthMask'' then 0x3FFF0000
     else if c = ''DescFrameLengthShift'' then 16 else if c = ''rxpolldemand'' then 8
     else if c = ''txpolldemand'' then 4 else if c = ''DMAMAC_SRST'' then 1 else 0)"

definition small_hdr :: ipq806x_hdr where
  "small_hdr = \<lparr>hdr = two_ring, hdr1 = \<lambda>_ _. 0, hdr2 = \<lambda>_ _ _. 0, gm_NO_OF_TX_DESC = 2, gm_NO_OF_RX_DESC = 2,
     sizeof_gmac_desc = 32, sizeof_NetDevice = 36, sizeof_IpqEthDev = 160, MAX_WAIT = 3, NETDEV_TX_BUSY = 1,
     desc_mem = \<lambda>_ _ _. zero_gmac_desc, timer_us = \<lambda>_. 0, xzalloc_ptr = \<lambda>_ _. 0x41000000, sha1 = \<lambda>_. replicate 20 0,
     board_wan_port_number = 4\<rparr>"

definition running_gmac :: gmac where
  "running_gmac = \<lparr>hist = [], console = [], ub = False,
     gm = (zero_IpqEthDev small_hdr)\<lparr>desc_tx := [0x42000000, 0x42000040], desc_rx := [0x43000000, 0x43000040], ge_started := True\<rparr>,
     tx_lines = [None, None], rx_lines = [None, None], gm_rx_packets = [0x44000000, 0x44000600],
     gmac_cfg = \<lparr>gc_base = 0, gc_unit = 0, gc_phy = 0, gc_mdio_addr = 0, mac_conn_to_phy = False, is_macsec = False,
       switch_reset_gpio = 26\<rparr>, s17_init_done = True, gm_initted = True\<rparr>"

end
