(* ===== verification/Gmac_Send.thy ===== *)
theory Gmac_Send
  imports Gmac_Io
begin

text \<open>
  The transmit operation of the GMAC driver: what it does to the device, in order,
  on each of its branches.
\<close>

section \<open>The wait for the hardware\<close>

text \<open>The history after j polls of a descriptor at address a.\<close>

definition tx_polled :: "u32 \<Rightarrow> nat \<Rightarrow> event list \<Rightarrow> nat \<Rightarrow> event list" where
  "tx_polled a n h j = concat (replicate j [Inval a n, Udelay 10]) @ h"

lemma tx_polled_simps [simp]:
  "tx_polled a n h 0 = h" "Inval a n # Udelay 10 # tx_polled a n h j = tx_polled a n h (Suc j)"
  by (simp_all add: tx_polled_def)

definition tx_owned :: "ipq806x_hdr \<Rightarrow> nat \<Rightarrow> u32 \<Rightarrow> nat \<Rightarrow> event list \<Rightarrow> nat \<Rightarrow> bool" where
  "tx_owned H k a n h j \<longleftrightarrow> ipq_gmac_owned_by_dma H (desc_mem H (tx_polled a n h j) False k) \<noteq> 0"

definition tx_timed_out :: "ipq806x_hdr \<Rightarrow> nat \<Rightarrow> u32 \<Rightarrow> nat \<Rightarrow> event list \<Rightarrow> bool" where
  "tx_timed_out H k a n h \<longleftrightarrow> (\<forall>l. 0 < l \<and> l \<le> MAX_WAIT H \<longrightarrow> tx_owned H k a n h l)"

text \<open>
  The wait reads the descriptor anew at every poll and stops at the first that
  finds it given back.
\<close>

lemma gmac_tx_wait_run:
  assumes k: "k < length (desc_tx (gm s))" "k < length (tx_lines s)"
    and line: "tx_lines s ! k \<noteq> None"
    and Q: "\<And>i own j d. j \<le> n \<Longrightarrow> (\<forall>l. 0 < l \<and> l < j \<longrightarrow> tx_owned H k a m (hist s) l) \<Longrightarrow>
      (i = n \<longleftrightarrow> tx_timed_out H k a m (hist s)) \<Longrightarrow>
      (i \<noteq> n \<longrightarrow> 0 < j \<and> \<not> tx_owned H k a m (hist s) j) \<Longrightarrow> (i = n \<longrightarrow> j = n) \<Longrightarrow>
      Q (i, own) (s\<lparr>hist := tx_polled a m (hist s) j, tx_lines := (tx_lines s)[k := Some d]\<rparr>)"
    and a: "a = desc_tx (gm s) ! k" "m = DESC_FLUSH_SIZE P H" and n: "n = MAX_WAIT H"
  shows "wp (gmac_tx_wait P H k) Q s"
  unfolding gmac_tx_wait_def n [symmetric]
proof (rule wp_poll_loop [where I = "\<lambda>j _ t. (\<forall>l. 0 < l \<and> l \<le> j \<longrightarrow> tx_owned H k a m (hist s) l) \<and>
    (\<exists>d. t = s\<lparr>hist := tx_polled a m (hist s) j, tx_lines := (tx_lines s)[k := Some d]\<rparr>)"])
  obtain d where "tx_lines s ! k = Some d" using line by blast
  then have "(tx_lines s)[k := Some d] = tx_lines s" by (metis list_update_id)
  then show "(\<forall>l. 0 < l \<and> l \<le> 0 \<longrightarrow> tx_owned H k a m (hist s) l) \<and>
      (\<exists>d. s = s\<lparr>hist := tx_polled a m (hist s) 0, tx_lines := (tx_lines s)[k := Some d]\<rparr>)"
    by (intro conjI exI [of _ d]) auto
next
  fix j u t assume "j < 0 + n" and I: "(\<forall>l. 0 < l \<and> l \<le> j \<longrightarrow> tx_owned H k a m (hist s) l) \<and>
    (\<exists>d. t = s\<lparr>hist := tx_polled a m (hist s) j, tx_lines := (tx_lines s)[k := Some d]\<rparr>)"
  let ?d = "desc_mem H (tx_polled a m (hist s) (Suc j)) False k"
  let ?t = "s\<lparr>hist := tx_polled a m (hist s) (Suc j), tx_lines := (tx_lines s)[k := Some ?d]\<rparr>"
  from I obtain d where t: "t = s\<lparr>hist := tx_polled a m (hist s) j, tx_lines := (tx_lines s)[k := Some d]\<rparr>" by blast
  have go: "if ipq_gmac_owned_by_dma H ?d = 0 then Q (j, ipq_gmac_owned_by_dma H ?d) ?t
    else wp (ret ()) (\<lambda>_ t. (\<forall>l. 0 < l \<and> l \<le> Suc j \<longrightarrow> tx_owned H k a m (hist s) l) \<and>
      (\<exists>d. t = s\<lparr>hist := tx_polled a m (hist s) (Suc j), tx_lines := (tx_lines s)[k := Some d]\<rparr>)) ?t"
  proof (cases "tx_owned H k a m (hist s) (Suc j)")
    case False
    then have "\<not> tx_timed_out H k a m (hist s)"
      using \<open>j < 0 + n\<close> by (auto simp: tx_timed_out_def n [symmetric] intro!: exI [of _ "Suc j"])
    with False show ?thesis using I \<open>j < 0 + n\<close> by (auto simp: tx_owned_def intro!: Q)
  qed (use I in \<open>auto simp: tx_owned_def le_Suc_eq\<close>)
  show "wp (do { udelay 10; inval_desc P H False k; d \<leftarrow> load_desc H False k; ret (ipq_gmac_owned_by_dma H d) })
      (\<lambda>u' t'. if u' = 0 then Q (j, u') t' else wp (ret ()) (\<lambda>_ t. (\<forall>l. 0 < l \<and> l \<le> Suc j \<longrightarrow> tx_owned H k a m (hist s) l) \<and>
        (\<exists>d. t = s\<lparr>hist := tx_polled a m (hist s) (Suc j), tx_lines := (tx_lines s)[k := Some d]\<rparr>)) t') t"
    unfolding wp_bind t wp_prims
    apply (intro wp_inval_tx wp_load_tx_miss)
    using k go apply (simp_all add: a [symmetric] del: if_split)
    done
next
  fix u t assume I: "(\<forall>l. 0 < l \<and> l \<le> 0 + n \<longrightarrow> tx_owned H k a m (hist s) l) \<and>
    (\<exists>d. t = s\<lparr>hist := tx_polled a m (hist s) (0 + n), tx_lines := (tx_lines s)[k := Some d]\<rparr>)"
  then show "Q (0 + n, u) t" using Q [of n n] by (fastforce simp: tx_timed_out_def n [symmetric])
qed

section \<open>The operation\<close>

text \<open>The descriptor the hardware is given for a packet, from what it held before.\<close>

definition tx_desc_of :: "platform \<Rightarrow> ipq806x_hdr \<Rightarrow> u32 \<Rightarrow> u16 \<Rightarrow> gmac_desc \<Rightarrow> gmac_desc" where
  "tx_desc_of P H packet len d = d\<lparr>
     gd_length := gd_length d OR (push_bit (unat (hdr H ''DescSize1Shift'')) (ucast len) AND hdr H ''DescSize1Mask''),
     gd_status := gd_status d OR (hdr H ''DescTxFirst'' OR hdr H ''DescTxLast'' OR hdr H ''DescTxIntEnable'') OR
       hdr H ''DescOwnByDma'',
     gd_buffer1 := phys P packet\<rparr>"

text \<open>
  Memory, in between the store of a descriptor with its write-back and the
  doorbell, holds the address that was stored.
\<close>

definition desc_written_back :: "platform \<Rightarrow> ipq806x_hdr \<Rightarrow> bool" where
  "desc_written_back P H \<longleftrightarrow> (\<forall>a k d h.
     gd_buffer1 (desc_mem H (Clean a (DESC_FLUSH_SIZE P H) # StGmac False k d # h) False k) = gd_buffer1 d)"

definition gmac_tx_ok :: "ipq806x_hdr \<Rightarrow> gmac \<Rightarrow> bool" where
  "gmac_tx_ok H s \<longleftrightarrow> length (desc_tx (gm s)) = gm_NO_OF_TX_DESC H \<and> length (tx_lines s) = gm_NO_OF_TX_DESC H \<and>
     next_tx (gm s) < gm_NO_OF_TX_DESC H"

lemma wp_send_busy:
  assumes "gmac_tx_ok H s" and "k = next_tx (gm s)"
    and "ipq_gmac_owned_by_dma H (desc_mem H (Inval (desc_tx (gm s) ! k) (DESC_FLUSH_SIZE P H) # hist s) False k) \<noteq> 0"
  shows "wp (ipq_eth_send P H packet len) (\<lambda>rc t. rc = NETDEV_TX_BUSY H \<and> gm t = gm s \<and>
    hist t = Inval (desc_tx (gm s) ! k) (DESC_FLUSH_SIZE P H) # hist s) s"
  unfolding ipq_eth_send_def Let_def wp_bind wp_gets assms(2) [symmetric]
  apply (intro wp_inval_tx wp_load_tx_miss)
  using assms apply (simp_all add: gmac_tx_ok_def desc_ptr_def)
  done

lemma wp_send_free:
  assumes ok: "gmac_tx_ok H s" and mem: "desc_written_back P H" and n: "m = DESC_FLUSH_SIZE P H"
    and k: "k = next_tx (gm s)" "a = desc_tx (gm s) ! k" "h0 = Inval a m # hist s" "d = tx_desc_of P H packet len (desc_mem H h0 False k)"
    and free: "ipq_gmac_owned_by_dma H (desc_mem H h0 False k) = 0"
    and h1: "h1 = Wr (dma_regs_p (gm s) + hdr H ''txpolldemand'') (hdr H ''POLL_DATA'') # Clean (phys P packet) (unat len) #
      Clean a m # StGmac False k d # h0"
  shows "wp (ipq_eth_send P H packet len) (\<lambda>rc t. rc = 0 \<and> ub t = ub s \<and>
    gm t = (gm s)\<lparr>next_tx := (k + 1) mod gm_NO_OF_TX_DESC H\<rparr> \<and>
    console t = (if tx_timed_out H k a m h1 then (''Tx Timed out'', []) # console s else console s) \<and>
    (\<exists>j d'. j \<le> MAX_WAIT H \<and> (\<forall>l. 0 < l \<and> l < j \<longrightarrow> tx_owned H k a m h1 l) \<and>
      (if tx_timed_out H k a m h1 then j = MAX_WAIT H else 0 < j \<and> \<not> tx_owned H k a m h1 j) \<and>
      hist t = Clean a m # StGmac False k d' # tx_polled a m h1 j \<and>
      gd_status d' = (if k = gm_NO_OF_RX_DESC H - 1 then hdr H ''TxDescEndOfRing'' else 0) OR hdr H ''TxDescChain'' \<and>
      gd_length d' = 0 \<and> gd_buffer1 d' = 0 \<and> gd_data1 d' = desc_tx (gm s) ! ((k + 1) mod gm_NO_OF_TX_DESC H))) s"
proof -
  let ?N = "gm_NO_OF_TX_DESC H"
  have kl: "k < length (desc_tx (gm s))" "k < length (tx_lines s)" "Suc k mod ?N < length (desc_tx (gm s))"
    using ok k(1) by (simp_all add: gmac_tx_ok_def)
  have bk: "gd_buffer1 (desc_mem H (Clean a m # StGmac False k d # h0) False k) = phys P packet"
    using mem n k(4) by (simp add: desc_written_back_def tx_desc_of_def)
  have dd: "ipq_gmac_give_to_dma H ((desc_mem H h0 False k)\<lparr>
      gd_length := gd_length (desc_mem H h0 False k) OR
        push_bit (unat (hdr H ''DescSize1Shift'')) (ucast len) AND hdr H ''DescSize1Mask'',
      gd_status := gd_status (desc_mem H h0 False k) OR hdr H ''DescTxFirst'' OR hdr H ''DescTxLast'' OR hdr H ''DescTxIntEnable'',
      gd_buffer1 := phys P packet\<rparr>) = d"
    by (simp add: k(4) tx_desc_of_def ipq_gmac_give_to_dma_def or.assoc)
  show ?thesis
    unfolding ipq_eth_send_def Let_def wp_bind wp_gets k(1) [symmetric]
    apply (intro wp_inval_tx wp_load_tx_miss)
       apply (simp_all add: kl free k(2) [symmetric] n [symmetric] k(3) [symmetric] split del: if_split)
    apply (intro wp_store_tx wp_clean_tx wp_load_tx_miss)
         apply (simp_all add: kl n [symmetric] k(2) [symmetric] dd bk h1 [symmetric] split del: if_split)
    apply (rule gmac_tx_wait_run [where a = a and m = m, OF _ _ _ _ _ _ refl])
         apply (simp_all add: kl n [symmetric] k(2) [symmetric] split del: if_split)
    subgoal for i j d'
      apply (cases "tx_timed_out H k a m h1")
       apply (simp_all split del: if_split)
       apply (intro wp_load_tx_hit wp_desc_ptr wp_store_tx wp_clean_tx)
               apply (simp_all add: kl n [symmetric] k(2) [symmetric] split del: if_split)
      apply (intro wp_load_tx_hit wp_desc_ptr wp_store_tx wp_clean_tx)
              apply (simp_all add: kl n [symmetric] k(2) [symmetric] split del: if_split)
      apply (rule exI [of _ j], simp)
      done
    done
qed

text \<open>
  C37: transmit of the GMAC driver, on every branch. A descriptor the DMA still
  owns is left alone and the call reports busy. Otherwise the descriptor is stored
  and written back, then the packet is written back, then the doorbell is rung;
  the driver polls at most MAX_WAIT times and stops at the first poll that finds
  the descriptor given back, resets it whether or not it was, moves on to the
  next and reports success, also after a timeout. The end-of-ring bit of the
  reset descriptor depends on the size of the receive ring.
\<close>

theorem gmac_send_spec:
  assumes "gmac_tx_ok H s" and "desc_written_back P H" and "m = DESC_FLUSH_SIZE P H"
    and "k = next_tx (gm s)" and "a = desc_tx (gm s) ! k" and "h0 = Inval a m # hist s"
    and "d = tx_desc_of P H packet len (desc_mem H h0 False k)"
    and "h1 = Wr (dma_regs_p (gm s) + hdr H ''txpolldemand'') (hdr H ''POLL_DATA'') # Clean (phys P packet) (unat len) #
      Clean a m # StGmac False k d # h0"
  shows "wp (ipq_eth_send P H packet len) (\<lambda>rc t.
    if ipq_gmac_owned_by_dma H (desc_mem H h0 False k) \<noteq> 0 then
      rc = NETDEV_TX_BUSY H \<and> gm t = gm s \<and> hist t = h0
    else rc = 0 \<and> ub t = ub s \<and> gm t = (gm s)\<lparr>next_tx := (k + 1) mod gm_NO_OF_TX_DESC H\<rparr> \<and>
      console t = (if tx_timed_out H k a m h1 then (''Tx Timed out'', []) # console s else console s) \<and>
      (\<exists>j d'. j \<le> MAX_WAIT H \<and> (\<forall>l. 0 < l \<and> l < j \<longrightarrow> tx_owned H k a m h1 l) \<and>
        (if tx_timed_out H k a m h1 then j = MAX_WAIT H else 0 < j \<and> \<not> tx_owned H k a m h1 j) \<and>
        hist t = Clean a m # StGmac False k d' # tx_polled a m h1 j \<and>
        gd_status d' = (if k = gm_NO_OF_RX_DESC H - 1 then hdr H ''TxDescEndOfRing'' else 0) OR hdr H ''TxDescChain'' \<and>
        gd_length d' = 0 \<and> gd_buffer1 d' = 0 \<and> gd_data1 d' = desc_tx (gm s) ! ((k + 1) mod gm_NO_OF_TX_DESC H))) s"
proof (cases "ipq_gmac_owned_by_dma H (desc_mem H h0 False k) = 0")
  case True
  from wp_send_free [OF assms(1-7) this assms(8)] True show ?thesis by (simp only: wp_def if_True if_False not_True_eq_False simp_thms)
next
  case False
  with wp_send_busy [of H s k P packet len] assms show ?thesis by (simp add: wp_def)
qed

section \<open>A packet sent\<close>

text \<open>Memory holds what was stored; the hardware gives a descriptor back after 20 microseconds.\<close>

definition quick_hdr :: ipq806x_hdr where
  "quick_hdr = small_hdr\<lparr>desc_mem := \<lambda>h rx i. (case last_gmac h rx i of None \<Rightarrow> zero_gmac_desc
     | Some d \<Rightarrow> d\<lparr>gd_status := if delay_us h < 20 then gd_status d else gd_status d AND 0x7FFFFFFF\<rparr>)\<rparr>"

theorem gmac_send_spec_witness:
  "wp (ipq_eth_send silent quick_hdr 0x45000000 60) (\<lambda>rc t. rc = 0 \<and> next_tx (gm t) = 1 \<and> console t = [] \<and>
    writes (hist t) = [(4, 0)]) running_gmac"
proof -
  let ?m = "DESC_FLUSH_SIZE silent quick_hdr"
  let ?h0 = "[Inval 0x42000000 ?m]"
  let ?d = "tx_desc_of silent quick_hdr 0x45000000 60 (desc_mem quick_hdr ?h0 False 0)"
  let ?h1 = "Wr 4 0 # Clean 0x45000000 60 # Clean 0x42000000 ?m # StGmac False 0 ?d # ?h0"
  have run: "next_tx (gm running_gmac) = 0" "desc_tx (gm running_gmac) = [0x42000000, 0x42000040]" "hist running_gmac = []"
    "dma_regs_p (gm running_gmac) = 0" "console running_gmac = []"
    by (simp_all add: running_gmac_def zero_IpqEthDev_def)
  have ok: "gmac_tx_ok quick_hdr running_gmac"
    by (simp add: gmac_tx_ok_def quick_hdr_def small_hdr_def running_gmac_def zero_IpqEthDev_def)
  have written: "desc_written_back silent quick_hdr"
    by (simp add: desc_written_back_def quick_hdr_def)
  have own: "hdr quick_hdr ''DescOwnByDma'' = 0x80000000" "hdr quick_hdr ''txpolldemand'' = 4" "hdr quick_hdr ''POLL_DATA'' = 0"
    "MAX_WAIT quick_hdr = 3" "gm_NO_OF_TX_DESC quick_hdr = 2"
    by (simp_all add: quick_hdr_def small_hdr_def two_ring_def)
  have free: "ipq_gmac_owned_by_dma quick_hdr (desc_mem quick_hdr ?h0 False 0) = 0"
    unfolding ipq_gmac_owned_by_dma_def own by (simp add: quick_hdr_def zero_gmac_desc_def)
  have polled: "tx_polled a n h 2 = [Inval a n, Udelay 10, Inval a n, Udelay 10] @ h" for a n h
    by (simp add: tx_polled_def numeral_2_eq_2)
  have given: "\<not> tx_owned quick_hdr 0 0x42000000 ?m ?h1 2"
    unfolding tx_owned_def ipq_gmac_owned_by_dma_def own polled by (simp add: quick_hdr_def and.assoc)
  then have quick: "\<not> tx_timed_out quick_hdr 0 0x42000000 ?m ?h1"
    by (auto simp: tx_timed_out_def own intro!: exI [of _ 2])
  have quiet: "writes (tx_polled a n h j) = writes h" for a n h j
    by (induction j) (simp_all add: tx_polled_def)
  show ?thesis
    using gmac_send_spec [where packet = "0x45000000" and len = 60, OF ok written refl refl refl refl refl refl] free quick
    by (auto simp: wp_def run own quiet)
qed

end
