(* ===== verification/Gmac_Recv.thy ===== *)
theory Gmac_Recv
  imports Gmac_Io
begin

text \<open>
  The receive operation of the GMAC driver, against hardware that stores frames in
  the ring in order: it returns, and it gives the stack the waiting frames that
  fit, several of them in one buffer.
\<close>

section \<open>The hardware's side\<close>

text \<open>How many descriptors were given back: the writes to the poll demand register.\<close>

definition rx_given :: "ipq806x_hdr \<Rightarrow> u32 \<Rightarrow> event list \<Rightarrow> nat" where
  "rx_given H b h = length (filter (\<lambda>w. fst w = b + hdr H ''rxpolldemand'') (writes h))"

text \<open>
  \<open>gmac_stream P H b bufs F filled\<close>: the k-th frame to arrive is \<open>F k\<close>; after
  history h, \<open>filled h\<close> frames have arrived, each stored in the next descriptor
  of the ring. The descriptor after those given back is the hardware's exactly
  while no frame waits; otherwise it shows the length of the frame, and after an
  invalidation the CPU reads the frame.
\<close>

definition gmac_stream ::
  "platform \<Rightarrow> ipq806x_hdr \<Rightarrow> u32 \<Rightarrow> u32 list \<Rightarrow> (nat \<Rightarrow> u8 list) \<Rightarrow> (event list \<Rightarrow> nat) \<Rightarrow> bool" where
  "gmac_stream P H b bufs F filled \<longleftrightarrow>
     (\<forall>h e. filled h \<le> filled (e # h)) \<and>
     (\<forall>k. F k \<noteq> [] \<and> length (F k) \<le> 1536) \<and>
     (\<forall>h. let c = rx_given H b h; k = c mod gm_NO_OF_RX_DESC H; d = desc_mem H h True k in
        (ipq_gmac_owned_by_dma H d = 0 \<longleftrightarrow> c < filled h) \<and>
        (c < filled h \<longrightarrow> frame_length H (gd_status d) = of_nat (length (F c)) \<and>
          (\<forall>i < length (F c). mem_load P (Inval (bufs ! k) (length (F c)) # h) (bufs ! k + of_nat i) = F c ! i)))"

text \<open>The driver has taken c frames.\<close>

definition gmac_at :: "ipq806x_hdr \<Rightarrow> u32 \<Rightarrow> u32 list \<Rightarrow> nat \<Rightarrow> gmac \<Rightarrow> bool" where
  "gmac_at H b bufs c s \<longleftrightarrow> dma_regs_p (gm s) = b \<and> gm_rx_packets s = bufs \<and> next_rx (gm s) = c mod gm_NO_OF_RX_DESC H \<and>
     rx_given H b (hist s) = c \<and> 0 < gm_NO_OF_RX_DESC H \<and> length bufs = gm_NO_OF_RX_DESC H \<and>
     length (desc_rx (gm s)) = gm_NO_OF_RX_DESC H \<and> length (rx_lines s) = gm_NO_OF_RX_DESC H"

section \<open>The loop\<close>

lemma unat_frame:
  assumes "length d \<le> 65535"
  shows "unat (of_nat (length d) :: u16) = length d" and "uint (of_nat (length d) :: u16) = int (length d)"
proof -
  show "unat (of_nat (length d) :: u16) = length d"
    using assms by (simp add: unat_of_nat take_bit_nat_eq_self_iff)
  then show "uint (of_nat (length d) :: u16) = int (length d)" by (metis uint_nat)
qed

lemma recv_turn_step:
  assumes S: "gmac_stream P H b bufs F filled" and at: "gmac_at H b bufs c s"
    and cold: "rx_lines s = replicate (gm_NO_OF_RX_DESC H) None"
    and room: "int (length data) \<le> maxlen" "maxlen \<le> 65535"
  shows "wp (recv_turn P H maxlen (of_nat (length data)) data) (\<lambda>(go, len, data') t. ub t = ub s \<and>
    len = of_nat (length data') \<and>
    (if c < filled (hist s) \<and> int (length data) + int (length (F c)) \<le> maxlen
     then go \<and> data' = data @ F c \<and> gmac_at H b bufs (Suc c) t \<and> filled (hist s) \<le> filled (hist t) \<and>
       rx_lines t = replicate (gm_NO_OF_RX_DESC H) None
     else \<not> go \<and> data' = data \<and> gmac_at H b bufs c t \<and> hist t = hist s)) s"
proof -
  let ?N = "gm_NO_OF_RX_DESC H" let ?k = "c mod ?N" let ?d = "desc_mem H (hist s) True ?k"
  have at': "dma_regs_p (gm s) = b" "gm_rx_packets s = bufs" "next_rx (gm s) = ?k" "rx_given H b (hist s) = c" "0 < ?N"
      "length bufs = ?N" "length (desc_rx (gm s)) = ?N"
    using at by (simp_all add: gmac_at_def)
  then have k: "?k < ?N" "(?k + 1) mod ?N < ?N" by simp_all
  have mono: "filled h \<le> filled (e # h)" for h e using S by (simp add: gmac_stream_def)
  have hw: "(ipq_gmac_owned_by_dma H ?d = 0 \<longleftrightarrow> c < filled (hist s)) \<and> (c < filled (hist s) \<longrightarrow>
      frame_length H (gd_status ?d) = of_nat (length (F c)) \<and>
      (\<forall>i < length (F c). mem_load P (Inval (bufs ! ?k) (length (F c)) # hist s) (bufs ! ?k + of_nat i) = F c ! i))"
    using S unfolding gmac_stream_def Let_def by (metis at'(4))
  have small: "F c \<noteq> []" "length (F c) \<le> 1536" "\<not> 1536 < length (F c)" using S by (simp_all add: gmac_stream_def not_less)
  have len: "unat (of_nat (length data) :: u16) = length data" "uint (of_nat (length data) :: u16) = int (length data)"
    using room by (auto simp: unat_frame)
  have n: "unat (of_nat (length (F c)) :: u16) = length (F c)" "uint (of_nat (length (F c)) :: u16) = int (length (F c))"
    using small(2) by (auto simp: unat_frame)
  have line: "?k < length (rx_lines s)" "rx_lines s ! ?k = None" using cold k by simp_all
  show ?thesis
  proof (cases "c < filled (hist s) \<and> int (length data) + int (length (F c)) \<le> maxlen")
    case False
    then have "ipq_gmac_owned_by_dma H ?d \<noteq> 0 \<or> maxlen < int (length data) + int (unat (frame_length H (gd_status ?d)))"
      using hw n by auto
    then show ?thesis
      unfolding recv_turn_def Let_def wp_bind wp_gets at'(3)
      by (intro wp_load_rx_miss line) (use False at in \<open>simp add: gmac_at_def len\<close>)
  next
    case True
    then have d: "ipq_gmac_owned_by_dma H ?d = 0" "frame_length H (gd_status ?d) = of_nat (length (F c))"
      and mem: "\<And>i. i < length (F c) \<Longrightarrow>
        mem_load P (Inval (bufs ! ?k) (length (F c)) # hist s) (bufs ! ?k + of_nat i) = F c ! i"
      using hw by auto
    have m4: "filled h \<le> filled (e1 # e2 # e3 # e4 # h)" for h e1 e2 e3 e4
      by (meson mono order_trans)
    have same: "(replicate ?N None)[?k := None] = replicate ?N None"
      using k(1) by (simp add: list_update_same_conv)
    have bytes: "map (\<lambda>i. mem_load P (Inval (bufs ! ?k) (length (F c)) # hist s) (bufs ! ?k + of_nat i)) [0..<length (F c)] = F c"
      by (rule nth_equalityI) (simp_all add: mem)
    have nz: "(of_nat (length (F c)) :: u16) \<noteq> 0"
      using n(1) small(1) by auto
    show ?thesis
      unfolding recv_turn_def Let_def wp_bind wp_gets at'(3)
      apply (rule wp_load_rx_miss [OF line])
      using True
      apply (simp add: d n nz len gm_load_rx_packet_def at' k copy_from_packet_def small bytes)
      apply (intro wp_desc_ptr wp_store_rx wp_clean_rx)
      apply (simp_all add: at' at'(4) [unfolded rx_given_def] k cold gmac_at_def rx_given_def mod_Suc_eq m4 same)
      done
  qed
qed


definition recv_outcome ::
  "ipq806x_hdr \<Rightarrow> u32 \<Rightarrow> u32 list \<Rightarrow> (nat \<Rightarrow> u8 list) \<Rightarrow> (event list \<Rightarrow> nat) \<Rightarrow> int \<Rightarrow> nat \<Rightarrow> nat \<Rightarrow> u8 list \<Rightarrow> gmac \<Rightarrow> bool" where
  "recv_outcome H b bufs F filled maxlen c m data t \<longleftrightarrow>
     int (length data) \<le> maxlen \<and> gmac_at H b bufs (c + m) t \<and>
     (m = 0 \<or> c + m \<le> filled (hist t)) \<and>
     (filled (hist t) \<le> c + m \<or> maxlen < int (length data) + int (length (F (c + m))))"

lemma recv_loop_ok:
  assumes S: "gmac_stream P H b bufs F filled" and max: "maxlen \<le> 65535"
  shows "gmac_at H b bufs c s \<Longrightarrow> rx_lines s = replicate (gm_NO_OF_RX_DESC H) None \<Longrightarrow> int (length data) \<le> maxlen \<Longrightarrow>
    \<exists>m data' t. recv_loop P H maxlen (of_nat (length data)) data s = Some ((of_nat (length data'), data'), t) \<and>
      data' = data @ concat (map F [c..<c + m]) \<and> recv_outcome H b bufs F filled maxlen c m data' t \<and> ub t = ub s \<and>
      filled (hist s) \<le> filled (hist t)"
proof (induction "nat (maxlen - int (length data))" arbitrary: c s data rule: less_induct)
  case less
  let ?m = "recv_turn P H maxlen (of_nat (length data)) data"
  obtain go len data1 where r: "result ?m s = (go, len, data1)" by (cases "result ?m s") auto
  note step = recv_turn_step [OF S less.prems max, unfolded wp_def r prod.case]
  show ?case
  proof (cases "c < filled (hist s) \<and> int (length data) + int (length (F c)) \<le> maxlen")
    case False
    then have "\<not> go" "data1 = data" "len = of_nat (length data)" "gmac_at H b bufs c (exec ?m s)" "hist (exec ?m s) = hist s"
        "ub (exec ?m s) = ub s"
      using step by auto
    then show ?thesis
      using False less.prems(3)
      by (intro exI [of _ 0] exI [of _ data] exI [of _ "exec ?m s"])
        (subst recv_loop.simps, auto simp: r recv_outcome_def)
  next
    case True
    then have st: "go" "data1 = data @ F c" "len = of_nat (length data1)" "gmac_at H b bufs (Suc c) (exec ?m s)"
        "filled (hist s) \<le> filled (hist (exec ?m s))" "ub (exec ?m s) = ub s"
        "rx_lines (exec ?m s) = replicate (gm_NO_OF_RX_DESC H) None"
      using step by auto
    have "0 < length (F c)" using S by (simp add: gmac_stream_def)
    then have ne: "int (length data) < maxlen" "F c \<noteq> []" using True by (linarith, simp)
    have "\<exists>m data' t. recv_loop P H maxlen (of_nat (length data1)) data1 (exec ?m s) = Some ((of_nat (length data'), data'), t) \<and>
        data' = data1 @ concat (map F [Suc c..<Suc c + m]) \<and> recv_outcome H b bufs F filled maxlen (Suc c) m data' t \<and>
        ub t = ub (exec ?m s) \<and> filled (hist (exec ?m s)) \<le> filled (hist t)"
      by (rule less.hyps) (use True st ne in auto)
    then obtain m data' t where
      "recv_loop P H maxlen (of_nat (length data1)) data1 (exec ?m s) = Some ((of_nat (length data'), data'), t)"
      "data' = data1 @ concat (map F [Suc c..<Suc c + m])" "recv_outcome H b bufs F filled maxlen (Suc c) m data' t"
      "ub t = ub s" "filled (hist (exec ?m s)) \<le> filled (hist t)"
      using st(6) by auto
    then show ?thesis
      using st True
      by (intro exI [of _ "Suc m"] exI [of _ data'] exI [of _ t])
        (subst recv_loop.simps, auto simp: r recv_outcome_def upt_conv_Cons simp del: upt_Suc)
  qed
qed


section \<open>The operation\<close>

lemma recv_head_run:
  assumes "gmac_at H b bufs c s"
  shows "gmac_at H b bufs c (exec (recv_head P H) s) \<and> rx_lines (exec (recv_head P H) s) = replicate (gm_NO_OF_RX_DESC H) None \<and>
    ub (exec (recv_head P H) s) = ub s \<and> (\<exists>a n. hist (exec (recv_head P H) s) = Inval a n # hist s)"
proof -
  have "wp (recv_head P H) (\<lambda>_ t. gmac_at H b bufs c t \<and> rx_lines t = replicate (gm_NO_OF_RX_DESC H) None \<and> ub t = ub s \<and>
      (\<exists>a n. hist t = Inval a n # hist s)) s"
    using assms unfolding recv_head_def wp_bind
    by (intro wp_desc_ptr) (auto simp: gmac_at_def upd_lines_def rx_given_def map_replicate_const)
  then show ?thesis by (simp add: wp_def)
qed

text \<open>
  C35: against hardware that stores frames in the ring in order, the receive
  operation of the GMAC driver returns, for every size of the buffer and however
  many frames arrive meanwhile. It gives the stack the frames that wait, in order
  and each once, until none waits or the next does not fit, never more bytes than
  the buffer holds; several frames end up in one buffer, one after the other.
\<close>

theorem gmac_recv_stream:
  assumes "gmac_stream P H b bufs F filled" and "gmac_at H b bufs c s" and "0 \<le> maxlen" and "maxlen \<le> 65535"
  shows "\<exists>m data t. ipq_eth_recv P H maxlen s = Some ((0, of_nat (length data), data), t) \<and>
    data = concat (map F [c..<c + m]) \<and> int (length data) \<le> maxlen \<and> gmac_at H b bufs (c + m) t \<and> ub t = ub s \<and>
    (m = 0 \<or> c + m \<le> filled (hist t)) \<and>
    (filled (hist t) \<le> c + m \<or> maxlen < int (length data) + int (length (F (c + m))))"
proof -
  note hd = recv_head_run [OF assms(2), of P]
  obtain m data t where
    "recv_loop P H maxlen (of_nat (length ([] :: u8 list))) [] (exec (recv_head P H) s) = Some ((of_nat (length data), data), t)"
    "data = [] @ concat (map F [c..<c + m])" "recv_outcome H b bufs F filled maxlen c m data t"
    "ub t = ub (exec (recv_head P H) s)"
    using recv_loop_ok [OF assms(1,4), of c "exec (recv_head P H) s" "[]"] hd assms(3) by auto
  then show ?thesis
    using hd by (intro exI [of _ m] exI [of _ data] exI [of _ t]) (auto simp: ipq_eth_recv_def recv_outcome_def)
qed

text \<open>The stack's successive calls of the receive operation, with their results.\<close>

primrec recv_calls :: "platform \<Rightarrow> ipq806x_hdr \<Rightarrow> int \<Rightarrow> nat \<Rightarrow> gmac \<Rightarrow> ((int \<times> u16 \<times> u8 list) list \<times> gmac) option" where
  "recv_calls P H maxlen 0 s = Some ([], s)"
| "recv_calls P H maxlen (Suc n) s =
     Option.bind (ipq_eth_recv P H maxlen s) (\<lambda>(r, s). Option.bind (recv_calls P H maxlen n s) (\<lambda>(rs, s). Some (r # rs, s)))"

lemma recv_too_long:
  assumes S: "gmac_stream P H b bufs F filled" and at: "gmac_at H b bufs c s" and max: "0 \<le> maxlen" "maxlen \<le> 65535"
    and long: "c < filled (hist s)" "maxlen < int (length (F c))"
  shows "\<exists>t. ipq_eth_recv P H maxlen s = Some ((0, 0, []), t) \<and> gmac_at H b bufs c t \<and> c < filled (hist t)"
proof -
  note hd = recv_head_run [OF at, of P]
  let ?s = "exec (recv_head P H) s"
  have f: "c < filled (hist ?s)"
    using S long(1) hd unfolding gmac_stream_def by (metis order_less_le_trans)
  obtain m data t where r:
    "recv_loop P H maxlen (of_nat (length ([] :: u8 list))) [] ?s = Some ((of_nat (length data), data), t)"
    "data = concat (map F [c..<c + m])" "recv_outcome H b bufs F filled maxlen c m data t" "filled (hist ?s) \<le> filled (hist t)"
    using recv_loop_ok [OF S max(2), of c ?s "[]"] hd max(1) by auto
  have "m = 0"
  proof (rule ccontr)
    assume "m \<noteq> 0"
    then have "length data = length (F c) + length (concat (map F [Suc c..<c + m]))"
      using r(2) by (simp add: upt_conv_Cons)
    with r(3) long(2) show False by (simp add: recv_outcome_def)
  qed
  with r f show ?thesis by (auto simp: ipq_eth_recv_def recv_outcome_def)
qed

text \<open>
  C36: a frame longer than the buffer the stack offers is never taken from the
  ring: the test for it ends the loop before the branch that reports and drops such
  a frame. From then on every call returns success without data and leaves the
  ring as it is, however often it is made.
\<close>

theorem gmac_recv_stalls:
  assumes "gmac_stream P H b bufs F filled" and "gmac_at H b bufs c s" and "0 \<le> maxlen" and "maxlen \<le> 65535"
    and "c < filled (hist s)" and "maxlen < int (length (F c))"
  shows "\<exists>t. recv_calls P H maxlen n s = Some (replicate n (0, 0, []), t) \<and> next_rx (gm t) = next_rx (gm s) \<and>
    rx_given H b (hist t) = rx_given H b (hist s)"
proof -
  have "\<exists>t. recv_calls P H maxlen n s = Some (replicate n (0, 0, []), t) \<and> gmac_at H b bufs c t"
    using assms(2,5)
  proof (induction n arbitrary: s)
    case (Suc n)
    from recv_too_long [OF assms(1) Suc.prems(1) assms(3,4) Suc.prems(2) assms(6)]
    obtain t where t: "ipq_eth_recv P H maxlen s = Some ((0, 0, []), t)" "gmac_at H b bufs c t" "c < filled (hist t)"
      by blast
    from Suc.IH [OF t(2,3)] t(1) show ?case by auto
  qed simp
  then show ?thesis using assms(2) by (auto simp: gmac_at_def)
qed


section \<open>Three frames\<close>

text \<open>Three frames of two bytes have arrived.\<close>

definition three_frames_hdr :: ipq806x_hdr where
  "three_frames_hdr = small_hdr\<lparr>desc_mem := \<lambda>h _ _. zero_gmac_desc\<lparr>gd_status :=
     (if rx_given small_hdr 0 h < 3 then 0x20000 else 0x80000000)\<rparr>\<rparr>"

definition sevens :: platform where
  "sevens = silent\<lparr>mem_load := \<lambda>_ _. 7\<rparr>"

lemma sevens_stream: "gmac_stream sevens three_frames_hdr 0 [0x44000000, 0x44000600] (\<lambda>_. [7, 7]) (\<lambda>_. 3)"
proof -
  have "rx_given three_frames_hdr 0 h = rx_given small_hdr 0 h" for h
    by (simp add: rx_given_def three_frames_hdr_def)
  moreover have "frame_length three_frames_hdr 0x20000 = 2"
    by (simp add: frame_length_def three_frames_hdr_def small_hdr_def two_ring_def)
  moreover have "[7, 7] ! i = (7 :: u8)" if "i < 2" for i
    using that by (cases i) simp_all
  ultimately show ?thesis
    by (simp add: gmac_stream_def Let_def sevens_def three_frames_hdr_def zero_gmac_desc_def ipq_gmac_owned_by_dma_def)
      (simp add: small_hdr_def two_ring_def)
qed

lemma running_at: "gmac_at three_frames_hdr 0 [0x44000000, 0x44000600] 0 running_gmac"
  by (simp add: gmac_at_def running_gmac_def zero_IpqEthDev_def small_hdr_def three_frames_hdr_def rx_given_def)

theorem gmac_recv_stream_witness:
  "\<exists>t. ipq_eth_recv sevens three_frames_hdr 5 running_gmac = Some ((0, 4, [7, 7, 7, 7]), t) \<and> next_rx (gm t) = 0"
proof -
  obtain m data t where r: "ipq_eth_recv sevens three_frames_hdr 5 running_gmac = Some ((0, of_nat (length data), data), t)"
    "data = concat (map (\<lambda>_. [7, 7]) [0..<0 + m])" "int (length data) \<le> 5"
    "gmac_at three_frames_hdr 0 [0x44000000, 0x44000600] (0 + m) t"
    "m = 0 \<or> 0 + m \<le> 3" "3 \<le> 0 + m \<or> 5 < int (length data) + int (length [7 :: u8, 7])"
    using gmac_recv_stream [OF sevens_stream running_at, of 5] by auto
  have len: "length data = 2 * m" unfolding r(2) by (simp add: length_concat sum_list_triv comp_def)
  then have m: "m = 2" using r(3,5,6) by auto
  then have "data = [7, 7, 7, 7]" using r(2) by (simp add: numeral_2_eq_2)
  with r(1,4) m show ?thesis by (auto simp: gmac_at_def three_frames_hdr_def small_hdr_def)
qed

theorem gmac_recv_stalls_witness:
  "\<exists>t. recv_calls sevens three_frames_hdr 1 4 running_gmac = Some (replicate 4 (0, 0, []), t) \<and> next_rx (gm t) = 0"
proof -
  have "next_rx (gm running_gmac) = 0" by (simp add: running_gmac_def zero_IpqEthDev_def)
  then show ?thesis using gmac_recv_stalls [OF sevens_stream running_at, of 1 4] by auto
qed

end
