(* ===== verification/Gmac_Bringup.thy ===== *)
theory Gmac_Bringup
  imports Gmac_Io
begin

text \<open>
  reference/depthcharge-ipq806x.c from the poller down: the MAC address, the
  clocks of the interface, the initialisation and its clean-up after a failure.
\<close>

section \<open>The MAC address\<close>

definition le_bytes :: "u32 \<Rightarrow> u8 list" where
  "le_bytes w = [ucast w, ucast (drop_bit 8 w), ucast (drop_bit 16 w), ucast (drop_bit 24 w)]"

text \<open>The result is the return value and what is stored at \<open>enetaddr\<close>.\<close>

definition ipq806x_get_eth_mac_address :: "platform \<Rightarrow> ipq806x_hdr \<Rightarrow> (gmac, int \<times> u8 list) state" where
  "ipq806x_get_eth_mac_address P H = do {
     let mac = map (sysinfo_mac P) [0..<6];
     let valid_mac = (\<exists>b \<in> set mac. b \<noteq> 0);
     if valid_mac then ret (1, mac)
     else do {
       printf ''Will use default MAC address'' [];
       lo \<leftarrow> readl P (hdr H ''QFPROM_CORR_PTE_ROW0_LSB'');
       hi \<leftarrow> readl P (hdr H ''QFPROM_CORR_PTE_ROW0_MSB'');
       let scramble = sha1 H (le_bytes lo @ le_bytes hi);
       ret (1, 0x02 # take 5 scramble) } }"

section \<open>Speed of the link\<close>

text \<open>One turn: whether the link is up, after storing its speed and duplex mode.\<close>

definition phy_speed_turn :: "platform \<Rightarrow> ipq806x_hdr \<Rightarrow> (gmac, bool) state" where
  "phy_speed_turn P H = do {
     p \<leftarrow> gets gm;
     phy_status \<leftarrow> readl P (hdr H ''QSGMII_REG_BASE'' + PCS_QSGMII_MAC_STAT);
     if hdr2 H ''PCS_QSGMII_MAC_LINK'' phy_status (mac_unit p) \<noteq> 0 then do {
       upd_gm (speed_update (\<lambda>_. hdr2 H ''PCS_QSGMII_MAC_SPEED'' phy_status (mac_unit p)));
       let dup = hdr2 H ''PCS_QSGMII_MAC_DUPLEX'' phy_status (mac_unit p);
       upd_gm (duplex_update (\<lambda>_. dup));
       printf (if dup \<noteq> 0 then ''Full duplex link'' else ''Half duplex link'') [];
       printf ''Link %x up, Phy_status = %x'' [Num (mac_unit p), Num phy_status];
       ret True }
     else ret False }"

partial_function (option) phy_speed_wait :: "platform \<Rightarrow> ipq806x_hdr \<Rightarrow> u64 \<Rightarrow> gmac \<Rightarrow> gmac option" where
  "phy_speed_wait P H start s =
    (if timer_us H (hist s) - start < 2000 * 1000 then
       if result (phy_speed_turn P H) s then Some (exec (phy_speed_turn P H) s)
       else phy_speed_wait P H start (exec (do { _ \<leftarrow> phy_speed_turn P H; udelay 10 }) s)
     else Some s)"

definition get_phy_speed_duplexity :: "platform \<Rightarrow> ipq806x_hdr \<Rightarrow> gmac \<Rightarrow> gmac option" where
  "get_phy_speed_duplexity P H s = phy_speed_wait P H (timer_us H (hist s)) s"

section \<open>Clocks\<close>

definition gmac_sgmii_clk_init :: "platform \<Rightarrow> ipq806x_hdr \<Rightarrow> u32 \<Rightarrow> u32 \<Rightarrow> ipq_gmac_board_cfg \<Rightarrow> (gmac, unit) state" where
  "gmac_sgmii_clk_init P H unit clk_div cfg = do {
     let nss = hdr H ''NSS_REG_BASE'';
     let all_ch = hdr H ''QSGMII_REG_BASE'' + hdr H ''PCS_ALL_CH_CTL'';
     let gate = nss + hdr H ''NSS_ETH_CLK_GATE_CTL'';
     let gmac_ctl_val = hdr H ''NSS_ETH_GMAC_PHY_INTF_SEL'' OR hdr H ''NSS_ETH_GMAC_PHY_IFG_LIMIT'' OR
       hdr H ''NSS_ETH_GMAC_PHY_IFG'';
     let gate_val = hdr1 H ''GMACn_GMII_RX_CLK'' unit OR hdr1 H ''GMACn_GMII_TX_CLK'' unit OR hdr1 H ''GMACn_PTP_CLK'' unit;
     let force_1000 = do {
       setbits_le32 P all_ch (hdr1 H ''PCS_CHn_FORCE_SPEED'' unit);
       clrbits_le32 P all_ch (hdr1 H ''PCS_CHn_SPEED_MASK'' unit);
       setbits_le32 P all_ch (hdr2 H ''PCS_CHn_SPEED'' unit (hdr H ''PCS_CH_SPEED_1000''));
       setbits_le32 P gate gate_val };
     writel gmac_ctl_val (nss + hdr1 H ''NSS_GMACn_CTL'' unit);
     if unit = hdr H ''GMAC_UNIT1'' then force_1000
     else if unit = hdr H ''GMAC_UNIT2'' \<or> unit = hdr H ''GMAC_UNIT3'' then
       (if mac_conn_to_phy cfg then do {
          setbits_le32 P all_ch (hdr1 H ''PCS_CHn_SPEED_FORCE_OUTSIDE'' unit OR hdr H ''PCS_DEBUG_SELECT'');
          setbits_le32 P (nss + hdr H ''NSS_ETH_CLK_SRC_CTL'') (push_bit (unat unit) 1);
          (if clk_div = 0 then
             clrbits_le32 P (nss + hdr H ''NSS_ETH_CLK_DIV0'') (hdr2 H ''NSS_ETH_CLK_DIV'' (hdr H ''NSS_ETH_CLK_DIV_MASK'') unit)
           else
             clrsetbits_le32 P (nss + hdr H ''NSS_ETH_CLK_DIV0'') (hdr2 H ''NSS_ETH_CLK_DIV'' (hdr H ''NSS_ETH_CLK_DIV_MASK'') unit)
               (hdr2 H ''NSS_ETH_CLK_DIV'' clk_div unit));
          setbits_le32 P gate gate_val }
        else force_1000)
     else ret () }"

definition ipq_gmac_mii_clk_init :: "platform \<Rightarrow> ipq806x_hdr \<Rightarrow> u32 \<Rightarrow> ipq_gmac_board_cfg \<Rightarrow> (gmac, unit) state" where
  "ipq_gmac_mii_clk_init P H clk_div cfg = do {
     p \<leftarrow> gets gm;
     let nss = hdr H ''NSS_REG_BASE'';
     let gmac_idx = mac_unit p;
     if interface p = hdr H ''PHY_INTERFACE_MODE_RGMII'' then do {
       let ctl = hdr H ''GMAC_PHY_RGMII'' OR hdr H ''GMAC_IFG'' OR hdr1 H ''GMAC_IFG_LIMIT'' (hdr H ''GMAC_IFG'');
       let gate = hdr1 H ''GMACn_RGMII_RX_CLK'' gmac_idx OR hdr1 H ''GMACn_RGMII_TX_CLK'' gmac_idx OR
         hdr1 H ''GMACn_PTP_CLK'' gmac_idx;
       setbits_le32 P (nss + hdr1 H ''NSS_GMACn_CTL'' gmac_idx) ctl;
       setbits_le32 P (nss + hdr H ''NSS_ETH_CLK_GATE_CTL'') gate;
       setbits_le32 P (nss + hdr H ''NSS_ETH_CLK_SRC_CTL'') (push_bit (unat gmac_idx) 1);
       writel (hdr2 H ''NSS_ETH_CLK_DIV'' 1 gmac_idx) (nss + hdr H ''NSS_ETH_CLK_DIV0'') }
     else if interface p = hdr H ''PHY_INTERFACE_MODE_SGMII'' then gmac_sgmii_clk_init P H gmac_idx clk_div cfg
     else printf '' default : no rgmii sgmii for gmac %d'' [Num gmac_idx] }"

section \<open>Resets and pins\<close>

definition ipq_gmac_core_reset :: "ipq806x_hdr \<Rightarrow> ipq_gmac_board_cfg \<Rightarrow> (gmac, unit) state" where
  "ipq_gmac_core_reset H cfg = do {
     writel 0 (hdr1 H ''GMAC_CORE_RESET'' (gc_unit cfg));
     when_do (is_macsec cfg) (writel 0 (hdr1 H ''GMACSEC_CORE_RESET'' (gc_unit cfg)));
     writel 0 (hdr H ''GMAC_AHB_RESET'');
     writel 0 (hdr H ''MSM_TCSR_BASE'' + hdr H ''TCSR_PXO_SEL'') }"

definition ipq_gmac_common_init :: "platform \<Rightarrow> ipq806x_hdr \<Rightarrow> ipq_gmac_board_cfg \<Rightarrow> (gmac, unit) state" where
  "ipq_gmac_common_init P H cfg = do {
     let qsgmii = hdr H ''QSGMII_REG_BASE'';
     writel 0 (hdr1 H ''GPIO_IN_OUT_ADDR'' (switch_reset_gpio cfg));
     let mode = hdr1 H ''PCS_CHn_ANEG_EN'' (hdr H ''GMAC_UNIT1'') OR hdr1 H ''PCS_CHn_ANEG_EN'' (hdr H ''GMAC_UNIT2'') OR
       hdr1 H ''PCS_CHn_ANEG_EN'' (hdr H ''GMAC_UNIT3'') OR hdr1 H ''PCS_CHn_ANEG_EN'' (hdr H ''GMAC_UNIT0'') OR
       hdr H ''PCS_SGMII_MAC'';
     let ctl = hdr H ''PCS_QSGMII_ATHR_CSCO_AUTONEG'' OR hdr H ''PCS_QSGMII_SW_VER_1_7'' OR
       hdr H ''PCS_QSGMII_SHORT_THRESH'' OR hdr H ''PCS_QSGMII_SHORT_LATENCY'' OR hdr1 H ''PCS_QSGMII_DEPTH_THRESH'' 1 OR
       hdr1 H ''PCS_CHn_SERDES_SN_DETECT'' 0 OR hdr1 H ''PCS_CHn_SERDES_SN_DETECT'' 1 OR
       hdr1 H ''PCS_CHn_SERDES_SN_DETECT'' 2 OR hdr1 H ''PCS_CHn_SERDES_SN_DETECT'' 3 OR
       hdr1 H ''PCS_CHn_SERDES_SN_DETECT_2'' 0 OR hdr1 H ''PCS_CHn_SERDES_SN_DETECT_2'' 1 OR
       hdr1 H ''PCS_CHn_SERDES_SN_DETECT_2'' 2 OR hdr1 H ''PCS_CHn_SERDES_SN_DETECT_2'' 3;
     writel (hdr H ''MACSEC_BYPASS_EXT_EN'') (hdr H ''NSS_REG_BASE'' + hdr H ''NSS_MACSEC_CTL'');
     writel 0 (qsgmii + hdr H ''QSGMII_PHY_MODE_CTL'');
     writel 0 (qsgmii + hdr H ''PCS_QSGMII_SGMII_MODE'');
     setbits_le32 P (qsgmii + hdr H ''NSS_PCS_MODE_CTL'') mode;
     writel ctl (qsgmii + hdr H ''PCS_QSGMII_CTL'');
     writel 0 (hdr1 H ''GMAC_CORE_RESET'' 0);
     ipq_gmac_core_reset H cfg }"

text \<open>What other drivers provide: the switch and the pins.\<close>

record ipq806x_board =
  ipq_switch_init :: "ipq_gmac_board_cfg \<Rightarrow> (gmac, unit) state"
  gpio_tlmm_config :: "u32 \<Rightarrow> u32 \<Rightarrow> u32 \<Rightarrow> u32 \<Rightarrow> u32 \<Rightarrow> u32 \<Rightarrow> (gmac, unit) state"

record gpio_func_data =
  gf_gpio :: u32
  gf_func :: u32
  gf_dir :: u32
  gf_pull :: u32
  gf_drvstr :: u32
  gf_enable :: u32

definition ipq_configure_gpio :: "ipq806x_board \<Rightarrow> gpio_func_data list \<Rightarrow> (gmac, unit) state" where
  "ipq_configure_gpio B gpios =
     for_each gpios (\<lambda>g. gpio_tlmm_config B (gf_gpio g) (gf_func g) (gf_dir g) (gf_pull g) (gf_drvstr g) (gf_enable g))"

definition gmac0_gpio :: "ipq806x_hdr \<Rightarrow> gpio_func_data list" where
  "gmac0_gpio H = (let out = hdr H ''GPIO_OUTPUT''; np = hdr H ''GPIO_NO_PULL''; ma8 = hdr H ''GPIO_8MA'' in
    [\<lparr>gf_gpio = 0, gf_func = 1, gf_dir = out, gf_pull = np, gf_drvstr = ma8, gf_enable = hdr H ''GPIO_ENABLE''\<rparr>,
     \<lparr>gf_gpio = 1, gf_func = 1, gf_dir = out, gf_pull = np, gf_drvstr = ma8, gf_enable = hdr H ''GPIO_DISABLE''\<rparr>,
     \<lparr>gf_gpio = 2, gf_func = 0, gf_dir = out, gf_pull = np, gf_drvstr = ma8, gf_enable = hdr H ''GPIO_ENABLE''\<rparr>,
     \<lparr>gf_gpio = 66, gf_func = 0, gf_dir = out, gf_pull = np, gf_drvstr = hdr H ''GPIO_16MA'', gf_enable = hdr H ''GPIO_ENABLE''\<rparr>])"

section \<open>Initialisation\<close>

text \<open>\<open>ipq_gmac_init\<close> up to the descriptor rings: both pointers and whether to go on.\<close>

definition gmac_init_head :: "platform \<Rightarrow> ipq806x_hdr \<Rightarrow> ipq_gmac_board_cfg \<Rightarrow> (gmac, u32 \<times> u32 \<times> bool) state" where
  "gmac_init_head P H cfg = do {
     dev \<leftarrow> xzalloc H (sizeof_NetDevice H);
     ipq_dev \<leftarrow> xzalloc H (sizeof_IpqEthDev H);
     upd_gm (\<lambda>_. zero_IpqEthDev H);
     (ok, mac) \<leftarrow> ipq806x_get_eth_mac_address P H;
     upd_gm (ge_mac_addr_update (\<lambda>_. mac));
     if ok = 0 then ret (dev, ipq_dev, False)
     else do {
       printf ''Ipq806x MAC addr'' [];
       for_each [0..<6] (\<lambda>i. printf ''%c%2.2x'' [Str (if i = 0 then '' '' else '':''), Num (ucast (mac ! i))]);
       printf '''' [];
       upd_gm (mac_unit_update (\<lambda>_. gc_unit cfg));
       upd_gm (mac_regs_p_update (\<lambda>_. gc_base cfg));
       upd_gm (dma_regs_p_update (\<lambda>_. gc_base cfg + hdr H ''DW_DMA_BASE_OFFSET''));
       upd_gm (interface_update (\<lambda>_. gc_phy cfg));
       upd_gm (mdio_addr_update (\<lambda>_. gc_mdio_addr cfg));
       rc \<leftarrow> ipq_gmac_tx_rx_desc_ring P H;
       ret (dev, ipq_dev, rc = 0) } }"

text \<open>The switch on the speed found: the clock divider, or None for an unknown speed.\<close>

definition gmac_speed_div :: "ipq806x_hdr \<Rightarrow> ipq_gmac_board_cfg \<Rightarrow> (gmac, u32 option) state" where
  "gmac_speed_div H cfg = do {
     p \<leftarrow> gets gm;
     if speed p = hdr H ''SPEED_1000M'' then do {
       printf ''Port:%d speed 1000Mbps'' [Num (gc_unit cfg)];
       upd_gm (mac_ps_update (\<lambda>_. hdr H ''GMII_PORT_SELECT''));
       ret (Some (hdr H ''CLK_DIV_SGMII_1000M'' - 1)) }
     else if speed p = hdr H ''SPEED_100M'' then do {
       printf ''Port:%d speed 100Mbps'' [Num (gc_unit cfg)];
       upd_gm (mac_ps_update (\<lambda>_. hdr H ''MII_PORT_SELECT''));
       ret (Some (hdr H ''CLK_DIV_SGMII_100M'' - 1)) }
     else if speed p = hdr H ''SPEED_10M'' then do {
       printf ''Port:%d speed 10Mbps'' [Num (gc_unit cfg)];
       upd_gm (mac_ps_update (\<lambda>_. hdr H ''MII_PORT_SELECT''));
       ret (Some (hdr H ''CLK_DIV_SGMII_10M'' - 1)) }
     else do { printf ''Port speed unknown'' []; ret None } }"

text \<open>The label failed; \<open>dev->dev_data\<close> is \<open>ipq_dev\<close>. The result is NULL.\<close>

definition gmac_init_failed :: "u32 \<Rightarrow> u32 \<Rightarrow> (gmac, u32) state" where
  "gmac_init_failed dev ipq_dev = do {
     when_do (dev \<noteq> 0) (do { when_do (ipq_dev \<noteq> 0) (emit (Free ipq_dev)); emit (Free dev) });
     when_do (ipq_dev \<noteq> 0) (emit (Free ipq_dev));
     ret 0 }"

definition gmac_init_tail ::
  "platform \<Rightarrow> ipq806x_hdr \<Rightarrow> ipq806x_board \<Rightarrow> ipq_gmac_board_cfg \<Rightarrow> u32 \<Rightarrow> u32 \<Rightarrow> (gmac, u32) state" where
  "gmac_init_tail P H B cfg dev clk_div = do {
     ipq_gmac_mii_clk_init P H clk_div cfg;
     done \<leftarrow> gets s17_init_done;
     when_do (\<not> done) (do {
       ipq_switch_init B cfg;
       modify (\<lambda>s. s\<lparr>s17_init_done := True\<rparr>);
       printf ''S17 inits done'' [] });
     ret dev }"

definition ipq_gmac_init ::
  "platform \<Rightarrow> ipq806x_hdr \<Rightarrow> ipq806x_board \<Rightarrow> ipq_gmac_board_cfg \<Rightarrow> gmac \<Rightarrow> (u32 \<times> gmac) option" where
  "ipq_gmac_init P H B cfg s =
    (case run_state (gmac_init_head P H cfg) s of ((dev, ipq_dev, ok), s) \<Rightarrow>
       if \<not> ok then Some (run_state (gmac_init_failed dev ipq_dev) s)
       else if (gc_unit cfg = hdr H ''GMAC_UNIT2'' \<or> gc_unit cfg = hdr H ''GMAC_UNIT3'') \<and> mac_conn_to_phy cfg then
         Option.bind (get_phy_speed_duplexity P H s) (\<lambda>s.
           case run_state (gmac_speed_div H cfg) s of
             (None, s) \<Rightarrow> Some (run_state (gmac_init_failed dev ipq_dev) s)
           | (Some clk_div, s) \<Rightarrow> Some (run_state (gmac_init_tail P H B cfg dev clk_div) s))
       else Some (run_state (gmac_init_tail P H B cfg dev 0) s))"

definition eth_init_head :: "platform \<Rightarrow> ipq806x_hdr \<Rightarrow> ipq806x_board \<Rightarrow> (gmac, ipq_gmac_board_cfg) state" where
  "eth_init_head P H B = do {
     modify (\<lambda>s. s\<lparr>gmac_cfg := (gmac_cfg s)\<lparr>gc_mdio_addr := board_wan_port_number H\<rparr>\<rparr>);
     cfg \<leftarrow> gets gmac_cfg;
     printf ''Using port #%d'' [Num (gc_mdio_addr cfg)];
     ipq_gmac_common_init P H cfg;
     ipq_configure_gpio B (gmac0_gpio H);
     ret cfg }"

definition ipq_eth_init :: "platform \<Rightarrow> ipq806x_hdr \<Rightarrow> ipq806x_board \<Rightarrow> gmac \<Rightarrow> (int \<times> gmac) option" where
  "ipq_eth_init P H B s =
     Option.bind (ipq_gmac_init P H B (result (eth_init_head P H B) s) (exec (eth_init_head P H B) s))
       (\<lambda>(dev, s). Some (if dev = 0 then (- 1, s) else (0, exec (emit NetAddDevice) s)))"

definition ipq_net_poller :: "platform \<Rightarrow> ipq806x_hdr \<Rightarrow> ipq806x_board \<Rightarrow> gmac \<Rightarrow> gmac option" where
  "ipq_net_poller P H B s =
    (if gm_initted s then Some s
     else Option.bind (ipq_eth_init P H B s) (\<lambda>(rc, s). Some (if rc = 0 then s\<lparr>gm_initted := True\<rparr> else s)))"

definition ipq_eth_driver_register :: "(gmac, int) state" where
  "ipq_eth_driver_register = do { emit NetPollerInsert; ret 0 }"

text \<open>The state at boot, with the static configuration.\<close>

definition gmac_boot :: "ipq806x_hdr \<Rightarrow> gmac" where
  "gmac_boot H = \<lparr>hist = [], console = [], ub = False, gm = zero_IpqEthDev H, tx_lines = replicate (gm_NO_OF_TX_DESC H) None, rx_lines = replicate (gm_NO_OF_RX_DESC H) None,
     gm_rx_packets = replicate (gm_NO_OF_RX_DESC H) 0,
     gmac_cfg = \<lparr>gc_base = hdr H ''NSS_GMAC0_BASE'', gc_unit = 0, gc_phy = hdr H ''PHY_INTERFACE_MODE_RGMII'',
       gc_mdio_addr = 0, mac_conn_to_phy = False, is_macsec = False, switch_reset_gpio = 26\<rparr>,
     s17_init_done = False, gm_initted = False\<rparr>"

definition ipq_get_mac :: "(gmac, u8 list) state" where
  "ipq_get_mac = do { p \<leftarrow> gets gm; ret (ge_mac_addr p) }"

end
