(* ===== verification/Gmac_Ring.thy ===== *)
theory Gmac_Ring
  imports Gmac_Bringup Net_Stack
begin

text \<open>
  The type invariant of the GMAC driver: the size of its rings, its indexes and
  the chain of its descriptors, established by the initialisation and kept by
  every operation the network stack can call, in any order.
\<close>

section \<open>Events that are no store to a descriptor\<close>

fun no_store :: "event \<Rightarrow> bool" where
  "no_store (StGmac rx i d) = False"
| "no_store _ = True"

lemma no_stores:
  assumes "list_all no_store es"
  shows "last_gmac (es @ h) rx i = last_gmac h rx i"
  using assms
proof (induction es)
  case (Cons e es)
  then show ?case by (cases e) simp_all
qed simp

text \<open>Accesses to the hardware, none of them to memory.\<close>

fun bus_access :: "event \<Rightarrow> bool" where
  "bus_access (Rd a v) = True"
| "bus_access (Wr a v) = True"
| "bus_access (Udelay n) = True"
| "bus_access _ = False"

section \<open>The invariant\<close>

text \<open>
  Every descriptor of a ring, but those in X, was last stored with the address of
  the next one, around the ring.
\<close>

definition chained :: "u32 list \<Rightarrow> nat \<Rightarrow> bool \<Rightarrow> nat set \<Rightarrow> event list \<Rightarrow> bool" where
  "chained ps n rx X h \<longleftrightarrow>
     (\<forall>i. i < n \<and> i \<notin> X \<longrightarrow> (\<exists>d. last_gmac h rx i = Some d \<and> gd_data1 d = ps ! ((i + 1) mod n)))"

definition gmac_inv :: "ipq806x_hdr \<Rightarrow> nat set \<Rightarrow> nat set \<Rightarrow> gmac \<Rightarrow> bool" where
  "gmac_inv H X Y s \<longleftrightarrow> \<not> ub s \<and>
     length (desc_tx (gm s)) = gm_NO_OF_TX_DESC H \<and> length (tx_lines s) = gm_NO_OF_TX_DESC H \<and>
     length (desc_rx (gm s)) = gm_NO_OF_RX_DESC H \<and> length (rx_lines s) = gm_NO_OF_RX_DESC H \<and>
     length (gm_rx_packets s) = gm_NO_OF_RX_DESC H \<and>
     next_tx (gm s) < gm_NO_OF_TX_DESC H \<and> next_rx (gm s) < gm_NO_OF_RX_DESC H \<and>
     chained (desc_tx (gm s)) (gm_NO_OF_TX_DESC H) False X (hist s) \<and>
     chained (desc_rx (gm s)) (gm_NO_OF_RX_DESC H) True Y (hist s)"

abbreviation gmac_ok :: "ipq806x_hdr \<Rightarrow> gmac \<Rightarrow> bool" where
  "gmac_ok H \<equiv> gmac_inv H {} {}"

definition ring_size :: "ipq806x_hdr \<Rightarrow> bool \<Rightarrow> nat" where
  "ring_size H rx = (if rx then gm_NO_OF_RX_DESC H else gm_NO_OF_TX_DESC H)"

definition ring_ptrs :: "bool \<Rightarrow> gmac \<Rightarrow> u32 list" where
  "ring_ptrs rx s = (if rx then desc_rx (gm s) else desc_tx (gm s))"

text \<open>What the accesses to a descriptor leave alone.\<close>

definition same_dev :: "gmac \<Rightarrow> gmac \<Rightarrow> bool" where
  "same_dev s t \<longleftrightarrow> gm t = gm s \<and> gm_rx_packets t = gm_rx_packets s \<and> gmac_cfg t = gmac_cfg s \<and> gm_initted t = gm_initted s"

lemma same_dev_refl [simp]: "same_dev s s"
  by (simp add: same_dev_def)

lemma same_dev_trans: "same_dev s t \<Longrightarrow> same_dev t u \<Longrightarrow> same_dev s u"
  by (simp add: same_dev_def)

lemma wp_ptr_inv:
  assumes "gmac_inv H X Y s" and "i < ring_size H rx" and "Q (ring_ptrs rx s ! i) s"
  shows "wp (desc_ptr rx i) Q s"
  using assms by (cases rx; simp add: wp_desc_ptr gmac_inv_def ring_size_def ring_ptrs_def)

lemma wp_load_inv:
  assumes "gmac_inv H X Y s" and "i < ring_size H rx"
    and "\<And>d t. gmac_inv H X Y t \<Longrightarrow> same_dev s t \<Longrightarrow> hist t = hist s \<Longrightarrow> Q d t"
  shows "wp (load_desc H rx i) Q s"
  using assms
  by (cases rx; auto simp: load_desc_def lines_of_def upd_lines_def gmac_inv_def ring_size_def same_dev_def split: option.splits)

lemma chained_store:
  assumes "chained ps n rx X h" and "r = rx \<Longrightarrow> i \<in> X \<or> gd_data1 d = ps ! ((i + 1) mod n)"
  shows "chained ps n rx X (StGmac r i d # h)"
  using assms by (auto simp: chained_def)

lemma chained_link:
  assumes "chained ps n rx X h" and "gd_data1 d = ps ! ((i + 1) mod n)"
  shows "chained ps n rx (X - {i}) (StGmac rx i d # h)"
  using assms by (auto simp: chained_def)

lemma wp_store_any:
  assumes I: "gmac_inv H X Y s" and i: "i < ring_size H rx"
    and ch: "chained (desc_tx (gm s)) (gm_NO_OF_TX_DESC H) False X' (StGmac rx i d # hist s)"
      "chained (desc_rx (gm s)) (gm_NO_OF_RX_DESC H) True Y' (StGmac rx i d # hist s)"
    and Q: "\<And>t. gmac_inv H X' Y' t \<Longrightarrow> same_dev s t \<Longrightarrow> hist t = StGmac rx i d # hist s \<Longrightarrow> Q () t"
  shows "wp (store_desc rx i d) Q s"
proof -
  let ?t = "if rx then s\<lparr>rx_lines := (rx_lines s)[i := Some d], hist := StGmac rx i d # hist s\<rparr>
    else s\<lparr>tx_lines := (tx_lines s)[i := Some d], hist := StGmac rx i d # hist s\<rparr>"
  have "gmac_inv H X' Y' ?t"
    using I ch unfolding gmac_inv_def by (cases rx) auto
  moreover have "same_dev s ?t" "hist ?t = StGmac rx i d # hist s" by (simp_all add: same_dev_def)
  ultimately have "Q () ?t" by (rule Q)
  then show ?thesis
    using I i by (cases rx) (simp_all add: store_desc_def lines_of_def upd_lines_def gmac_inv_def ring_size_def)
qed

text \<open>A store that keeps the chain, or one to a descriptor that is not in it.\<close>

lemma wp_store_inv:
  assumes I: "gmac_inv H X Y s" and i: "i < ring_size H rx"
    and d: "i \<in> (if rx then Y else X) \<or> gd_data1 d = ring_ptrs rx s ! ((i + 1) mod ring_size H rx)"
    and Q: "\<And>t. gmac_inv H X Y t \<Longrightarrow> same_dev s t \<Longrightarrow> hist t = StGmac rx i d # hist s \<Longrightarrow> Q () t"
  shows "wp (store_desc rx i d) Q s"
proof (rule wp_store_any [OF I i, of X d Y])
  show "chained (desc_tx (gm s)) (gm_NO_OF_TX_DESC H) False X (StGmac rx i d # hist s)"
    "chained (desc_rx (gm s)) (gm_NO_OF_RX_DESC H) True Y (StGmac rx i d # hist s)"
    using I d by (auto simp: gmac_inv_def ring_size_def ring_ptrs_def intro!: chained_store)
qed (rule Q)

text \<open>A store that puts a descriptor into the chain.\<close>

lemma wp_store_link:
  assumes I: "gmac_inv H X Y s" and i: "i < ring_size H rx"
    and d: "gd_data1 d = ring_ptrs rx s ! ((i + 1) mod ring_size H rx)"
    and Q: "\<And>t. gmac_inv H (if rx then X else X - {i}) (if rx then Y - {i} else Y) t \<Longrightarrow> same_dev s t \<Longrightarrow> Q () t"
  shows "wp (store_desc rx i d) Q s"
proof (rule wp_store_any [OF I i, of "if rx then X else X - {i}" d "if rx then Y - {i} else Y"])
  show "chained (desc_tx (gm s)) (gm_NO_OF_TX_DESC H) False (if rx then X else X - {i}) (StGmac rx i d # hist s)"
    "chained (desc_rx (gm s)) (gm_NO_OF_RX_DESC H) True (if rx then Y - {i} else Y) (StGmac rx i d # hist s)"
    using I d by (auto simp: gmac_inv_def ring_size_def ring_ptrs_def intro!: chained_store chained_link)
qed (rule Q)

lemma gmac_inv_mono: "gmac_inv H X Y s \<Longrightarrow> X \<subseteq> X' \<Longrightarrow> Y \<subseteq> Y' \<Longrightarrow> gmac_inv H X' Y' s"
  by (auto simp: gmac_inv_def chained_def)

lemma chained_full:
  assumes "chained ps n rx X h" and "X \<inter> {0..<n} = {}"
  shows "chained ps n rx {} h"
  unfolding chained_def
proof (intro allI impI)
  fix i assume "i < n \<and> i \<notin> {}"
  then have "i < n \<and> i \<notin> X" using assms(2) by auto
  then show "\<exists>d. last_gmac h rx i = Some d \<and> gd_data1 d = ps ! ((i + 1) mod n)"
    using assms(1) unfolding chained_def by blast
qed

lemma gmac_inv_full:
  assumes "gmac_inv H X Y s" and "X \<inter> {0..<gm_NO_OF_TX_DESC H} = {}" and "Y \<inter> {0..<gm_NO_OF_RX_DESC H} = {}"
  shows "gmac_ok H s"
  using assms by (auto simp: gmac_inv_def intro: chained_full)

lemma gmac_inv_io:
  assumes "gmac_inv H X Y s" and "list_all no_store es"
  shows "gmac_inv H X Y (s\<lparr>hist := es @ hist s, console := cs @ console s\<rparr>)"
  using assms by (simp add: gmac_inv_def chained_def no_stores)

lemma wp_io_inv:
  assumes "io_within no_store m" and "gmac_inv H X Y s"
    and "\<And>r t. gmac_inv H X Y t \<Longrightarrow> same_dev s t \<Longrightarrow> (\<exists>es. list_all no_store es \<and> hist t = es @ hist s) \<Longrightarrow> Q r t"
  shows "wp m Q s"
  using assms(1)
proof (rule io_within_wp)
  fix r es cs assume "list_all no_store es"
  then show "Q r (s\<lparr>hist := es @ hist s, console := cs @ console s\<rparr>)"
    by (intro assms(3) gmac_inv_io assms(2)) (auto simp: same_dev_def)
qed

lemma wp_maint_inv:
  assumes "gmac_inv H X Y s" and "i < ring_size H rx"
    and "\<And>t. gmac_inv H X Y t \<Longrightarrow> same_dev s t \<Longrightarrow> (\<exists>e. no_store e \<and> hist t = e # hist s) \<Longrightarrow> Q () t"
  shows "wp (clean_desc P H rx i) Q s" and "wp (inval_desc P H rx i) Q s"
proof -
  have ev: "Q () (if rx then s\<lparr>hist := e # hist s, rx_lines := (rx_lines s)[i := None]\<rparr>
      else s\<lparr>hist := e # hist s, tx_lines := (tx_lines s)[i := None]\<rparr>)" if "no_store e" for e
    using gmac_inv_io [OF assms(1), of "[e]" "[]"] that
    by (intro assms(3)) (auto simp: gmac_inv_def same_dev_def)
  show "wp (clean_desc P H rx i) Q s"
    unfolding clean_desc_def wp_bind
    by (rule wp_ptr_inv [OF assms(1,2)])
      (use ev [of "Clean (ring_ptrs rx s ! i) (DESC_FLUSH_SIZE P H)"] in \<open>cases rx; simp add: upd_lines_def\<close>)
  show "wp (inval_desc P H rx i) Q s"
    unfolding inval_desc_def wp_bind
    by (rule wp_ptr_inv [OF assms(1,2)])
      (use ev [of "Inval (ring_ptrs rx s ! i) (DESC_FLUSH_SIZE P H)"] in \<open>cases rx; simp add: upd_lines_def\<close>)
qed

section \<open>Receive and transmit\<close>

lemma wp_packet:
  assumes "gmac_inv H X Y s" and "k < gm_NO_OF_RX_DESC H" and "Q (gm_rx_packets s ! k) s"
  shows "wp (gm_load_rx_packet k) Q s"
  using assms by (simp add: gm_load_rx_packet_def gmac_inv_def)

lemma gmac_inv_next:
  assumes "gmac_inv H X Y s"
  shows "gmac_inv H X Y (s\<lparr>gm := (gm s)\<lparr>next_rx := k mod gm_NO_OF_RX_DESC H\<rparr>\<rparr>)"
    and "gmac_inv H X Y (s\<lparr>gm := (gm s)\<lparr>next_tx := k mod gm_NO_OF_TX_DESC H\<rparr>\<rparr>)"
  using assms by (auto simp: gmac_inv_def intro!: mod_less_divisor)

lemma io_within_copy: "n \<le> 1536 \<Longrightarrow> io_within no_store (copy_from_packet P src n)"
  unfolding copy_from_packet_def MAX_FRAME_SIZE_def
  by (simp add: when_do_def not_less io_within_gets io_within_bind io_within_ret)

lemma same_dev_gm: "same_dev s t \<Longrightarrow> gm t = gm s"
  by (simp add: same_dev_def)

text \<open>Both branches of a conditional, as two goals.\<close>

lemma wp_if_cases:
  assumes "b \<Longrightarrow> wp m Q s" and "\<not> b \<Longrightarrow> wp n Q s"
  shows "wp (if b then m else n) Q s"
  using assms by simp

lemma recv_turn_inv:
  assumes I: "gmac_ok H s" and max: "maxlen \<le> 1536"
  shows "wp (recv_turn P H maxlen len data) (\<lambda>_ t. gmac_ok H t) s"
proof -
  let ?k = "next_rx (gm s)" and ?N = "gm_NO_OF_RX_DESC H"
  have k: "?k < ring_size H True" "?k < ?N" "(?k + 1) mod ?N < ring_size H True"
    using I by (simp_all add: gmac_inv_def ring_size_def)
  have tail: "wp (store_desc True ?k (ipq_gmac_rx_desc_of H ?k buf (ring_ptrs True t ! ((?k + 1) mod ?N)))) (\<lambda>_.
      wp (clean_desc P H True ?k) (\<lambda>_. wp (writel (hdr H ''POLL_DATA'') (dma_regs_p (gm s) + hdr H ''rxpolldemand''))
        (\<lambda>_ t. gmac_ok H t))) t" if t: "gmac_ok H t" for buf t
    apply (rule wp_store_inv [OF t k(1)], simp add: ipq_gmac_rx_desc_of_def ring_size_def)
    apply (rule wp_maint_inv(1) [OF _ k(1)], assumption)
    apply (rule wp_io_inv, (intro io_within_rules; simp), assumption+)
    done
  have middle: "io_within no_store (if int (unat len) + int (unat n) \<le> maxlen \<and> n \<noteq> 0
    then do { bytes \<leftarrow> copy_from_packet P buf (unat n); ret (len + n, data @ bytes) }
    else do {
      (if n = 0 then printf ''received zero length frame.'' []
       else printf ''%s:%d received frame too long (%d)'' [Str ''ipq_eth_recv'', Num 463, Num (ucast n)]);
      ret (len, data) })" for buf n
  proof (cases "int (unat len) + int (unat n) \<le> maxlen \<and> n \<noteq> 0")
    case True
    then have "unat n \<le> 1536" using max by linarith
    then show ?thesis unfolding if_P [OF True] by (intro io_within_rules io_within_copy)
  next
    case False
    show ?thesis unfolding if_not_P [OF False] by (intro io_within_rules)
  qed
  show ?thesis
    unfolding recv_turn_def Let_def wp_bind wp_gets
    apply (rule wp_load_inv [OF I k(1)])
    subgoal for d t
      apply (rule wp_if_cases, simp)
      apply (unfold wp_bind, rule wp_packet [OF _ k(2)], assumption)
      apply (rule wp_io_inv, (intro io_within_rules; simp), assumption)
      apply (rule wp_io_inv [OF middle], assumption)
      apply (unfold case_prod_beta wp_bind wp_modify wp_ret)
      apply (rule wp_ptr_inv [OF _ k(3)], erule gmac_inv_next)
      apply (rule tail, erule gmac_inv_next)
      done
    done
qed

lemma tx_wait_inv:
  assumes "gmac_inv H X Y s" and "k < ring_size H False"
    and "\<And>r t. gmac_inv H X Y t \<Longrightarrow> same_dev s t \<Longrightarrow> Q r t"
  shows "wp (gmac_tx_wait P H k) Q s"
  unfolding gmac_tx_wait_def
proof (rule wp_poll_loop [where I = "\<lambda>_ _ t. gmac_inv H X Y t \<and> same_dev s t"])
  fix j u t assume t: "gmac_inv H X Y t \<and> same_dev s t"
  show "wp (do { udelay 10; inval_desc P H False k; d \<leftarrow> load_desc H False k; ret (ipq_gmac_owned_by_dma H d) })
    (\<lambda>u' t'. if u' = 0 then Q (j, u') t' else wp (ret ()) (\<lambda>_ t. gmac_inv H X Y t \<and> same_dev s t) t') t"
    unfolding wp_bind
    apply (rule wp_io_inv [OF _ conjunct1 [OF t]], (intro io_within_rules; simp))
    apply (rule wp_maint_inv(2) [OF _ assms(2)], assumption)
    apply (rule wp_load_inv [OF _ assms(2)], assumption)
    using t assms(3) apply (simp_all add: same_dev_def)
    done
qed (use assms in auto)

lemma send_inv:
  assumes I: "gmac_ok H s"
  shows "wp (ipq_eth_send P H packet len) (\<lambda>_ t. gmac_ok H t) s"
proof -
  let ?k = "next_tx (gm s)" and ?N = "gm_NO_OF_TX_DESC H"
  have k: "?k < ring_size H False" "(?k + 1) mod ?N < ring_size H False"
    using I by (simp_all add: gmac_inv_def ring_size_def)
  show ?thesis
    unfolding ipq_eth_send_def Let_def wp_bind wp_gets
    apply (rule wp_maint_inv(2) [OF I k(1)])
    apply (rule wp_load_inv [OF _ k(1)], assumption)
    apply (rule wp_if_cases; unfold wp_bind)
     apply (rule wp_ptr_inv [OF _ k(1)], assumption)
     apply (rule wp_io_inv, (intro io_within_rules; simp), assumption, simp)
    apply (rule wp_store_inv [OF gmac_inv_mono [where X' = "{?k}" and Y' = "{}"] k(1)], assumption, simp, simp, simp)
    apply (rule wp_maint_inv(1) [OF _ k(1)], assumption)
    apply (rule wp_load_inv [OF _ k(1)], assumption)
    apply (rule wp_io_inv, (intro io_within_rules; simp), assumption)
    apply (rule wp_io_inv, (intro io_within_rules; simp), assumption)
    apply (rule tx_wait_inv [OF _ k(1)], assumption)
    apply (unfold case_prod_beta wp_bind)
    apply (rule wp_io_inv, (intro io_within_rules; simp), assumption)
    apply (rule wp_load_inv [OF _ k(1)], assumption)
    apply (unfold wp_modify)
    apply (rule wp_ptr_inv [OF _ k(2)], erule gmac_inv_next)
    apply (rule wp_store_link [OF _ k(1)], erule gmac_inv_next, simp add: ring_size_def)
    apply (rule wp_maint_inv(1) [OF _ k(1)], assumption)
    apply simp
    done
qed

section \<open>The start of the device\<close>

text \<open>The fields of the device that the invariant does not look at.\<close>

lemma gmac_inv_fields [simp]:
  "gmac_inv H X Y (s\<lparr>gm := (gm s)\<lparr>ge_mac_addr := m\<rparr>\<rparr>) = gmac_inv H X Y s"
  "gmac_inv H X Y (s\<lparr>gm := (gm s)\<lparr>mac_unit := v\<rparr>\<rparr>) = gmac_inv H X Y s"
  "gmac_inv H X Y (s\<lparr>gm := (gm s)\<lparr>mac_regs_p := v\<rparr>\<rparr>) = gmac_inv H X Y s"
  "gmac_inv H X Y (s\<lparr>gm := (gm s)\<lparr>dma_regs_p := v\<rparr>\<rparr>) = gmac_inv H X Y s"
  "gmac_inv H X Y (s\<lparr>gm := (gm s)\<lparr>interface := v\<rparr>\<rparr>) = gmac_inv H X Y s"
  "gmac_inv H X Y (s\<lparr>gm := (gm s)\<lparr>mdio_addr := v\<rparr>\<rparr>) = gmac_inv H X Y s"
  "gmac_inv H X Y (s\<lparr>gm := (gm s)\<lparr>speed := v\<rparr>\<rparr>) = gmac_inv H X Y s"
  "gmac_inv H X Y (s\<lparr>gm := (gm s)\<lparr>duplex := v\<rparr>\<rparr>) = gmac_inv H X Y s"
  "gmac_inv H X Y (s\<lparr>gm := (gm s)\<lparr>mac_ps := v\<rparr>\<rparr>) = gmac_inv H X Y s"
  "gmac_inv H X Y (s\<lparr>gm := (gm s)\<lparr>ge_started := b\<rparr>\<rparr>) = gmac_inv H X Y s"
  "gmac_inv H X Y (s\<lparr>gm_rx_packets := (gm_rx_packets s)[k := p]\<rparr>) = gmac_inv H X Y s"
  "gmac_inv H X Y (s\<lparr>gm_initted := b\<rparr>) = gmac_inv H X Y s"
  "gmac_inv H X Y (s\<lparr>s17_init_done := b\<rparr>) = gmac_inv H X Y s"
  "gmac_inv H X Y (s\<lparr>gmac_cfg := c\<rparr>) = gmac_inv H X Y s"
  by (simp_all add: gmac_inv_def)

lemma io_within_mdio [io_within_rules]:
  "io_within no_store (ipq_mdio_write P H a r d)" "io_within no_store (ipq_mdio_read P H a r d)"
  unfolding ipq_mdio_write_def ipq_mdio_read_def Let_def by (intro io_within_rules; simp)+

lemma io_within_setbits [io_within_rules]:
  "io_within no_store (setbits_le32 P a v)" "io_within no_store (clrbits_le32 P a v)" "io_within no_store (clrsetbits_le32 P a c v)"
  unfolding setbits_le32_def clrbits_le32_def clrsetbits_le32_def by (intro io_within_rules; simp)+

lemma io_within_mac [io_within_rules]:
  "io_within no_store (config_auto_neg P H)" "io_within no_store (ipq_eth_wr_macaddr H)" "io_within no_store (ipq_eth_dma_cfg H)"
  "io_within no_store (ipq_eth_mac_cfg H)" "io_within no_store (ipq_eth_flw_cntl_cfg P H)"
  unfolding config_auto_neg_def ipq_eth_wr_macaddr_def ipq_eth_dma_cfg_def ipq_eth_mac_cfg_def ipq_eth_flw_cntl_cfg_def Let_def
  by (intro io_within_rules; simp)+

lemma wp_xmemalign_inv:
  assumes "gmac_inv H X Y s" and "\<And>p t. gmac_inv H X Y t \<Longrightarrow> same_dev s t \<Longrightarrow> Q p t"
  shows "wp (xmemalign P al n) Q s"
  using assms gmac_inv_io [OF assms(1), of "[Memalign al n p]" "[]" for p]
  by (simp add: wp_xmemalign same_dev_def)

lemma rx_setup_inv:
  assumes "gmac_ok H s" and "set is \<subseteq> {0..<gm_NO_OF_RX_DESC H}"
  shows "wp (rx_desc_setup_from P H is) (\<lambda>_ t. gmac_ok H t) s"
  using assms
proof (induction "is" arbitrary: s)
  case (Cons i "is")
  then have i: "i < ring_size H True" "(i + 1) mod gm_NO_OF_RX_DESC H < ring_size H True" and
    more: "\<And>t. gmac_ok H t \<Longrightarrow> wp (rx_desc_setup_from P H is) (\<lambda>_ t. gmac_ok H t) t"
    by (auto simp: ring_size_def intro!: mod_less_divisor)
  show ?case
    unfolding rx_desc_setup_from.simps wp_bind
    apply (rule wp_xmemalign_inv [OF Cons.prems(1)])
    apply (rule wp_if_cases, simp)
    apply (unfold wp_bind wp_modify)
    apply (rule wp_load_inv [OF _ i(1)], simp)
    apply (rule wp_ptr_inv [OF _ i(2)], assumption)
    apply (rule wp_store_inv [OF _ i(1)], assumption, simp add: ring_size_def)
    apply (rule wp_maint_inv(1) [OF _ i(1)], assumption)
    apply (erule more)
    done
qed simp

lemma start_tail_inv:
  assumes I: "gmac_ok H s"
  shows "wp (eth_start_tail P H) (\<lambda>_ t. gmac_ok H t) s"
proof -
  have z: "0 < ring_size H True" "0 < ring_size H False" using I by (auto simp: gmac_inv_def ring_size_def)
  have rings: "wp (ipq_gmac_rx_desc_setup P H) (\<lambda>_ t. gmac_ok H t) t" if "gmac_ok H t" for t
    unfolding ipq_gmac_rx_desc_setup_def wp_bind wp_gets
    apply (rule wp_mono, rule rx_setup_inv [OF that], simp)
    apply (rule wp_if_cases, simp)
    apply (unfold wp_bind, rule wp_ptr_inv [OF _ z(1)], assumption)
    apply (rule wp_io_inv, (intro io_within_rules; simp), assumption, simp)
    done
  show ?thesis
    unfolding eth_start_tail_def wp_bind wp_gets
    apply (rule wp_io_inv [OF _ I], (intro io_within_rules; simp))
    apply (rule wp_io_inv, (intro io_within_rules; simp), assumption)+
    apply (rule wp_mono, erule rings)
    apply (rule wp_if_cases, simp)
    apply (unfold wp_bind, rule wp_ptr_inv [OF _ z(2)], assumption)
    apply (rule wp_io_inv, (intro io_within_rules; simp), assumption)+
    apply simp
    done
qed

text \<open>What every turn of an unbounded loop keeps, the loop keeps.\<close>

lemma mac_reset_wait_inv:
  assumes "mac_reset_wait P H a s = Some t" and "I s" and "\<And>s. I s \<Longrightarrow> I (exec (mac_reset_turn P H a) s)"
  shows "I t"
proof -
  let ?J = "\<lambda>(((P', H'), a'), s) t. P' = P \<and> H' = H \<and> a' = a \<longrightarrow> I s \<longrightarrow> I t"
  have "?J (((P, H), a), s) t"
  proof (rule mac_reset_wait.raw_induct [where Pa = ?J, OF _ assms(1)])
    fix rl P' H' a' s t
    assume IH: "\<And>H a s b y. rl H a s b = Some y \<Longrightarrow> ?J (((H, a), s), b) y"
      and eq: "(if result (mac_reset_turn P' H' a') s AND hdr H' ''DMAMAC_SRST'' = 0 then Some (exec (mac_reset_turn P' H' a') s)
        else rl P' H' a' (exec (mac_reset_turn P' H' a') s)) = Some t"
    from IH [of P' H' a' "exec (mac_reset_turn P' H' a') s" t] eq assms(3) [of s]
    show "?J (((P', H'), a'), s) t" by (auto split: if_splits)
  qed
  with assms(2) show ?thesis by simp
qed

lemma phy_speed_wait_inv:
  assumes "phy_speed_wait P H start s = Some t" and "I s" and "\<And>s. I s \<Longrightarrow> I (exec (phy_speed_turn P H) s)"
    and "\<And>s. I s \<Longrightarrow> I (exec (udelay 10) s)"
  shows "I t"
proof -
  let ?J = "\<lambda>(((P', H'), a), s) t. P' = P \<and> H' = H \<longrightarrow> I s \<longrightarrow> I t"
  have "?J (((P, H), start), s) t"
  proof (rule phy_speed_wait.raw_induct [where Pa = ?J, OF _ assms(1)])
    fix rl P' H' a' s t
    assume IH: "\<And>H a s b y. rl H a s b = Some y \<Longrightarrow> ?J (((H, a), s), b) y"
      and eq: "(if timer_us H' (hist s) - a' < 2000 * 1000 then
         if result (phy_speed_turn P' H') s then Some (exec (phy_speed_turn P' H') s)
         else rl P' H' a' (exec (phy_speed_turn P' H' \<bind> (\<lambda>_. udelay 10)) s)
        else Some s) = Some t"
    from IH [of P' H' a' "exec (phy_speed_turn P' H' \<bind> (\<lambda>_. udelay 10)) s" t] eq assms(3) [of s] assms(4)
    show "?J (((P', H'), a'), s) t" by (auto split: if_splits)
  qed
  with assms(2) show ?thesis by simp
qed

lemma recv_loop_inv:
  assumes "recv_loop P H maxlen len data s = Some (r, t)" and "I s"
    and "\<And>len data s. I s \<Longrightarrow> I (exec (recv_turn P H maxlen len data) s)"
  shows "I t"
proof -
  let ?J = "\<lambda>(((((P', H'), m), len), data), s) y. P' = P \<and> H' = H \<and> m = maxlen \<longrightarrow> I s \<longrightarrow> I (snd y)"
  have "?J (((((P, H), maxlen), len), data), s) (r, t)"
  proof (rule recv_loop.raw_induct [where Pa = ?J, OF _ assms(1)])
    fix rl P' H' m len data s y
    assume IH: "\<And>H m len data s b y. rl H m len data s b = Some y \<Longrightarrow> ?J (((((H, m), len), data), s), b) y"
      and eq: "(case result (recv_turn P' H' m len data) s of (go, len', data') \<Rightarrow>
        if go then rl P' H' m len' data' (exec (recv_turn P' H' m len data) s)
        else Some ((len', data'), exec (recv_turn P' H' m len data) s)) = Some y"
    obtain go len' data' where r: "result (recv_turn P' H' m len data) s = (go, len', data')" by (metis prod_cases3)
    from IH [of P' H' m len' data' "exec (recv_turn P' H' m len data) s" y] eq assms(3) [of s len data]
    show "?J (((((P', H'), m), len), data), s) y" unfolding r by (auto split: if_splits)
  qed
  with assms(2) show ?thesis by simp
qed

lemma mac_reset_inv:
  assumes "ipq_mac_reset P H s = Some t" and "gmac_inv H X Y s"
  shows "gmac_inv H X Y t"
proof -
  have turn: "gmac_inv H X Y (exec (mac_reset_turn P' H' a) s)" if "gmac_inv H X Y s" for P' H' a s
    unfolding mac_reset_turn_def
    by (rule wp_execI, rule wp_io_inv [OF _ that], (intro io_within_rules; simp), assumption)
  have "gmac_inv H X Y (exec (writel v a) s)" for v a
    by (rule wp_execI, rule wp_io_inv [OF _ assms(2)], (intro io_within_rules; simp), assumption)
  then show ?thesis
    using assms(1) by (auto simp: ipq_mac_reset_def Let_def elim: mac_reset_wait_inv intro: turn)
qed

lemma start_inv:
  assumes "ipq_eth_start P H s = Some (rc, t)" and "gmac_ok H s"
  shows "gmac_ok H t"
proof -
  let ?s = "exec (do { upd_gm (next_rx_update (\<lambda>_. 0)); upd_gm (next_tx_update (\<lambda>_. 0)) }) s"
  have "gmac_ok H ?s" using assms(2) by (simp add: gmac_inv_def)
  moreover obtain u where u: "ipq_mac_reset P H ?s = Some u" "run_state (eth_start_tail P H) u = (rc, t)"
    using assms(1) by (auto simp: ipq_eth_start_def bind_eq_Some_conv)
  ultimately have "gmac_ok H u" by (blast intro: mac_reset_inv)
  from wp_execI [OF start_tail_inv [OF this, of P]] u(2) show ?thesis by (simp add: exec_def)
qed

lemma check_link_inv:
  assumes "ipq_phy_check_link P H s = Some (r, t)" and "gmac_ok H s"
  shows "gmac_ok H t"
proof -
  obtain u where u: "(if ge_started (gm s) then Some s
      else Option.bind (ipq_eth_start P H s) (\<lambda>(rc, s). Some (exec (udelay 1000) s))) = Some u"
      "run_state (check_link_tail P H) u = (r, t)"
    using assms(1) by (auto simp: ipq_phy_check_link_def bind_eq_Some_conv split: if_splits)
  have "gmac_ok H (exec (udelay 1000) v)" if "gmac_ok H v" for v
    by (rule wp_execI, rule wp_io_inv [OF _ that], (intro io_within_rules; simp), assumption)
  then have "gmac_ok H u"
    using u(1) assms(2) by (auto simp: bind_eq_Some_conv split: if_splits intro: start_inv)
  then have "wp (check_link_tail P H) (\<lambda>_ t. gmac_ok H t) u"
    unfolding check_link_tail_def
    by (rule wp_io_inv [rotated 1]) (assumption | intro io_within_rules; simp)+
  from wp_execI [OF this] u(2) show ?thesis by (simp add: exec_def)
qed

lemma recv_inv:
  assumes "ipq_eth_recv P H maxlen s = Some (r, t)" and "gmac_ok H s" and "maxlen \<le> 1536"
  shows "gmac_ok H t"
proof -
  have turn: "gmac_ok H (exec (recv_turn P' H maxlen len data) s)" if "gmac_ok H s" for P' len data s
    by (rule wp_execI [OF recv_turn_inv [OF that assms(3)]])
  have z: "0 < ring_size H True" using assms(2) by (auto simp: gmac_inv_def ring_size_def)
  have "wp (recv_head P H) (\<lambda>_ t. gmac_ok H t) s"
    unfolding recv_head_def wp_bind
    apply (rule wp_ptr_inv [OF assms(2) z])
    apply (rule wp_io_inv [OF _ assms(2)], (intro io_within_rules; simp))
    apply (simp add: upd_lines_def gmac_inv_def)
    done
  then have "gmac_ok H (exec (recv_head P H) s)" by (rule wp_execI)
  with assms(1) show ?thesis
    by (auto simp: ipq_eth_recv_def bind_eq_Some_conv elim: recv_loop_inv intro: turn)
qed

section \<open>Initialisation\<close>

lemma wp_alloc_fifo:
  assumes "gmac_inv H X Y s" and "(if rx then Y else X) = UNIV" and "n = ring_size H rx"
    and "\<And>rc t. gmac_inv H X Y t \<Longrightarrow> Q rc t"
  shows "wp (ipq_gmac_alloc_fifo P H n rx) Q s"
  unfolding ipq_gmac_alloc_fifo_def Let_def wp_bind
  apply (rule wp_xmemalign_inv [OF assms(1)])
  apply (rule wp_if_cases; unfold wp_bind)
   apply (rule wp_io_inv, (intro io_within_rules; simp), assumption, simp add: assms(4))
  using assms(2,3) by (cases rx) (simp_all add: upd_lines_def, auto simp: gmac_inv_def ring_size_def chained_def intro!: assms(4))

text \<open>One turn of the loops that link a ring.\<close>

lemma wp_link:
  assumes I: "gmac_inv H (if rx then X else UNIV - {0..<i}) (if rx then UNIV - {0..<i} else X) s" and i: "i < ring_size H rx"
    and d: "\<And>c. gd_data1 (d c) = c"
  shows "wp (do { chain \<leftarrow> desc_ptr rx ((i + 1) mod ring_size H rx); store_desc rx i (d chain); clean_desc P H rx i })
    (\<lambda>_ t. gmac_inv H (if rx then X else UNIV - {0..<Suc i}) (if rx then UNIV - {0..<Suc i} else X) t) s"
proof -
  have j: "(i + 1) mod ring_size H rx < ring_size H rx" using i by (intro mod_less_divisor) simp
  have set: "(UNIV - {0..<i}) - {i} = UNIV - {0..<Suc i}" by auto
  show ?thesis
    unfolding wp_bind
    apply (rule wp_ptr_inv [OF I j])
    apply (rule wp_store_link [OF I i], simp add: d)
    apply (rule wp_maint_inv(1) [OF _ i], assumption)
    apply (cases rx; simp only: set if_True if_False)
    done
qed

lemmas wp_link_tx = wp_link [where rx = False, unfolded ring_size_def if_False]
lemmas wp_link_rx = wp_link [where rx = True, unfolded ring_size_def if_True]

lemma desc_ring_inv:
  assumes I: "gmac_inv H UNIV UNIV s"
  shows "wp (ipq_gmac_tx_rx_desc_ring P H) (\<lambda>rc t. gmac_inv H UNIV UNIV t \<and> (rc = 0 \<longrightarrow> gmac_ok H t)) s"
proof -
  let ?X = "UNIV - {0..<gm_NO_OF_TX_DESC H}" and ?Y = "UNIV - {0..<gm_NO_OF_RX_DESC H}"
  have up: "gmac_inv H X Y s \<Longrightarrow> gmac_inv H UNIV UNIV s" for X Y s by (rule gmac_inv_mono) auto
  have full: "gmac_inv H UNIV UNIV (s\<lparr>gm := (gm s)\<lparr>next_tx := 0, next_rx := 0\<rparr>\<rparr>) \<and>
      gmac_ok H (s\<lparr>gm := (gm s)\<lparr>next_tx := 0, next_rx := 0\<rparr>\<rparr>)" if "gmac_inv H ?X ?Y s" for s
    using up [OF that] gmac_inv_full [OF that] by (auto simp: gmac_inv_def)
  show ?thesis
    unfolding ipq_gmac_tx_rx_desc_ring_def wp_bind
    apply (rule wp_alloc_fifo [OF I], simp, simp add: ring_size_def)
    apply (rule wp_if_cases, simp, unfold wp_bind)
    apply (rule wp_for_upto [where I = "\<lambda>i t. gmac_inv H (UNIV - {0..<i}) UNIV t"], simp)
     apply (rule wp_link_tx, assumption, assumption, simp)
    apply (rule wp_alloc_fifo, assumption, simp, simp add: ring_size_def)
    apply (rule wp_if_cases, simp add: up, unfold wp_bind)
    apply (rule wp_for_upto [where I = "\<lambda>i t. gmac_inv H ?X (UNIV - {0..<i}) t"], simp)
     apply (rule wp_link_rx, assumption, assumption, simp)
    apply (drule full, simp)
    done
qed

text \<open>What holds before the first initialisation, and after one that failed.\<close>

definition gmac_pre :: "ipq806x_hdr \<Rightarrow> gmac \<Rightarrow> bool" where
  "gmac_pre H s \<longleftrightarrow> \<not> ub s \<and> length (tx_lines s) = gm_NO_OF_TX_DESC H \<and> length (rx_lines s) = gm_NO_OF_RX_DESC H \<and>
     length (gm_rx_packets s) = gm_NO_OF_RX_DESC H"

lemma gmac_inv_pre: "gmac_inv H X Y s \<Longrightarrow> gmac_pre H s"
  by (simp add: gmac_inv_def gmac_pre_def)

lemma wp_io_pre:
  assumes "io_within no_store m" and "gmac_pre H s" and "\<And>r t. gmac_pre H t \<Longrightarrow> gm_initted t = gm_initted s \<Longrightarrow> Q r t"
  shows "wp m Q s"
  using assms(1) by (rule io_within_wp) (use assms(2) in \<open>intro assms(3); simp add: gmac_pre_def\<close>)

lemma io_within_xzalloc [io_within_rules]: "(\<And>p. E (Memalign 0 n p)) \<Longrightarrow> io_within E (xzalloc H n)"
  unfolding xzalloc_def by (intro io_within_rules)

lemma init_head_inv:
  assumes I: "gmac_pre H s" and n: "0 < gm_NO_OF_TX_DESC H" "0 < gm_NO_OF_RX_DESC H"
  shows "wp (gmac_init_head P H cfg) (\<lambda>(dev, ipq, ok) t. gmac_inv H UNIV UNIV t \<and> (ok \<longrightarrow> gmac_ok H t)) s"
proof -
  have zero: "gmac_inv H UNIV UNIV (s\<lparr>gm := zero_IpqEthDev H\<rparr>)" if "gmac_pre H s" for s
    using that n by (simp add: gmac_pre_def gmac_inv_def zero_IpqEthDev_def chained_def)
  have mac: "io_within no_store (ipq806x_get_eth_mac_address P H)"
    unfolding ipq806x_get_eth_mac_address_def Let_def by (intro io_within_rules; simp)
  show ?thesis
    unfolding gmac_init_head_def wp_bind
    apply (rule wp_io_pre [OF _ I], (intro io_within_rules; simp))
    apply (rule wp_io_pre, (intro io_within_rules; simp), assumption)
    apply (unfold wp_modify, rule wp_io_inv [OF mac], erule zero)
    apply (unfold case_prod_beta wp_bind wp_modify, rule wp_if_cases, simp, unfold wp_bind wp_modify)
    apply (rule wp_io_inv, (intro io_within_rules; simp), simp)
    apply (rule wp_io_inv, (intro io_within_rules; simp), assumption)+
    apply (rule wp_mono, rule desc_ring_inv, simp add: gmac_inv_def)
    apply simp
    done
qed

text \<open>
  The drivers of the switch and of the pins, which are not in the repository,
  touch the hardware and the console only: no descriptor, no memory of this driver.
\<close>

definition board_ok :: "ipq806x_board \<Rightarrow> bool" where
  "board_ok B \<longleftrightarrow> (\<forall>cfg. io_within bus_access (ipq_switch_init B cfg)) \<and>
     (\<forall>g f d p r e. io_within bus_access (gpio_tlmm_config B g f d p r e))"

lemma board_okD:
  assumes "board_ok B"
  shows "io_within no_store (ipq_switch_init B cfg)" and "io_within no_store (gpio_tlmm_config B g f d p r e)"
    and "io_within bus_access (ipq_switch_init B cfg)" and "io_within bus_access (gpio_tlmm_config B g f d p r e)"
proof -
  show b: "io_within bus_access (ipq_switch_init B cfg)" "io_within bus_access (gpio_tlmm_config B g f d p r e)"
    using assms unfolding board_ok_def by simp_all
  have "no_store e" if "bus_access e" for e using that by (cases e) simp_all
  note quiet = io_within_mono [OF _ this]
  show "io_within no_store (ipq_switch_init B cfg)" by (rule quiet [OF b(1)])
  show "io_within no_store (gpio_tlmm_config B g f d p r e)" by (rule quiet [OF b(2)])
qed

lemma io_within_clk [io_within_rules]:
  "io_within no_store (gmac_sgmii_clk_init P H unit clk_div cfg)" "io_within no_store (ipq_gmac_mii_clk_init P H clk_div cfg)"
  "io_within no_store (ipq_gmac_common_init P H cfg)"
proof -
  show sgmii: "io_within no_store (gmac_sgmii_clk_init P H unit clk_div cfg)" for unit
    unfolding gmac_sgmii_clk_init_def Let_def by (intro io_within_rules; simp)
  show "io_within no_store (ipq_gmac_mii_clk_init P H clk_div cfg)"
    unfolding ipq_gmac_mii_clk_init_def Let_def by (intro io_within_rules sgmii; simp)
  show "io_within no_store (ipq_gmac_common_init P H cfg)"
    unfolding ipq_gmac_common_init_def ipq_gmac_core_reset_def Let_def by (intro io_within_rules; simp)
qed

lemma init_tail_inv:
  assumes "board_ok B" and "gmac_ok H s"
  shows "wp (gmac_init_tail P H B cfg dev clk_div) (\<lambda>_ t. gmac_ok H t) s"
  unfolding gmac_init_tail_def wp_bind wp_gets
  apply (rule wp_io_inv [OF _ assms(2)], (intro io_within_rules; simp))
  apply (unfold wp_when_do, rule if_bool_eq_conj [THEN iffD2], intro conjI impI)
   apply (unfold wp_bind, rule wp_io_inv, use assms(1) in \<open>simp add: board_okD\<close>, assumption)
   apply (simp add: gmac_inv_def)
  apply simp
  done

lemma speed_inv:
  assumes "get_phy_speed_duplexity P H s = Some t" and "gmac_ok H s"
  shows "gmac_ok H t"
proof -
  have "wp (phy_speed_turn P H) (\<lambda>_ t. gmac_ok H t) s" if "gmac_ok H s" for s
    unfolding phy_speed_turn_def Let_def wp_bind wp_gets
    apply (rule wp_io_inv [OF _ that], (intro io_within_rules; simp))
    apply (rule wp_if_cases, unfold wp_bind wp_modify)
     apply (rule wp_io_inv [where H = H and X = "{}" and Y = "{}"], (intro io_within_rules; simp), simp add: gmac_inv_def)
     apply (rule wp_io_inv, (intro io_within_rules; simp), assumption)
     apply simp_all
    done
  then have turn: "gmac_ok H (exec (phy_speed_turn P H) s)" if "gmac_ok H s" for s using that by (blast intro: wp_execI)
  have wait: "gmac_ok H (exec (udelay 10) s)" if "gmac_ok H s" for s
    by (rule wp_execI, rule wp_io_inv [OF _ that], (intro io_within_rules; simp), assumption)
  show ?thesis
    using assms phy_speed_wait_inv [of P H "timer_us H (hist s)" s t "gmac_ok H"] turn wait
    unfolding get_phy_speed_duplexity_def by blast
qed

lemma failed_pre: "gmac_pre H s \<Longrightarrow> wp (gmac_init_failed dev ipq) (\<lambda>r t. r = 0 \<and> gmac_pre H t) s"
  by (simp add: gmac_init_failed_def gmac_pre_def)

lemma gmac_init_inv:
  assumes run: "ipq_gmac_init P H B cfg s = Some (dev, t)" and I: "gmac_pre H s" and B: "board_ok B"
    and n: "0 < gm_NO_OF_TX_DESC H" "0 < gm_NO_OF_RX_DESC H"
  shows "gmac_pre H t \<and> (dev \<noteq> 0 \<longrightarrow> gmac_ok H t)"
proof -
  obtain dev0 ipq ok u where h: "run_state (gmac_init_head P H cfg) s = ((dev0, ipq, ok), u)" by (metis surj_pair)
  have u: "gmac_inv H UNIV UNIV u" "ok \<longrightarrow> gmac_ok H u"
    using init_head_inv [OF I n, of P cfg] h by (simp_all add: wp_def result_def exec_def)
  have fail: ?thesis if "run_state (gmac_init_failed dev0 ipq) v = (dev, t)" "gmac_inv H X Y v" for v X Y
    using failed_pre [OF gmac_inv_pre [OF that(2)], of dev0 ipq] that(1) by (simp add: wp_def result_def exec_def)
  have tail: ?thesis if "run_state (gmac_init_tail P H B cfg dev0 d) v = (dev, t)" "gmac_ok H v" for v d
    using init_tail_inv [OF B that(2), of P cfg dev0 d] that(1) gmac_inv_pre by (auto simp: wp_def exec_def)
  have div: "gmac_ok H (exec (gmac_speed_div H cfg) v)" if "gmac_ok H v" for v
    by (rule wp_execI) (use that in \<open>simp add: gmac_speed_div_def gmac_inv_def\<close>)
  show ?thesis
  proof (cases ok)
    case False
    then show ?thesis using run h fail u(1) by (simp add: ipq_gmac_init_def)
  next
    case True
    then have ok: "gmac_ok H u" using u(2) by simp
    have "(\<exists>v d. run_state (gmac_init_tail P H B cfg dev0 d) v = (dev, t) \<and> gmac_ok H v) \<or>
        (\<exists>v. run_state (gmac_init_failed dev0 ipq) v = (dev, t) \<and> gmac_ok H v)"
    proof (cases "(gc_unit cfg = hdr H ''GMAC_UNIT2'' \<or> gc_unit cfg = hdr H ''GMAC_UNIT3'') \<and> mac_conn_to_phy cfg")
      case False
      then show ?thesis using run h True ok unfolding ipq_gmac_init_def by (simp only: prod.case if_False not_True_eq_False if_True) auto
    next
      case c: True
      obtain v where v: "get_phy_speed_duplexity P H u = Some v" and
        r: "(case run_state (gmac_speed_div H cfg) v of
           (None, s) \<Rightarrow> Some (run_state (gmac_init_failed dev0 ipq) s)
         | (Some clk_div, s) \<Rightarrow> Some (run_state (gmac_init_tail P H B cfg dev0 clk_div) s)) = Some (dev, t)"
        using run unfolding ipq_gmac_init_def h prod.case if_P [OF c]
        by (simp add: True del: if_split) (auto simp: bind_eq_Some_conv)
      have "gmac_ok H (exec (gmac_speed_div H cfg) v)" using div speed_inv [OF v ok] by blast
      then show ?thesis using r by (auto simp: run_state_conv [of "gmac_speed_div H cfg"] split: option.splits)
    qed
    then show ?thesis using tail fail by blast
  qed
qed

text \<open>The initialisation leaves \<open>gm_initted\<close> to the poller.\<close>

lemma io_within_initted:
  assumes "io_within E (m :: (gmac, 'a) state)"
  shows "keeps gm_initted m"
  unfolding keeps_def
proof
  fix s :: gmac
  have "wp m (\<lambda>_ t. gm_initted t = gm_initted s) s" using assms by (rule io_within_wp) simp
  then show "gm_initted (exec m s) = gm_initted s" by (rule wp_execI)
qed

lemma keeps_initted [keeps_rules]:
  "keeps gm_initted (xzalloc H n)" "keeps gm_initted (upd_gm f)" "keeps gm_initted (upd_lines rx g)" "keeps gm_initted (desc_ptr rx i)"
  "keeps gm_initted (store_desc rx i d)" "keeps gm_initted (clean_desc P H rx i)"
  unfolding xzalloc_def upd_lines_def desc_ptr_def store_desc_def clean_desc_def Let_def
  by ((intro keeps_rules; simp) | simp add: keeps_def upd_lines_def)+

lemma gmac_init_initted:
  assumes run: "ipq_gmac_init P H B cfg s = Some (dev, t)" and B: "board_ok B"
  shows "gm_initted t = gm_initted s"
proof -
  have mac: "keeps gm_initted (ipq806x_get_eth_mac_address P H)"
    unfolding ipq806x_get_eth_mac_address_def Let_def by (intro keeps_rules; simp)
  have head: "keeps gm_initted (gmac_init_head P H cfg)"
    unfolding gmac_init_head_def ipq_gmac_tx_rx_desc_ring_def ipq_gmac_alloc_fifo_def Let_def by (intro keeps_rules mac; simp)
  have clk: "keeps gm_initted (ipq_gmac_mii_clk_init P H d cfg)" for d by (rule io_within_initted [OF io_within_clk(2)])
  have switch: "keeps gm_initted (ipq_switch_init B cfg)" using B by (auto intro: io_within_initted board_okD)
  have tail: "keeps gm_initted (gmac_init_tail P H B cfg dev d)" for dev d
    unfolding gmac_init_tail_def by (intro keeps_rules clk switch; simp)
  have fail: "keeps gm_initted (gmac_init_failed dev ipq)" for dev ipq
    unfolding gmac_init_failed_def by (intro keeps_rules; simp)
  have div: "keeps gm_initted (gmac_speed_div H cfg)"
    unfolding gmac_speed_div_def by (intro keeps_rules; simp)
  have turn: "keeps gm_initted (phy_speed_turn P H)"
    unfolding phy_speed_turn_def Let_def by (intro keeps_rules; simp)
  have speed: "gm_initted t = gm_initted s" if "get_phy_speed_duplexity P H s = Some t" for s t
    using phy_speed_wait_inv [of P H "timer_us H (hist s)" s t "\<lambda>t. gm_initted t = gm_initted s"] that keeps_exec [OF turn]
    unfolding get_phy_speed_duplexity_def by (simp add: udelay_def emit_def)
  note k = keeps_exec [OF head] keeps_exec [OF tail] keeps_exec [OF fail] keeps_exec [OF div]
  show ?thesis
    using run
    by (auto simp: ipq_gmac_init_def run_state_conv k bind_eq_Some_conv split: if_splits option.splits prod.splits dest!: speed)
qed

section \<open>The driver\<close>

text \<open>
  A call of the network stack; None when it does not return. \<open>gmac_run\<close> are the
  runs of the driver, with receive buffers no larger than its own.
\<close>

primrec gmac_op :: "platform \<Rightarrow> ipq806x_hdr \<Rightarrow> net_call \<Rightarrow> gmac \<Rightarrow> gmac option" where
  "gmac_op P H Ready s = map_option snd (ipq_phy_check_link P H s)"
| "gmac_op P H (Recv m) s = map_option snd (ipq_eth_recv P H m s)"
| "gmac_op P H (Send p n) s = Some (exec (ipq_eth_send P H p n) s)"

definition gmac_run :: "platform \<Rightarrow> ipq806x_hdr \<Rightarrow> ipq806x_board \<Rightarrow> gmac \<Rightarrow> bool" where
  "gmac_run P H B = stack_run (ipq_net_poller P H B) (gmac_op P H) gm_initted 1536
     (exec ipq_eth_driver_register (gmac_boot H))"

lemma gmac_poller_inv:
  assumes run: "ipq_net_poller P H B s = Some t" and I: "gmac_pre H s" "gm_initted s \<longrightarrow> gmac_ok H s" and B: "board_ok B"
    and n: "0 < gm_NO_OF_TX_DESC H" "0 < gm_NO_OF_RX_DESC H"
  shows "gmac_pre H t \<and> (gm_initted t \<longrightarrow> gmac_ok H t)"
proof (cases "gm_initted s")
  case True
  then show ?thesis using run I by (simp add: ipq_net_poller_def)
next
  case False
  let ?h = "exec (eth_init_head P H B) s"
  have pre: "gmac_pre H (s\<lparr>gmac_cfg := c\<rparr>)" for c using I(1) by (simp add: gmac_pre_def)
  have "wp (eth_init_head P H B) (\<lambda>_ t. gmac_pre H t) s"
    unfolding eth_init_head_def ipq_configure_gpio_def wp_bind wp_gets wp_modify
    apply (rule wp_io_pre [OF _ pre], (intro io_within_rules; simp))
    apply (rule wp_io_pre, (intro io_within_rules; simp), assumption)
    apply (rule wp_io_pre, intro io_within_rules, use B in \<open>simp add: board_okD\<close>, assumption)
    apply simp
    done
  then have h: "gmac_pre H ?h" by (rule wp_execI)
  have "keeps gm_initted (eth_init_head P H B)"
    unfolding eth_init_head_def ipq_configure_gpio_def
    by (intro keeps_rules io_within_initted [OF io_within_clk(3)] io_within_initted [of no_store]; use B in \<open>simp add: board_okD\<close>)
  then have hi: "\<not> gm_initted ?h" using False by (simp add: keeps_def)
  obtain dev u where u: "ipq_gmac_init P H B (result (eth_init_head P H B) s) ?h = Some (dev, u)"
    using run False by (auto simp: ipq_net_poller_def ipq_eth_init_def bind_eq_Some_conv)
  from gmac_init_inv [OF this h B n] have i: "gmac_pre H u" "dev \<noteq> 0 \<longrightarrow> gmac_ok H u" by simp_all
  show ?thesis
  proof (cases "dev = 0")
    case True
    then have "t = u" using run False u by (simp add: ipq_net_poller_def ipq_eth_init_def)
    then show ?thesis using i gmac_init_initted [OF u B] hi by simp
  next
    case False
    then have "t = (exec (emit NetAddDevice) u)\<lparr>gm_initted := True\<rparr>"
      using run \<open>\<not> gm_initted s\<close> u by (simp add: ipq_net_poller_def ipq_eth_init_def)
    moreover have "gmac_ok H (exec (emit NetAddDevice) u)"
      using gmac_inv_io [of H "{}" "{}" u "[NetAddDevice]" "[]"] i(2) False by (simp add: emit_def)
    ultimately show ?thesis using gmac_inv_pre [of H "{}" "{}" t] by simp
  qed
qed

definition gmac_sane :: "ipq806x_hdr \<Rightarrow> ipq806x_board \<Rightarrow> bool" where
  "gmac_sane H B \<longleftrightarrow> board_ok B \<and> 0 < gm_NO_OF_TX_DESC H \<and> 0 < gm_NO_OF_RX_DESC H"

interpretation gmac_runs: polled_driver "ipq_net_poller P H B" "gmac_op P H" gm_initted 1536
    "exec ipq_eth_driver_register (gmac_boot H)" "\<lambda>s. gmac_sane H B \<longrightarrow> gmac_pre H s" "\<lambda>s. gmac_sane H B \<longrightarrow> gmac_ok H s"
  for P H B
proof
  show "(gmac_sane H B \<longrightarrow> gmac_pre H (exec ipq_eth_driver_register (gmac_boot H))) \<and>
      (gm_initted (exec ipq_eth_driver_register (gmac_boot H)) \<longrightarrow> gmac_sane H B \<longrightarrow>
        gmac_ok H (exec ipq_eth_driver_register (gmac_boot H)))"
    by (simp add: gmac_boot_def ipq_eth_driver_register_def gmac_pre_def emit_def)
next
  fix s t assume "gmac_sane H B \<longrightarrow> gmac_pre H s" "gm_initted s \<longrightarrow> gmac_sane H B \<longrightarrow> gmac_ok H s"
    "ipq_net_poller P H B s = Some t"
  then show "(gmac_sane H B \<longrightarrow> gmac_pre H t) \<and> (gm_initted t \<longrightarrow> gmac_sane H B \<longrightarrow> gmac_ok H t)"
    using gmac_poller_inv [of P H B s t] by (auto simp: gmac_sane_def)
next
  fix s t c assume s: "gmac_sane H B \<longrightarrow> gmac_ok H s" "admissible 1536 c" "gmac_op P H c s = Some t"
  have "gmac_ok H t" if "gmac_ok H s"
    using s(2,3) that
    by (cases c) (auto dest: check_link_inv recv_inv intro: wp_execI [OF send_inv])
  then show "(gmac_sane H B \<longrightarrow> gmac_pre H t) \<and> (gmac_sane H B \<longrightarrow> gmac_ok H t)"
    using s(1) gmac_inv_pre by blast
qed

text \<open>
  C34: the type invariant of the GMAC driver. From boot, in every run of polls, link
  checks, transmits of any packet and receives with room for 0 to 1536 bytes (the
  size of a receive buffer; with more, a longer frame would be copied from past its
  end) in any order, whatever the hardware and the allocator answer, no array is
  indexed out of range; and once the device is registered its rings have the sizes
  of the header, its indexes stay inside them, and every descriptor was last stored
  with the address of its successor. (The header gives neither ring size 0, and the
  drivers of the switch and the pins only access their hardware; a call that does
  not return ends the run.)
\<close>

theorem gmac_type_ok:
  assumes "gmac_run P H B s" and "board_ok B" and "0 < gm_NO_OF_TX_DESC H" and "0 < gm_NO_OF_RX_DESC H"
  shows "\<not> ub s \<and> (gm_initted s \<longrightarrow> gmac_ok H s)"
  using gmac_runs.run_law [OF assms(1) [unfolded gmac_run_def]] assms(2-)
  by (simp add: gmac_sane_def gmac_pre_def)

end
