(* ===== verification/Gmac_Init.thy ===== *)
theory Gmac_Init
  imports Gmac_Ring Ipq4019_Net
begin

text \<open>
  The GMAC driver's bring-up: what a failed initialisation leaves behind, when the
  wait for the reset ends, and where the MAC address comes from, beside the rule
  of the new driver.
\<close>

section \<open>What the initialisation allocates and frees\<close>

abbreviation gmem :: "gmac \<Rightarrow> (nat \<times> nat \<times> u32) list \<times> u32 list" where
  "gmem s \<equiv> (allocs (hist s), freed (hist s))"

lemma bus_accesses:
  assumes "list_all bus_access es"
  shows "allocs es = []" and "freed es = []"
proof -
  have "allocs es = [] \<and> freed es = []" using assms
  proof (induction es)
    case (Cons e es)
    then show ?case by (cases e) simp_all
  qed simp
  then show "allocs es = []" and "freed es = []" by simp_all
qed

lemma io_within_gmem:
  assumes "io_within bus_access (m :: (gmac, 'a) state)"
  shows "keeps gmem m"
  unfolding keeps_def
proof
  fix s :: gmac
  have "wp m (\<lambda>_ t. gmem t = gmem s) s" using assms by (rule io_within_wp) (simp add: bus_accesses)
  then show "gmem (exec m s) = gmem s" by (rule wp_execI)
qed

lemma keeps_gmem [keeps_rules]:
  "keeps gmem (upd_gm f)" "keeps gmem (upd_lines rx g)" "keeps gmem (desc_ptr rx i)"
  "keeps gmem (store_desc rx i d)" "keeps gmem (clean_desc P H rx i)" "keeps gmem (setbits_le32 P a v)"
  "keeps gmem (clrbits_le32 P a v)" "keeps gmem (clrsetbits_le32 P a c v)"
  unfolding upd_lines_def desc_ptr_def store_desc_def clean_desc_def setbits_le32_def clrbits_le32_def
    clrsetbits_le32_def Let_def
  by ((intro keeps_rules; simp) | simp add: keeps_def upd_lines_def emit_def)+

lemma keeps_gmemD:
  assumes "keeps gmem m" and "\<And>x t. gmem t = gmem s \<Longrightarrow> Q x t"
  shows "wp m Q s"
  using assms by (simp add: keeps_def wp_def)

lemma init_tail_gmem:
  assumes "board_ok B"
  shows "keeps gmem (gmac_init_tail P H B cfg dev d)"
  unfolding gmac_init_tail_def ipq_gmac_mii_clk_init_def gmac_sgmii_clk_init_def Let_def
  by (intro keeps_rules io_within_gmem [OF board_okD(3) [OF assms]]; simp)

lemma eth_init_head_gmem:
  assumes "board_ok B"
  shows "keeps gmem (eth_init_head P H B)"
  unfolding eth_init_head_def ipq_gmac_common_init_def ipq_gmac_core_reset_def ipq_configure_gpio_def Let_def
  by (intro keeps_rules io_within_gmem [OF board_okD(4) [OF assms]]; simp)

text \<open>
  \<open>ring_allocs P H ps\<close>: the allocations of the transmit and then the receive ring,
  with the pointers ps that xmemalign returned; a NULL is the last.
\<close>

definition ring_allocs :: "platform \<Rightarrow> ipq806x_hdr \<Rightarrow> u32 list \<Rightarrow> (nat \<times> nat \<times> u32) list" where
  "ring_allocs P H ps = map (\<lambda>(n, p). (line_bytes P, n * DESC_FLUSH_SIZE P H, p))
     (zip [gm_NO_OF_TX_DESC H, gm_NO_OF_RX_DESC H] ps)"

text \<open>Whether the pointers are those of two rings, or end with the first NULL.\<close>

definition rings_got :: "u32 list \<Rightarrow> bool" where
  "rings_got ps \<longleftrightarrow> length ps = 2 \<and> 0 \<notin> set ps"

definition ring_missing :: "u32 list \<Rightarrow> bool" where
  "ring_missing ps \<longleftrightarrow> ps = [0] \<or> (\<exists>tx. tx \<noteq> 0 \<and> ps = [tx, 0])"

lemma wp_alloc_fifo_freed:
  assumes "\<And>p t. (\<exists>h al k. p = memalign_ptr P h al k) \<Longrightarrow>
      gmem t = (allocs (hist s) @ [(line_bytes P, n * DESC_FLUSH_SIZE P H, p)], freed (hist s)) \<Longrightarrow>
      Q (if p = 0 then - 1 else 0) t"
  shows "wp (ipq_gmac_alloc_fifo P H n rx) Q s"
proof -
  let ?p = "memalign_ptr P (hist s) (line_bytes P) (n * DESC_FLUSH_SIZE P H)"
  have p: "\<exists>h al k. ?p = memalign_ptr P h al k" by blast
  show ?thesis
  proof (cases "?p = 0")
    case True
    then show ?thesis using assms [OF p] by (simp add: ipq_gmac_alloc_fifo_def wp_xmemalign)
  next
    case False
    then show ?thesis
      using assms [OF p] unfolding ipq_gmac_alloc_fifo_def wp_bind wp_xmemalign Let_def
      by (simp add: upd_lines_def)
  qed
qed

lemma wp_desc_ring:
  assumes "\<And>ps t rc. \<forall>p \<in> set ps. \<exists>h al k. p = memalign_ptr P h al k \<Longrightarrow>
      gmem t = (allocs (hist s) @ ring_allocs P H ps, freed (hist s)) \<Longrightarrow>
      (if rc = 0 then rings_got ps else rc = - 1 \<and> ring_missing ps) \<Longrightarrow> Q rc t"
  shows "wp (ipq_gmac_tx_rx_desc_ring P H) Q s"
proof -
  let ?tx = "\<lambda>p. (line_bytes P, gm_NO_OF_TX_DESC H * DESC_FLUSH_SIZE P H, p)"
  let ?rx = "\<lambda>p. (line_bytes P, gm_NO_OF_RX_DESC H * DESC_FLUSH_SIZE P H, p)"
  have quiet: "keeps gmem (for_each [0..<gm_NO_OF_TX_DESC H] (\<lambda>i. do {
      chain \<leftarrow> desc_ptr False ((i + 1) mod gm_NO_OF_TX_DESC H); store_desc False i (f i chain); clean_desc P H False i }))"
    "keeps gmem (for_each [0..<gm_NO_OF_RX_DESC H] (\<lambda>i. do {
      chain \<leftarrow> desc_ptr True ((i + 1) mod gm_NO_OF_RX_DESC H); store_desc True i (f i chain); clean_desc P H True i }))" for f
    by (intro keeps_rules; simp)+
  show ?thesis
    unfolding ipq_gmac_tx_rx_desc_ring_def wp_bind [of "ipq_gmac_alloc_fifo P H (gm_NO_OF_TX_DESC H) False"]
  proof (rule wp_alloc_fifo_freed)
    fix tx t
    assume tx: "\<exists>h al k. tx = memalign_ptr P h al k" "gmem t = (allocs (hist s) @ [?tx tx], freed (hist s))"
    show "wp (if (if tx = 0 then - 1 else 0) \<noteq> (0 :: int) then ret (- 1) else do {
       for_each [0..<gm_NO_OF_TX_DESC H] (\<lambda>i. do {
         chain \<leftarrow> desc_ptr False ((i + 1) mod gm_NO_OF_TX_DESC H);
         store_desc False i (zero_gmac_desc\<lparr>
           gd_status := (if i = gm_NO_OF_TX_DESC H - 1 then hdr H ''TxDescEndOfRing'' else 0) OR hdr H ''TxDescChain'',
           gd_data1 := chain\<rparr>);
         clean_desc P H False i });
       rc \<leftarrow> ipq_gmac_alloc_fifo P H (gm_NO_OF_RX_DESC H) True;
       if rc \<noteq> 0 then ret (- 1)
       else do {
         for_each [0..<gm_NO_OF_RX_DESC H] (\<lambda>i. do {
           chain \<leftarrow> desc_ptr True ((i + 1) mod gm_NO_OF_RX_DESC H);
           store_desc True i (zero_gmac_desc\<lparr>
             gd_length := (if i = gm_NO_OF_RX_DESC H - 1 then hdr H ''RxDescEndOfRing'' else 0) OR hdr H ''RxDescChain'',
             gd_data1 := chain\<rparr>);
           clean_desc P H True i });
         upd_gm (next_tx_update (\<lambda>_. 0));
         upd_gm (next_rx_update (\<lambda>_. 0));
         ret 0 } }) Q t"
    proof (cases "tx = 0")
      case True
      then show ?thesis
        using assms [of "[tx]" t "- 1"] tx by (simp add: ring_allocs_def ring_missing_def)
    next
      case False
      show ?thesis
        unfolding wp_if wp_bind
      proof (simp only: False if_False simp_thms, rule keeps_gmemD [OF quiet(1)], rule wp_alloc_fifo_freed, goal_cases)
        case (1 x u rx v)
        have v: "gmem v = (allocs (hist s) @ ring_allocs P H [tx, rx], freed (hist s))"
          using tx(2) 1(1,3) by (simp add: ring_allocs_def)
        have ptrs: "\<forall>p \<in> set [tx, rx]. \<exists>h al k. p = memalign_ptr P h al k" using tx(1) 1(2) by simp
        show ?case
        proof (cases "rx = 0")
          case True
          then show ?thesis using assms [OF ptrs v, of "- 1"] False by (simp add: ring_missing_def)
        next
          case f: False
          show ?thesis
          proof (simp only: f if_False simp_thms, rule keeps_gmemD [OF quiet(2)], goal_cases)
            case (1 y w)
            then show ?case
              using assms [OF ptrs, of "exec (do { upd_gm (next_tx_update (\<lambda>_. 0)); upd_gm (next_rx_update (\<lambda>_. 0)) }) w" 0]
                False f v by (simp add: rings_got_def)
          qed
        qed
      qed
    qed
  qed
qed

lemma init_head_gmem:
  assumes "\<And>dev ipq ps t ok. \<forall>p \<in> set ps. \<exists>h al k. p = memalign_ptr P h al k \<Longrightarrow>
      \<exists>h n. dev = xzalloc_ptr H h n \<Longrightarrow> \<exists>h n. ipq = xzalloc_ptr H h n \<Longrightarrow>
      gmem t = (allocs (hist s) @ [(0, sizeof_NetDevice H, dev), (0, sizeof_IpqEthDev H, ipq)] @ ring_allocs P H ps, freed (hist s)) \<Longrightarrow>
      (if ok then rings_got ps else ring_missing ps) \<Longrightarrow> Q (dev, ipq, ok) t"
  shows "wp (gmac_init_head P H cfg) Q s"
proof -
  have addr: "wp (ipq806x_get_eth_mac_address P H) Q t" if "\<And>mac u. gmem u = gmem t \<Longrightarrow> Q (1, mac) u" for Q t
    by (simp add: ipq806x_get_eth_mac_address_def Let_def wp_readl that)
  show ?thesis
    unfolding gmac_init_head_def xzalloc_def wp_bind wp_gets wp_prims wp_ret wp_modify
    apply (rule addr)
    apply simp
    apply (rule keeps_gmemD)
     apply (intro keeps_rules; simp)
    apply simp
    apply (rule wp_desc_ring)
    apply (rule assms, assumption, blast, blast)
    apply (auto split: if_splits)
    done
qed

text \<open>
  Without a link to wait for, the initialisation returns. It fails only for want
  of memory for the rings.
\<close>

lemma eth_init_outcome:
  assumes "board_ok B" and "\<not> mac_conn_to_phy (gmac_cfg s)" and "\<And>h n. xzalloc_ptr H h n \<noteq> 0"
  shows "\<exists>rc t dev ipq ps. ipq_eth_init P H B s = Some (rc, t) \<and>
    allocs (hist t) = allocs (hist s) @ [(0, sizeof_NetDevice H, dev), (0, sizeof_IpqEthDev H, ipq)] @ ring_allocs P H ps \<and>
    (if rc = 0 then rings_got ps \<and> freed (hist t) = freed (hist s)
     else rc = - 1 \<and> ring_missing ps \<and> freed (hist t) = freed (hist s) @ [ipq, dev, ipq]) \<and>
    ((\<forall>h al n. memalign_ptr P h al n = 0) \<longrightarrow> rc = - 1) \<and> ((\<forall>h al n. memalign_ptr P h al n \<noteq> 0) \<longrightarrow> rc = 0)"
proof -
  let ?H = "exec (eth_init_head P H B) s" and ?cfg = "result (eth_init_head P H B) s"
  have cfg: "\<not> mac_conn_to_phy ?cfg" using assms(2) by (simp add: eth_init_head_def)
  obtain dev ipq ok u where h: "run_state (gmac_init_head P H ?cfg) ?H = ((dev, ipq, ok), u)" by (metis surj_pair)
  have gH: "gmem ?H = gmem s" by (rule keeps_exec [OF eth_init_head_gmem [OF assms(1)]])
  have "wp (gmac_init_head P H ?cfg) (\<lambda>(dev, ipq, ok) t. \<exists>ps. (\<forall>p \<in> set ps. \<exists>h al k. p = memalign_ptr P h al k) \<and>
      dev \<noteq> 0 \<and> ipq \<noteq> 0 \<and> (if ok then rings_got ps else ring_missing ps) \<and>
      gmem t = (allocs (hist s) @ [(0, sizeof_NetDevice H, dev), (0, sizeof_IpqEthDev H, ipq)] @ ring_allocs P H ps, freed (hist s))) ?H"
    by (rule init_head_gmem) (use assms(3) gH in auto)
  then obtain ps where ps: "\<forall>p \<in> set ps. \<exists>h al k. p = memalign_ptr P h al k" "dev \<noteq> 0" "ipq \<noteq> 0"
    "if ok then rings_got ps else ring_missing ps"
    "gmem u = (allocs (hist s) @ [(0, sizeof_NetDevice H, dev), (0, sizeof_IpqEthDev H, ipq)] @ ring_allocs P H ps, freed (hist s))"
    using h by (auto simp: wp_def result_def exec_def)
  have answers: "(\<forall>h al n. memalign_ptr P h al n = 0) \<longrightarrow> \<not> ok" "(\<forall>h al n. memalign_ptr P h al n \<noteq> 0) \<longrightarrow> ok"
    using ps(1,4) by (fastforce simp: rings_got_def ring_missing_def numeral_2_eq_2 length_Suc_conv split: if_splits)+
  show ?thesis
  proof (cases ok)
    case True
    let ?t = "exec (gmac_init_tail P H B ?cfg dev 0) u"
    have run: "ipq_gmac_init P H B ?cfg ?H = Some (dev, ?t)"
      using h True cfg by (simp add: ipq_gmac_init_def run_state_conv gmac_init_tail_def)
    have "gmem (exec (emit NetAddDevice) ?t) = gmem u"
      using keeps_exec [OF init_tail_gmem [OF assms(1)], of P H ?cfg dev 0 u] by (simp add: emit_def)
    then show ?thesis
      using True ps answers run
      by (intro exI [of _ 0] exI [of _ "exec (emit NetAddDevice) ?t"] exI [of _ dev] exI [of _ ipq] exI [of _ ps])
        (simp add: ipq_eth_init_def)
  next
    case False
    let ?t = "exec (gmac_init_failed dev ipq) u"
    have run: "ipq_gmac_init P H B ?cfg ?H = Some (0, ?t)"
      using h False by (simp add: ipq_gmac_init_def run_state_conv gmac_init_failed_def)
    have "gmem ?t = (allocs (hist u), freed (hist u) @ [ipq, dev, ipq])"
      using ps(2,3) by (simp add: gmac_init_failed_def emit_def when_do_def)
    then show ?thesis
      using False ps answers run
      by (intro exI [of _ "- 1"] exI [of _ ?t] exI [of _ dev] exI [of _ ipq] exI [of _ ps]) (simp add: ipq_eth_init_def)
  qed
qed

text \<open>
  C38: with no PHY to wait for, the initialisation of the GMAC driver returns, and
  has allocated the network device, the driver's own structure and then the rings,
  transmit first. It returns 0 with both rings had and nothing freed, or -1: then the
  last of the ring allocations, the only one to fail, gave NULL, and the driver's own
  structure has been freed, the network device, and the driver's own structure a
  second time. It does fail when every ring allocation does, and succeeds when none
  does. (The drivers of the switch and the pins only access their hardware, and
  xzalloc, which dies for want of memory, returns no NULL.)
\<close>

theorem gmac_init_failure:
  assumes "board_ok B" and "\<not> mac_conn_to_phy (gmac_cfg s)" and "\<And>h n. xzalloc_ptr H h n \<noteq> 0"
  shows "\<exists>rc t dev ipq ps. ipq_eth_init P H B s = Some (rc, t) \<and>
    allocs (hist t) = allocs (hist s) @ [(0, sizeof_NetDevice H, dev), (0, sizeof_IpqEthDev H, ipq)] @ ring_allocs P H ps \<and>
    (if rc = 0 then rings_got ps \<and> freed (hist t) = freed (hist s)
     else rc = - 1 \<and> ring_missing ps \<and> freed (hist t) = freed (hist s) @ [ipq, dev, ipq]) \<and>
    ((\<forall>h al n. memalign_ptr P h al n = 0) \<longrightarrow> rc = - 1) \<and> ((\<forall>h al n. memalign_ptr P h al n \<noteq> 0) \<longrightarrow> rc = 0)"
  using assms by (rule eth_init_outcome)

section \<open>The wait for the reset\<close>

text \<open>The history after j polls of the reset bit, each 10 microseconds and a read.\<close>

definition reset_poll :: "platform \<Rightarrow> u32 \<Rightarrow> event list \<Rightarrow> event list" where
  "reset_poll P a h = Rd a (bus_read P (Udelay 10 # h) a) # Udelay 10 # h"

definition reset_polled :: "platform \<Rightarrow> u32 \<Rightarrow> event list \<Rightarrow> nat \<Rightarrow> event list" where
  "reset_polled P a h j = (reset_poll P a ^^ j) h"

lemma reset_polled_simps [simp]:
  "reset_polled P a h 0 = h" "reset_polled P a (reset_poll P a h) j = reset_polled P a h (Suc j)"
  by (simp_all add: reset_polled_def funpow_swap1)

definition reset_clear :: "platform \<Rightarrow> ipq806x_hdr \<Rightarrow> u32 \<Rightarrow> event list \<Rightarrow> nat \<Rightarrow> bool" where
  "reset_clear P H a h j \<longleftrightarrow> bus_read P (Udelay 10 # reset_polled P a h j) a AND hdr H ''DMAMAC_SRST'' = 0"

lemma reset_turn:
  "result (mac_reset_turn P H a) s = bus_read P (Udelay 10 # hist s) a"
  "exec (mac_reset_turn P H a) s = s\<lparr>hist := reset_poll P a (hist s)\<rparr>"
  by (simp_all add: mac_reset_turn_def udelay_def readl_def emit_def reset_poll_def)

lemma reset_wait_returns:
  assumes "reset_clear P H a (hist s) n" and "\<And>j. j < n \<Longrightarrow> \<not> reset_clear P H a (hist s) j"
  shows "mac_reset_wait P H a s = Some (s\<lparr>hist := reset_polled P a (hist s) (Suc n)\<rparr>)"
  using assms
proof (induction n arbitrary: s)
  case 0
  then show ?case
    by (subst mac_reset_wait.simps) (simp add: reset_turn reset_clear_def, simp add: reset_polled_def)
next
  case (Suc n)
  let ?t = "s\<lparr>hist := reset_poll P a (hist s)\<rparr>"
  have shift: "reset_clear P H a (hist ?t) j = reset_clear P H a (hist s) (Suc j)" for j
    by (simp add: reset_clear_def)
  have "mac_reset_wait P H a ?t = Some (?t\<lparr>hist := reset_polled P a (hist ?t) (Suc n)\<rparr>)"
    by (rule Suc.IH) (use Suc.prems shift in auto)
  moreover have "\<not> reset_clear P H a (hist s) 0" using Suc.prems(2) by simp
  ultimately show ?case
    by (subst mac_reset_wait.simps) (simp add: reset_turn reset_clear_def)
qed

lemma reset_wait_found:
  assumes "mac_reset_wait P H a s = Some t"
  shows "\<exists>j. reset_clear P H a (hist s) j"
proof (rule ccontr)
  assume never: "\<nexists>j. reset_clear P H a (hist s) j"
  let ?J = "\<lambda>(((P', H'), a'), u) t. P' = P \<and> H' = H \<and> a' = a \<longrightarrow> (\<exists>j. hist u = reset_polled P a (hist s) j) \<longrightarrow> False"
  have "?J (((P, H), a), s) t"
  proof (rule mac_reset_wait.raw_induct [where Pa = ?J, OF _ assms])
    fix rl P' H' a' u t
    assume IH: "\<And>H a s b y. rl H a s b = Some y \<Longrightarrow> ?J (((H, a), s), b) y"
      and eq: "(if result (mac_reset_turn P' H' a') u AND hdr H' ''DMAMAC_SRST'' = 0 then Some (exec (mac_reset_turn P' H' a') u)
        else rl P' H' a' (exec (mac_reset_turn P' H' a') u)) = Some t"
    have step: "reset_poll P a (reset_polled P a h j) = reset_polled P a h (Suc j)" for h j by (simp add: reset_polled_def)
    from IH [of P' H' a' "exec (mac_reset_turn P' H' a') u" t] eq never
    show "?J (((P', H'), a'), u) t"
      by (auto simp: reset_turn reset_clear_def step split: if_splits)
  qed
  moreover have "hist s = reset_polled P a (hist s) 0" by simp
  ultimately show False by (simp only: prod.case) blast
qed

text \<open>
  C39: the reset of the GMAC returns exactly when some poll, 10 microseconds after
  the one before, finds the reset bit clear, and then after the first such poll;
  against hardware that never clears it the call does not return.
\<close>

theorem mac_reset_returns_iff:
  "let a = dma_regs_p (gm s) + hdr H ''busmode''; h = Wr a (hdr H ''DMAMAC_SRST'') # hist s in
    (\<forall>n. reset_clear P H a h n \<and> (\<forall>j < n. \<not> reset_clear P H a h j) \<longrightarrow>
       ipq_mac_reset P H s = Some (s\<lparr>hist := reset_polled P a h (Suc n)\<rparr>)) \<and>
    ((\<forall>n. \<not> reset_clear P H a h n) \<longrightarrow> ipq_mac_reset P H s = None)"
proof -
  let ?a = "dma_regs_p (gm s) + hdr H ''busmode''"
  let ?s = "s\<lparr>hist := Wr ?a (hdr H ''DMAMAC_SRST'') # hist s\<rparr>"
  have "ipq_mac_reset P H s = mac_reset_wait P H ?a ?s"
    by (simp add: ipq_mac_reset_def Let_def writel_def emit_def)
  then show ?thesis
    using reset_wait_returns [of P H ?a ?s] reset_wait_found [of P H ?a ?s]
    by (cases "mac_reset_wait P H ?a ?s") (auto simp: Let_def)
qed

section \<open>The MAC address\<close>

text \<open>The address for want of one in sysinfo, from the chip's unique number.\<close>

definition scrambled_mac :: "platform \<Rightarrow> ipq806x_hdr \<Rightarrow> event list \<Rightarrow> u8 list" where
  "scrambled_mac P H h = (let lo = bus_read P h (hdr H ''QFPROM_CORR_PTE_ROW0_LSB'');
       hi = bus_read P (Rd (hdr H ''QFPROM_CORR_PTE_ROW0_LSB'') lo # h) (hdr H ''QFPROM_CORR_PTE_ROW0_MSB'')
     in 0x02 # take 5 (sha1 H (le_bytes lo @ le_bytes hi)))"

text \<open>
  C40: the port and the driver it is modelled on choose the same MAC address when
  coreboot left one in sysinfo that is not all zeros. Without one both take a
  locally administered unicast address, but not the same: the older driver derives
  it from the chip's unique number, the port gives every board the same one.
  Neither address is zero, and the port's state changes only by a console line.
\<close>

theorem mac_addresses_agree:
  "let s = map (sysinfo_mac P) [0..<6];
       (rc, m) = result (get_eth_mac_address P) w;
       (rc', m') = result (ipq806x_get_eth_mac_address P H) v
   in rc = 1 \<and> rc' = 1 \<and>
     (if s \<noteq> replicate 6 0 then m = s \<and> m' = s
      else m = [0x02, 0x00, 0xc0, 0xff, 0xee, 0x01] \<and> m' = scrambled_mac P H (hist v)) \<and>
     m \<noteq> replicate 6 0 \<and> m' \<noteq> replicate 6 0 \<and>
     (s = replicate 6 0 \<longrightarrow> bit (m ! 0) 1 \<and> \<not> bit (m ! 0) 0 \<and> bit (m' ! 0) 1 \<and> \<not> bit (m' ! 0) 0) \<and>
     (\<exists>cs. exec (get_eth_mac_address P) w = w\<lparr>console := cs @ console w\<rparr>)"
proof -
  let ?s = "map (sysinfo_mac P) [0..<6]"
  have z: "(\<exists>b \<in> set ?s. b \<noteq> 0) \<longleftrightarrow> ?s \<noteq> replicate 6 0"
    by (simp add: upt_conv_Cons numeral_eq_Suc)
  show ?thesis
  proof (cases "?s = replicate 6 0")
    case True
    then have zero: "\<not> (\<exists>b \<in> set ?s. b \<noteq> 0)" using z by simp
    have "result (ipq806x_get_eth_mac_address P H) v = (1, scrambled_mac P H (hist v))"
      using zero by (simp add: ipq806x_get_eth_mac_address_def scrambled_mac_def Let_def printf_def readl_def emit_def del: set_map)
    moreover have "result (get_eth_mac_address P) w = (1, [0x02, 0x00, 0xc0, 0xff, 0xee, 0x01])"
      using zero by (simp add: get_eth_mac_address_def Let_def printf_def del: set_map)
    moreover have "exec (get_eth_mac_address P) w =
        w\<lparr>console := [(''ipq4019: no MAC in sysinfo, using locally-administered'', [])] @ console w\<rparr>"
      using zero by (simp add: get_eth_mac_address_def Let_def printf_def del: set_map)
    then have "\<exists>cs. exec (get_eth_mac_address P) w = w\<lparr>console := cs @ console w\<rparr>" by (rule exI)
    ultimately show ?thesis
      using True by (auto simp: Let_def scrambled_mac_def bit_simps numeral_eq_Suc)
  next
    case False
    then have some: "\<exists>b \<in> set ?s. b \<noteq> 0" using z by simp
    have "result (ipq806x_get_eth_mac_address P H) v = (1, ?s)" "result (get_eth_mac_address P) w = (1, ?s)"
      using some by (simp_all add: ipq806x_get_eth_mac_address_def get_eth_mac_address_def Let_def del: set_map)
    moreover have "exec (get_eth_mac_address P) w = w\<lparr>console := [] @ console w\<rparr>"
      using some by (simp add: get_eth_mac_address_def Let_def del: set_map)
    then have "\<exists>cs. exec (get_eth_mac_address P) w = w\<lparr>console := cs @ console w\<rparr>" by (rule exI)
    ultimately show ?thesis using False by (auto simp: Let_def)
  qed
qed

section \<open>Concrete runs\<close>

definition quiet_board :: ipq806x_board where
  "quiet_board = \<lparr>ipq_switch_init = \<lambda>_. ret (), gpio_tlmm_config = \<lambda>_ _ _ _ _ _. ret ()\<rparr>"

lemma quiet_board_ok: "board_ok quiet_board"
  by (simp add: board_ok_def quiet_board_def io_within_ret)

definition starved :: platform where
  "starved = silent\<lparr>memalign_ptr := \<lambda>_ _ _. 0\<rparr>"

lemma small_alloc: "xzalloc_ptr small_hdr h n \<noteq> 0"
  by (simp add: small_hdr_def)

lemma boot_unit:
  "\<not> mac_conn_to_phy (gmac_cfg (exec ipq_eth_driver_register (gmac_boot H)))"
  "gmem (exec ipq_eth_driver_register (gmac_boot H)) = ([], [])"
  by (simp_all add: gmac_boot_def ipq_eth_driver_register_def emit_def)

theorem gmac_init_failure_witness:
  "(\<exists>t dev ipq ps. ipq_eth_init starved small_hdr quiet_board (exec ipq_eth_driver_register (gmac_boot small_hdr)) = Some (- 1, t) \<and>
     allocs (hist t) = [(0, 36, dev), (0, 160, ipq)] @ ring_allocs starved small_hdr ps \<and> ring_missing ps \<and>
     freed (hist t) = [ipq, dev, ipq]) \<and>
   (\<exists>t tx rx. ipq_eth_init silent small_hdr quiet_board (exec ipq_eth_driver_register (gmac_boot small_hdr)) = Some (0, t) \<and>
     drop 2 (allocs (hist t)) = [(64, 128, tx), (64, 128, rx)] \<and> freed (hist t) = [])"
proof -
  have sizes: "sizeof_NetDevice small_hdr = 36" "sizeof_IpqEthDev small_hdr = 160" by (simp_all add: small_hdr_def)
  have rings: "\<exists>tx rx. ring_allocs silent small_hdr ps = [(64, 128, tx), (64, 128, rx)]" if "rings_got ps" for ps
    using that by (auto simp: rings_got_def numeral_2_eq_2 length_Suc_conv ring_allocs_def small_hdr_def DESC_FLUSH_SIZE_def)
  note f = gmac_init_failure [OF quiet_board_ok boot_unit(1) small_alloc]
  show ?thesis
    using f [of starved] f [of silent] boot_unit(2) rings
    by (fastforce simp: sizes starved_def split: if_splits)
qed

theorem mac_reset_returns_iff_witness:
  "ipq_mac_reset silent small_hdr running_gmac = Some (running_gmac\<lparr>hist := [Rd 0 0, Udelay 10, Wr 0 1]\<rparr>)"
proof -
  have reg: "dma_regs_p (gm running_gmac) + hdr small_hdr ''busmode'' = 0" "hdr small_hdr ''DMAMAC_SRST'' = 1" "hist running_gmac = []"
    by (simp_all add: running_gmac_def zero_IpqEthDev_def small_hdr_def two_ring_def)
  have "reset_clear silent small_hdr 0 h 0" for h by (simp add: reset_clear_def)
  then show ?thesis
    using mac_reset_returns_iff [of running_gmac small_hdr silent] unfolding Let_def reg
    by (auto dest!: spec [of _ 0] simp: reset_polled_def reset_poll_def)
qed

theorem mac_addresses_agree_witness:
  "snd (result (get_eth_mac_address silent) boot) = [0x02, 0x00, 0xc0, 0xff, 0xee, 0x01] \<and>
   snd (result (ipq806x_get_eth_mac_address silent small_hdr) running_gmac) = [2, 0, 0, 0, 0, 0]"
  using mac_addresses_agree [of silent boot small_hdr running_gmac]
  by (auto simp: Let_def upt_conv_Cons numeral_eq_Suc small_hdr_def scrambled_mac_def split: prod.splits)

theorem gmac_type_ok_witness:
  "\<exists>s. gmac_run silent small_hdr quiet_board s \<and> gm_initted s \<and> gmac_ok small_hdr s"
proof -
  let ?s = "exec ipq_eth_driver_register (gmac_boot small_hdr)"
  have n: "0 < gm_NO_OF_TX_DESC small_hdr" "0 < gm_NO_OF_RX_DESC small_hdr" by (simp_all add: small_hdr_def)
  obtain t where "ipq_eth_init silent small_hdr quiet_board ?s = Some (0, t)"
    using eth_init_outcome [OF quiet_board_ok boot_unit(1) small_alloc, of silent] by (auto split: if_splits)
  then have "ipq_net_poller silent small_hdr quiet_board ?s = Some (t\<lparr>gm_initted := True\<rparr>)"
    by (simp add: ipq_net_poller_def) (simp add: ipq_eth_driver_register_def gmac_boot_def emit_def)
  then have "gmac_run silent small_hdr quiet_board (t\<lparr>gm_initted := True\<rparr>)"
    unfolding gmac_run_def by (rule stack_run.polled [OF stack_run.booted])
  from gmac_type_ok [OF this quiet_board_ok n] this show ?thesis by auto
qed

end
