(* ===== verification/Gmac_Start.thy ===== *)
theory Gmac_Start
  imports Gmac_Init
begin

text \<open>
  The start of the GMAC: the hardware is told to run only when it has both rings
  and every descriptor of the receive ring is its own, in memory, with a buffer.
\<close>

section \<open>Descriptors in memory\<close>

text \<open>
  What the events say of descriptor i of a ring, whose n bytes of cache lines are at
  a: \<open>cached_store\<close> is a store that is still in the cache only, \<open>stored_gmac\<close> the
  last one that cleaning has brought to memory. Invalidating a line discards what
  had been stored to it.
\<close>

fun cached_store :: "u32 \<Rightarrow> nat \<Rightarrow> bool \<Rightarrow> nat \<Rightarrow> event list \<Rightarrow> gmac_desc option" where
  "cached_store a n rx i [] = None"
| "cached_store a n rx i (StGmac r k d # es) = (if r = rx \<and> k = i then Some d else cached_store a n rx i es)"
| "cached_store a n rx i (Clean x m # es) = (if x = a \<and> n \<le> m then None else cached_store a n rx i es)"
| "cached_store a n rx i (Inval x m # es) = (if x = a \<and> n \<le> m then None else cached_store a n rx i es)"
| "cached_store a n rx i (_ # es) = cached_store a n rx i es"

fun stored_gmac :: "u32 \<Rightarrow> nat \<Rightarrow> bool \<Rightarrow> nat \<Rightarrow> event list \<Rightarrow> gmac_desc option" where
  "stored_gmac a n rx i [] = None"
| "stored_gmac a n rx i (Clean x m # es) =
     (if x = a \<and> n \<le> m \<and> cached_store a n rx i es \<noteq> None then cached_store a n rx i es else stored_gmac a n rx i es)"
| "stored_gmac a n rx i (_ # es) = stored_gmac a n rx i es"

section \<open>Filling the receive ring\<close>

text \<open>The length bits of a descriptor for a buffer of the largest frame.\<close>

definition rx_length_bits :: "ipq806x_hdr \<Rightarrow> u32" where
  "rx_length_bits H = push_bit (unat (hdr H ''DescSize1Shift'')) (hdr H ''ETH_MAX_FRAME_LEN'') AND hdr H ''DescSize1Mask''"

text \<open>
  In memory descriptor i of the receive ring of p is the hardware's, has buffer
  \<open>ps ! i\<close> with its length and the address of its successor, and nothing is stored
  to it behind the hardware's back.
\<close>

definition rx_armed :: "platform \<Rightarrow> ipq806x_hdr \<Rightarrow> IpqEthDev \<Rightarrow> u32 list \<Rightarrow> event list \<Rightarrow> nat \<Rightarrow> bool" where
  "rx_armed P H p ps h i \<longleftrightarrow> (let a = desc_rx p ! i; n = DESC_FLUSH_SIZE P H in
     cached_store a n True i h = None \<and>
     (\<exists>d. stored_gmac a n True i h = Some d \<and> gd_status d = hdr H ''DescOwnByDma'' \<and> gd_buffer1 d = ps ! i \<and>
       gd_length d AND rx_length_bits H = rx_length_bits H \<and>
       gd_data1 d = desc_rx p ! ((i + 1) mod gm_NO_OF_RX_DESC H)))"

lemma rx_armed_quiet [simp]:
  "rx_armed P H p ps (Memalign al k q # h) i = rx_armed P H p ps h i"
  "rx_armed P H p ps (Rd x v # h) i = rx_armed P H p ps h i"
  "rx_armed P H p ps (Wr x v # h) i = rx_armed P H p ps h i"
  by (simp_all add: rx_armed_def)









section \<open>The register writes of the start\<close>







section \<open>The order of the start\<close>















end
