(* ===== verification/Peek.thy ===== *)
theory Peek
  imports Drv_Prelude "HOL-Library.Char_ord"
begin

unbundle bit_operations_syntax

text \<open>
  tmp/peek.c, the tool that reads words of physical memory through /dev/mem, as it
  is built for the router (32-bit int, long, size_t and pointers). The kernel is a
  parameter: what open, sysconf and mmap return, and what a load of a virtual
  address gives, None for one that ends in SIGBUS or SIGSEGV and thus in the
  handler of the tool.
\<close>

section \<open>The library functions it parses with\<close>

definition c_isspace :: "char \<Rightarrow> bool" where
  "c_isspace c \<longleftrightarrow> c = CHR '' '' \<or> (9 \<le> (of_char c :: nat) \<and> (of_char c :: nat) \<le> 13)"

definition digit_val :: "char \<Rightarrow> nat option" where
  "digit_val c = (let n = of_char c :: nat in
     if 48 \<le> n \<and> n \<le> 57 then Some (n - 48)
     else if 97 \<le> n \<and> n \<le> 122 then Some (n - 87)
     else if 65 \<le> n \<and> n \<le> 90 then Some (n - 55) else None)"

definition is_digit :: "nat \<Rightarrow> char \<Rightarrow> bool" where
  "is_digit b c = (case digit_val c of None \<Rightarrow> False | Some d \<Rightarrow> d < b)"

definition digits_value :: "nat \<Rightarrow> string \<Rightarrow> nat" where
  "digits_value b s = foldl (\<lambda>n c. n * b + the (digit_val c)) 0 (takeWhile (is_digit b) s)"

fun parse_sign :: "string \<Rightarrow> bool \<times> string" where
  "parse_sign [] = (False, [])"
| "parse_sign (c # cs) = (if c = CHR ''-'' then (True, cs) else if c = CHR ''+'' then (False, cs) else (False, c # cs))"

text \<open>Base 0 takes the base from the prefix of the digits.\<close>

fun parse_prefix :: "string \<Rightarrow> nat \<times> string" where
  "parse_prefix (z # x # d # cs) = (if z = CHR ''0'' \<and> (x = CHR ''x'' \<or> x = CHR ''X'') \<and> is_digit 16 d then (16, d # cs)
     else if z = CHR ''0'' then (8, z # x # d # cs) else (10, z # x # d # cs))"
| "parse_prefix s = (if s \<noteq> [] \<and> hd s = CHR ''0'' then (8, s) else (10, s))"

text \<open>\<open>strtoul (s, NULL, 0)\<close>: out of range gives the largest value, a sign negates.\<close>

definition strtoul0 :: "string \<Rightarrow> 32 word" where
  "strtoul0 s = (case parse_sign (dropWhile c_isspace s) of (neg, s) \<Rightarrow>
     case parse_prefix s of (b, s) \<Rightarrow>
     let n = digits_value b s in
     if 2 ^ 32 \<le> n then - 1 else if neg then - of_nat n else of_nat n)"

definition atoi :: "string \<Rightarrow> int" where
  "atoi s = (case parse_sign (dropWhile c_isspace s) of (neg, s) \<Rightarrow>
     if neg then - int (digits_value 10 s) else int (digits_value 10 s))"

section \<open>The program\<close>

datatype peek_event =
    PkErr string
  | PkSigaction string
  | PkRead "32 word" "32 word option"
  | PkLine "32 word" "32 word option"

record peek =
  pk_hist :: "peek_event list"
  pk_ub :: bool

record peek_env =
  pe_fd :: int
  pe_pagesize :: "32 word"
  pe_mmap :: "32 word \<Rightarrow> 32 word \<Rightarrow> 32 word option"
  pe_load :: "peek_event list \<Rightarrow> 32 word \<Rightarrow> 32 word option"

definition pk_emit :: "peek_event \<Rightarrow> (peek, unit) state" where
  "pk_emit e = modify (\<lambda>s. s\<lparr>pk_hist := e # pk_hist s\<rparr>)"

text \<open>A signed int operation with an exact result that does not fit is undefined.\<close>

definition int_op :: "int \<Rightarrow> (peek, int) state" where
  "int_op v = do { when_do (\<not> (- (2 ^ 31) \<le> v \<and> v < 2 ^ 31)) (modify (\<lambda>s. s\<lparr>pk_ub := True\<rparr>)); ret v }"

text \<open>
  One turn of the loop. The signal saved mask and the jump back make the load end
  with None, and the line of a fault is printed instead of that of a value.
\<close>

definition peek_word :: "peek_env \<Rightarrow> 32 word \<Rightarrow> 32 word \<Rightarrow> 32 word \<Rightarrow> nat \<Rightarrow> (peek, unit) state" where
  "peek_word E base m inoff i = do {
     off \<leftarrow> int_op (int i * 4);
     let addr = base + of_int off;
     let p = m + inoff + of_int off;
     h \<leftarrow> gets pk_hist;
     let v = pe_load E h p;
     pk_emit (PkRead p v);
     pk_emit (PkLine addr v) }"

definition peek_main :: "peek_env \<Rightarrow> string list \<Rightarrow> (peek, int) state" where
  "peek_main E argv =
     (if length argv < 2 then do { pk_emit (PkErr ''usage: peek <hex-addr> [<count>]''); ret 1 }
      else do {
        let base = strtoul0 (argv ! 1);
        count \<leftarrow> (if 2 < length argv then int_op (atoi (argv ! 2)) else ret 1);
        if pe_fd E < 0 then do { pk_emit (PkErr ''open /dev/mem''); ret 1 }
        else do {
          let pagesize = pe_pagesize E;
          let pgoff = base AND NOT (pagesize - 1);
          let inoff = base - pgoff;
          bytes \<leftarrow> int_op (count * 4);
          let maplen = ((inoff + of_int bytes) + pagesize - 1) AND NOT (pagesize - 1);
          case pe_mmap E maplen pgoff of
            None \<Rightarrow> do { pk_emit (PkErr ''mmap''); ret 1 }
          | Some m \<Rightarrow> do {
              pk_emit (PkSigaction ''SIGBUS'');
              pk_emit (PkSigaction ''SIGSEGV'');
              for_each [0..<nat count] (peek_word E base m inoff);
              ret 0 } } })"

section \<open>The pages it maps\<close>

lemma unat_take_bit: "unat (take_bit k x) = unat (x :: 32 word) mod 2 ^ k"
  by (simp only: unsigned_take_bit_eq) (simp add: take_bit_eq_mod)

lemma page_split:
  fixes x :: "32 word"
  assumes "k < 32"
  shows "x - (x AND NOT (2 ^ k - 1)) = take_bit k x" "unat (x AND NOT (2 ^ k - 1)) = unat x - unat x mod 2 ^ k"
proof -
  have m: "2 ^ k - 1 = (mask k :: 32 word)" by (simp add: mask_eq_exp_minus_1)
  have "NOT x AND take_bit k x = 0" "x AND NOT (take_bit k x) = x AND NOT (mask k)"
    by (auto simp: bit_eq_iff bit_simps)
  then have e: "x AND NOT (2 ^ k - 1) = x - take_bit k x"
    unfolding m by (metis disjunctive_diff_eq_and_not)
  then show "x - (x AND NOT (2 ^ k - 1)) = take_bit k x" by simp
  have u: "unat (take_bit k x) = unat x mod 2 ^ k" by (rule unat_take_bit)
  have "take_bit k x \<le> x" by (simp add: word_le_nat_alt u)
  then show "unat (x AND NOT (2 ^ k - 1)) = unat x - unat x mod 2 ^ k"
    unfolding e by (simp add: unat_sub u)
qed

lemma page_cover:
  fixes x :: "32 word"
  assumes "k < 32" and "unat x + n + 2 ^ k \<le> 2 ^ 32"
  shows "unat x + n \<le> unat ((x + of_nat n + 2 ^ k - 1) AND NOT (2 ^ k - 1))"
proof -
  have p: "(1::nat) \<le> 2 ^ k" by simp
  have "of_nat (unat x + n + 2 ^ k - 1) = of_nat (unat x + n + 2 ^ k) - (of_nat 1 :: 32 word)"
    using p by (intro of_nat_diff) linarith
  then have e: "x + of_nat n + 2 ^ k - 1 = of_nat (unat x + n + 2 ^ k - 1)" by simp
  have "unat x + n + 2 ^ k - 1 < 2 ^ 32" using assms(2) p by linarith
  then have u: "unat (of_nat (unat x + n + 2 ^ k - 1) :: 32 word) = unat x + n + 2 ^ k - 1"
    by (simp add: unat_of_nat)
  have "a + (2 ^ k - 1) - (a + (2 ^ k - 1)) mod 2 ^ k \<ge> a" for a :: nat
  proof -
    have "(a + (2 ^ k - 1)) mod 2 ^ k \<le> 2 ^ k - 1" 
      using mod_less_divisor [of "2 ^ k" "a + (2 ^ k - 1)"] p by linarith
    then show ?thesis by linarith
  qed
  from this [of "unat x + n"] show ?thesis
    unfolding e page_split(2) [OF assms(1)] u using p by simp
qed

section \<open>What it prints\<close>

text \<open>The lines that show a value or a fault, oldest first.\<close>

definition peek_lines :: "peek_event list \<Rightarrow> (32 word \<times> 32 word option) list" where
  "peek_lines h = rev (List.map_filter (\<lambda>e. case e of PkLine a v \<Rightarrow> Some (a, v) | _ \<Rightarrow> None) h)"

definition peek_reads :: "peek_event list \<Rightarrow> 32 word list" where
  "peek_reads h = rev (List.map_filter (\<lambda>e. case e of PkRead p _ \<Rightarrow> Some p | _ \<Rightarrow> None) h)"

lemma peek_log [simp]:
  "peek_lines (PkLine a v # h) = peek_lines h @ [(a, v)]" "peek_lines (PkRead p v # h) = peek_lines h"
  "peek_lines (PkSigaction x # h) = peek_lines h" "peek_lines (PkErr x # h) = peek_lines h" "peek_lines [] = []"
  "peek_reads (PkLine a v # h) = peek_reads h" "peek_reads (PkRead p v # h) = peek_reads h @ [p]"
  "peek_reads (PkSigaction x # h) = peek_reads h" "peek_reads (PkErr x # h) = peek_reads h" "peek_reads [] = []"
  by (simp_all add: peek_lines_def peek_reads_def map_filter_simps)

lemma wp_pk [wp_simps, simp]:
  "wp (pk_emit e) Q s = Q () (s\<lparr>pk_hist := e # pk_hist s\<rparr>)"
  "- (2 ^ 31) \<le> v \<Longrightarrow> v < 2 ^ 31 \<Longrightarrow> wp (int_op v) R t = R v t"
  by (simp_all add: pk_emit_def int_op_def)

lemma peek_loop:
  assumes "4 * n < 2 ^ 31"
  shows "wp (for_each [0..<n] (peek_word E base m inoff)) (\<lambda>_ t. pk_ub t = pk_ub s \<and>
    (\<exists>hs. peek_lines (pk_hist t) = peek_lines (pk_hist s) @
        map (\<lambda>i. (base + of_nat (4 * i), pe_load E (hs i) (m + inoff + of_nat (4 * i)))) [0..<n]) \<and>
    peek_reads (pk_hist t) = peek_reads (pk_hist s) @ map (\<lambda>i. m + inoff + of_nat (4 * i)) [0..<n]) s"
    (is "wp _ (\<lambda>_. ?I n) s")
proof (rule wp_for_upto [where I = ?I])
  fix i t assume i: "i < n" and I: "?I i t"
  then obtain hs where hs: "peek_lines (pk_hist t) = peek_lines (pk_hist s) @
      map (\<lambda>i. (base + of_nat (4 * i), pe_load E (hs i) (m + inoff + of_nat (4 * i)))) [0..<i]" by blast
  have r: "- (2 ^ 31) \<le> int i * 4" "int i * 4 < 2 ^ 31" using i assms by simp_all
  have o: "of_int (int i * 4) = (of_nat (4 * i) :: 32 word)" by simp
  show "wp (peek_word E base m inoff i) (\<lambda>_. ?I (Suc i)) t"
    unfolding peek_word_def wp_bind wp_pk(2) [OF r] o Let_def
    using I hs by (auto intro!: exI [of _ "hs(i := pk_hist t)"])
qed simp

section \<open>What a run shows\<close>

definition peek_boot :: peek where
  "peek_boot = \<lparr>pk_hist = [], pk_ub = False\<rparr>"

definition peek_count :: "string list \<Rightarrow> int" where
  "peek_count argv = (if 2 < length argv then atoi (argv ! 2) else 1)"

text \<open>What mmap promises: the bytes of a mapping are those of the file from its offset.\<close>

definition maps_memory :: "peek_env \<Rightarrow> (peek_event list \<Rightarrow> 32 word \<Rightarrow> 32 word option) \<Rightarrow> bool" where
  "maps_memory E mem \<longleftrightarrow> (\<forall>len off m. pe_mmap E len off = Some m \<longrightarrow>
     (\<forall>h i. i + 4 \<le> unat len \<longrightarrow> pe_load E h (m + of_nat i) = mem h (off + of_nat i)))"

text \<open>
  A word that the bus faults on does not disturb the others: with a count and an
  address whose pages fit the address space, the tool returns 0 and prints one line
  per word, in order, with the address of the word and what physical memory answers
  there, a value or a fault. Every load it makes is inside its mapping, whole words
  at the end included.
\<close>

theorem peek_reads_words:
  assumes "2 \<le> length argv" and "0 \<le> pe_fd E" and "pe_pagesize E = 2 ^ k" and "k < 32"
    and "base = strtoul0 (argv ! 1)" and "peek_count argv = int n" and "4 * n < 2 ^ 31"
    and "unat base mod 2 ^ k + 4 * n + 2 ^ k \<le> 2 ^ 32"
    and "\<And>len off. pe_mmap E len off \<noteq> None" and "maps_memory E mem"
  shows "\<exists>t len off m. run_state (peek_main E argv) peek_boot = (0, t) \<and> \<not> pk_ub t \<and>
    (\<exists>hs. peek_lines (pk_hist t) = map (\<lambda>i. (base + of_nat (4 * i), mem (hs i) (base + of_nat (4 * i)))) [0..<n]) \<and>
    pe_mmap E len off = Some m \<and>
    peek_reads (pk_hist t) = map (\<lambda>i. m + (base - off) + of_nat (4 * i)) [0..<n] \<and>
    (\<forall>i < n. unat (base - off) + 4 * i + 4 \<le> unat len)"
proof -
  let ?off = "base AND NOT (2 ^ k - 1)"
  let ?len = "((base - ?off + of_int (int n * 4)) + 2 ^ k - 1) AND NOT (2 ^ k - 1)"
  obtain m where m: "pe_mmap E ?len ?off = Some m" using assms(9) by blast
  have u: "unat (base - ?off) = unat base mod 2 ^ k"
    by (simp add: page_split(1) [OF assms(4)] unat_take_bit)
  have "of_int (int n * 4) = (of_nat (4 * n) :: 32 word)" by simp
  then have len: "unat (base - ?off) + 4 * n \<le> unat ?len"
    using page_cover [OF assms(4), of "base - ?off" "4 * n"] assms(8) u by (simp add: mult.commute)
  have load: "pe_load E h (m + (base - ?off) + of_nat (4 * i)) = mem h (base + of_nat (4 * i))" if "i < n" for h i
  proof -
    have "unat (base - ?off) + 4 * i + 4 \<le> unat ?len" using len that by linarith
    then have "pe_load E h (m + of_nat (unat (base - ?off) + 4 * i)) = mem h (?off + of_nat (unat (base - ?off) + 4 * i))"
      using assms(10) m unfolding maps_memory_def by blast
    then show ?thesis by (simp add: algebra_simps)
  qed
  let ?t = "exec (peek_main E argv) peek_boot"
  let ?s = "peek_boot\<lparr>pk_hist := [PkSigaction ''SIGSEGV'', PkSigaction ''SIGBUS'']\<rparr>"
  have "wp (peek_main E argv) (\<lambda>rc t. rc = 0 \<and> pk_ub t = pk_ub ?s \<and>
    (\<exists>hs. peek_lines (pk_hist t) = map (\<lambda>i. (base + of_nat (4 * i), pe_load E (hs i) (m + (base - ?off) + of_nat (4 * i)))) [0..<n]) \<and>
    peek_reads (pk_hist t) = map (\<lambda>i. m + (base - ?off) + of_nat (4 * i)) [0..<n]) peek_boot"
  proof -
    have ints: "- (2 ^ 31) \<le> int n * 4" "int n * 4 < 2 ^ 31" "- (2 ^ 31) \<le> int n" "int n < 2 ^ 31" using assms(7) by simp_all
    have loop: "wp (do { for_each [0..<n] (peek_word E base m (base - ?off)); ret 0 }) Q ?s"
      if "\<And>t. pk_ub t = pk_ub ?s \<and>
        (\<exists>hs. peek_lines (pk_hist t) = map (\<lambda>i. (base + of_nat (4 * i), pe_load E (hs i) (m + (base - ?off) + of_nat (4 * i)))) [0..<n]) \<and>
        peek_reads (pk_hist t) = map (\<lambda>i. m + (base - ?off) + of_nat (4 * i)) [0..<n] \<Longrightarrow> Q 0 t" for Q
      unfolding wp_bind by (rule wp_mono, rule peek_loop [OF assms(7)]) (simp only: wp_ret, rule that, simp)
    have cnt: "wp (if 2 < length argv then int_op (atoi (argv ! 2)) else ret 1) Q t = Q (int n) t" for Q t
      using assms(6) ints(3,4) by (simp add: peek_count_def split: if_splits)
    have st: "peek_boot\<lparr>pk_hist := PkSigaction ''SIGBUS'' # pk_hist peek_boot,
        pk_hist := PkSigaction ''SIGSEGV'' # pk_hist (peek_boot\<lparr>pk_hist := PkSigaction ''SIGBUS'' # pk_hist peek_boot\<rparr>)\<rparr> = ?s"
      by (simp add: peek_boot_def)
    have "\<not> length argv < 2" "\<not> pe_fd E < 0" using assms(1,2) by simp_all
    then show ?thesis
      unfolding peek_main_def Let_def assms(3) assms(5) [symmetric]
      apply (simp only: if_False wp_bind cnt wp_pk(2) [OF ints(1,2)] m option.case wp_pk(1) nat_int)
      apply (subst st)
      apply (rule loop [unfolded wp_bind], simp)
      done
  qed
  then obtain hs where r: "result (peek_main E argv) peek_boot = 0" "pk_ub ?t = pk_ub ?s"
    and lines: "peek_lines (pk_hist ?t) = map (\<lambda>i. (base + of_nat (4 * i), pe_load E (hs i) (m + (base - ?off) + of_nat (4 * i)))) [0..<n]"
    and reads: "peek_reads (pk_hist ?t) = map (\<lambda>i. m + (base - ?off) + of_nat (4 * i)) [0..<n]"
    unfolding wp_def by blast
  have "peek_lines (pk_hist ?t) = map (\<lambda>i. (base + of_nat (4 * i), mem (hs i) (base + of_nat (4 * i)))) [0..<n]"
    unfolding lines using load by (intro map_cong) simp_all
  moreover have "run_state (peek_main E argv) peek_boot = (0, ?t)" "\<not> pk_ub ?t"
    using r by (simp_all add: run_state_conv peek_boot_def)
  moreover have "\<forall>i < n. unat (base - ?off) + 4 * i + 4 \<le> unat ?len" using len by auto
  ultimately show ?thesis using m reads by blast
qed

text \<open>A range that crosses a page, whose second word faults.\<close>

definition peek_bus :: peek_env where
  "peek_bus = \<lparr>pe_fd = 3, pe_pagesize = 4096, pe_mmap = \<lambda>_ off. Some off,
     pe_load = \<lambda>_ p. if p < 0x11000 then Some 7 else None\<rparr>"

theorem peek_reads_words_witness:
  "\<exists>t. run_state (peek_main peek_bus [''peek'', ''0x10ffc'', ''2'']) peek_boot = (0, t) \<and>
     peek_lines (pk_hist t) = [(0x10ffc, Some 7), (0x11000, None)]"
proof -
  have "(0x10ffc :: 32 word) = strtoul0 ''0x10ffc''" "peek_count [''peek'', ''0x10ffc'', ''2''] = int 2"
    by (simp_all add: peek_count_def atoi_def strtoul0_def c_isspace_def is_digit_def digits_value_def digit_val_def)
  then show ?thesis
    using peek_reads_words [of "[''peek'', ''0x10ffc'', ''2'']" peek_bus 12 "0x10ffc" 2
        "\<lambda>_ p. if p < 0x11000 then Some 7 else None"]
    by (force simp: maps_memory_def peek_bus_def upt_conv_Cons)
qed

lemma peek_errors:
  assumes "length argv < 2 \<or> pe_fd E < 0 \<or> (\<forall>len off. pe_mmap E len off = None)"
  shows "wp (peek_main E argv) (\<lambda>rc t. rc = 1 \<and> peek_reads (pk_hist t) = [] \<and> peek_lines (pk_hist t) = []) peek_boot"
  using assms by (auto simp: peek_main_def peek_boot_def int_op_def Let_def)

text \<open>
  The usage asks for a hexadecimal address, but a number without the prefix 0x is
  read as decimal.
\<close>

theorem peek_address_decimal:
  assumes "list_all (is_digit 10) s" and "s \<noteq> []" and "hd s \<noteq> CHR ''0''" and "digits_value 10 s < 2 ^ 32"
  shows "strtoul0 s = of_nat (digits_value 10 s)"
proof -
  obtain c cs where s: "s = c # cs" using assms(2) by (cases s) auto
  have c: "is_digit 10 c" using assms(1) s by simp
  then have "\<not> c_isspace c" "c \<noteq> CHR ''-''" "c \<noteq> CHR ''+''"
    by (auto simp: is_digit_def c_isspace_def digit_val_def Let_def split: if_splits option.splits)
  moreover have "parse_prefix s = (10, s)"
    using assms(3) s by (cases cs; cases "tl cs") auto
  ultimately show ?thesis using assms(4) s by (simp add: strtoul0_def)
qed

theorem peek_address_decimal_witness:
  "strtoul0 ''10'' = 10 \<and> strtoul0 ''0x10'' = 0x10"
proof -
  have "list_all (is_digit 10) ''10''" "digits_value 10 ''10'' = 10"
    by (simp_all add: is_digit_def digits_value_def digit_val_def)
  moreover have "strtoul0 ''0x10'' = 0x10"
    by (simp add: strtoul0_def c_isspace_def is_digit_def digits_value_def digit_val_def)
  ultimately show ?thesis using peek_address_decimal [of "''10''"] by simp
qed

end
