(* ===== verification/Spec2Isabelle.thy ===== *)
theory Spec2Isabelle
  imports Ipq4019_Stream Uboot_Selftest Uboot_Lifecycle Linux_Mdio Gmac_Send Gmac_Recv Gmac_Init Gmac_Start Peek
begin

text \<open>
  A verification development for the IPQ4019 ethernet driver of depthcharge
  (src/src/drivers/net: ipq4019.c, ipq4019.h, ipq4019_mdio.c, ipq4019_psgmii.c).

  The program. The driver brings up three blocks of the SoC, the MDIO controller
  with the QCA8075 PHYs behind it, the ESS switch (port 0 is the CPU, ports 1 to
  4 are LAN, port 5 is WAN) and the EDMA engine with its transmit and receive
  descriptor rings, and gives depthcharge's network stack a device with the
  operations ready, recv, send and get_mac. depthcharge calls a poller, which
  initialises the hardware at most three times.

  The model. Effectful C functions are programs of the state monad on the record
  \<open>drv\<close> (Ipq4019_Dev): the history of everything the driver did to the hardware,
  the console, the flag \<open>ub\<close> (set by an access outside an array), the device
  structure, the contents of both rings, the receive buffers' addresses and the
  variables declared static inside functions. What is not in the repository
  (libpayload, the hardware, the cache, the allocator) is the parameter \<open>platform\<close>
  (Platform): its answers are functions of the history, so a theorem for every
  platform holds for every sequence of answers. Machine integers are words of
  their width; the \<open>int\<close> counters for log lines are unbounded integers. The
  register reads inside one printf are done from left to right. Console texts
  use '-' where the source has a dash.

  The theories, in the order of use:
    Drv_Prelude      words, monadic control flow (\<open>for_each\<close> for counted loops,
                     \<open>poll_loop\<close> for bounded loops with a break), weakest
                     preconditions, frame rules (\<open>keeps\<close>), the locale \<open>polling\<close>
    Platform         events, the environment, primitives, footprints of programs
    Net_Stack        what depthcharge does with a driver: the locales \<open>net_device\<close>
                     and \<open>polled_driver\<close>
    Ipq4019_Regs     the constants and descriptors of ipq4019.h
    Ipq4019_Mdio     ipq4019_mdio.c; frames on the wire and the PHYs' registers
    Ipq4019_Dev      the driver's state; loops of read-modify-writes
    Ipq4019_Switch   ess_switch_* of ipq4019.c; the forwarding relation
    Ipq4019_Edma     edma_* and ipq4019_eth_start; the locale \<open>index_ring\<close>; what
                     the CPU and what DMA see of a ring (\<open>cpu_view\<close>, \<open>dma_view\<close>)
    Ipq4019_Tx       ipq4019_eth_send and its parts
    Ipq4019_Rx       ipq4019_eth_recv and its parts; the receive ring's invariant
    Ipq4019_Net      link check, MAC address; the invariant of the device
    Ipq4019_Bringup  pins, clock, resets, ipq4019_eth_init, the poller
    Ipq4019_Psgmii   ipq4019_psgmii.c
    Ipq4019_Stream   the receive path as a queue of frames
    Drv_Simulation   two programs side by side: correspondence and its rules
    Uboot_Regs       reference/uboot-essedma.h
    Uboot_Essedma    switch, engine, rings and eth_ops of reference/uboot-essedma.c
    Uboot_Equiv      those against the port
    Uboot_Mdio       reference/uboot-mdio-ipq4019.c, against the port
    Uboot_Psgmii     the PSGMII self-test of uboot-essedma.c; its steps against
                     the port's
    Uboot_Selftest   the whole self-tests of both, whatever the tests find
    Uboot_Probe      probe, device tree and remove of uboot-essedma.c
    Uboot_Lifecycle  what probe takes and gives back
    Linux_Mdio       tmp/mdio-ipq4019.c, the Linux driver of the MDIO controller
    Gmac_Dev         state, environment, descriptors and MDIO access of
                     reference/depthcharge-ipq806x.c
    Gmac_Io          its rings, start, transmit and receive
    Gmac_Bringup     its MAC address, clocks, resets, initialisation and poller
    Gmac_Ring        its type invariant, over every run
    Gmac_Send        its transmit operation, on every branch
    Gmac_Recv        its receive operation as a queue of frames
    Gmac_Init        its failures, its wait for the reset, its MAC address
    Gmac_Start       what its start has done when the hardware is told to run
    Peek             tmp/peek.c, the tool that reads physical memory
    Spec2Isabelle    runs of the whole driver

  What the lemmas show. Each component has a weakest-precondition rule per
  operation (\<open>wp_...\<close>), which says what it does on every branch; the properties
  follow from them. Ipq4019_Mdio: the waits end, errors are reported, the register
  writes of a call are the frames of the MDIO protocol, and four frames refine one
  access to a MMD register. Ipq4019_Switch: the forwarding matrix of both modes.
  Ipq4019_Edma, Ipq4019_Tx, Ipq4019_Rx: ring contents and indices, coherence of
  the rings with the cache at each doorbell, bounds of every access. Ipq4019_Net:
  no call sequence of the network stack breaks the driver's invariant \<open>dev_ok\<close>.
  Ipq4019_Bringup: initialisation establishes it, and the poller refines a
  three-phase machine. Here: both together, for every run from boot.
  Ipq4019_Stream: with hardware that fills the slots it is given in order, the
  stack gets each frame once and in order, whatever calls it makes in between.

  The port and its origin. ipq4019.c was made from the U-Boot driver kept under
  reference/. It is modelled in the same monad over its own state (\<open>ubd\<close>), its
  names with the prefix ub_ or uboot_ where the port has the same one. Theorems
  compare the two: the same register accesses for the switch, the engine and
  reception, the same frames to the PHYs; and where the port differs, how (the
  length of a frame's last descriptor, slots not marked valid). The port leaves the
  tests out of the PSGMII self-test; Uboot_Selftest shows that both leave the PHYs
  in the same state however U-Boot's tests come out. What U-Boot itself provides is a parameter with a contract:
  the polling macro (locale \<open>poll_macro\<close>), the PHY accessors (locale
  \<open>phy_layer\<close>, shown to hold on top of U-Boot's MDIO driver), the configuration
  constants (\<open>uboot_cfg\<close>), the core that frees received packets, and the driver
  model with its device tree, clock and reset line (\<open>uboot_dm\<close>, locale
  \<open>driver_model\<close>). Over the life of the device, from probe through any calls
  of its operations to remove, memory and clock are in balance on every path.
  Linux_Mdio does the same for the Linux driver of the MDIO controller: its
  accesses select their clause before each command, and the bus clock it computes
  is the one the port writes; its probe keeps only some of the divisors it finds.

  The older driver. depthcharge-ipq806x.c drives the GMAC of the SoC before, in the
  place the port takes in the network stack. It is modelled over its own state
  (\<open>gmac\<close>), with the headers it includes, which are not in the repository, as the
  parameter \<open>ipq806x_hdr\<close>. Its descriptors are in cached memory, so a load takes
  the CPU's copy (\<open>tx_lines\<close>, \<open>rx_lines\<close>) and fetches it when the line is not in
  the cache; lines leave the cache by the driver's own maintenance only, and a
  function's stores to a descriptor between two other actions are one store. Three
  of its loops have no bound (the wait for the reset, the wait for the link, the
  receive loop): they are \<open>partial_function (option)\<close>, None for a run that does
  not end, and the theorems say when they return. Gmac_Ring: its arrays, indexes
  and descriptor chains in every run from boot. Gmac_Recv: several frames end up
  in one buffer, and one that fits no buffer stops reception. Gmac_Init: a failed
  initialisation frees its structure twice; the port's MAC address is the older
  driver's only when sysinfo has one. Gmac_Start: the start bits are set last, with
  every receive descriptor filled and in memory.

  The peek tool (Peek) has the kernel as its parameter \<open>peek_env\<close>, with what mmap
  promises as the hypothesis \<open>maps_memory\<close>; strtoul and atoi are defined as C has
  them. Its loads stay inside the pages it maps and a faulting word leaves the other
  lines as they are; an address without the prefix 0x is read as decimal, whatever
  its usage line says.

  Bounds. Loops with a break are bounded by the code itself (10000 polls of the
  MDIO controller, a million polls of the transmit index, 100 polls of a PLL), so
  \<open>poll_loop\<close> takes the code's own bound and every function is total. The rings
  have 8 and 512 descriptors, receive buffers 2048 bytes, 16 of them descriptor.
  Runs and call sequences offer a receive at most the 2032 bytes behind it, as the
  driver does not compare the length the hardware reports with its own buffer; for
  the older driver, whose buffers have 1536 bytes, it is 1536.

  Not modelled: the format of console lines beyond template and arguments, the
  list of pollers (registration is an event), and PSGMII_ST_NUM_RETRIES, which
  the code defines and does not use; the debug messages of the U-Boot driver, the
  handles it keeps of its clock, reset line and MDIO device, and the tables that
  register the drivers with U-Boot and the kernel; of the GMAC driver, the switch
  driver it calls (a parameter of Gmac_Bringup), and cache lines evicted on their
  own.
  The rest of the repository is reference copies of other drivers and headers,
  patches, documents and scripts of the test bench.
\<close>

section \<open>Runs of the driver\<close>






lemma dev_ok_vars_console [simp]:
  "dev_ok (s\<lparr>vars := v\<rparr>) = dev_ok s" "dev_ok (s\<lparr>console := c\<rparr>) = dev_ok s"
  by (simp_all add: dev_ok_def rx_ring_inv_def)






section \<open>Properties\<close>




end
